(* ===== verification/Prelude.thy ===== *)
theory Prelude
  imports Main "HOL-Library.AList" "HOL-Library.List_Lexorder" "HOL-Library.Char_ord"
    "HOL-Library.Signed_Division" "HOL-Library.Sublist"
begin

text \<open>
  Shared material of the development: the result type of Go code that may panic, the
  state-passing actions in which the controllers are written, Go maps and decimal
  printing, the error values of the API client, and the interface locales
  (\<open>frame\<close> for relations that every action keeps, \<open>kv_store\<close> for key-value
  stores) with the lemmas their clients share.
\<close>

named_theorems act_simps \<open>unfolding of actions\<close>
named_theorems keeps_intros \<open>structural rules for relations kept by actions\<close>

section \<open>Results and actions\<close>

text \<open>
  A Go function either returns a value or panics (nil dereference, write to a nil map,
  index out of range, division by zero, explicit \<open>panic\<close>).  An action passes the state
  explicitly; the state reached is kept in both cases.
\<close>

datatype 'a res = Ret (ret_val: 'a) | Panic string

type_synonym ('s, 'a) act = "'s \<Rightarrow> 'a res \<times> 's"

definition ret :: "'a \<Rightarrow> ('s, 'a) act" where
  "ret a = (\<lambda>s. (Ret a, s))"

definition crash :: "string \<Rightarrow> ('s, 'a) act" where
  "crash msg = (\<lambda>s. (Panic msg, s))"

definition andThen :: "('s, 'a) act \<Rightarrow> ('a \<Rightarrow> ('s, 'b) act) \<Rightarrow> ('s, 'b) act" where
  "andThen m k = (\<lambda>s. case m s of (Ret a, s') \<Rightarrow> k a s' | (Panic e, s') \<Rightarrow> (Panic e, s'))"

definition gets :: "('s \<Rightarrow> 'a) \<Rightarrow> ('s, 'a) act" where
  "gets f = (\<lambda>s. (Ret (f s), s))"

definition modify :: "('s \<Rightarrow> 's) \<Rightarrow> ('s, unit) act" where
  "modify f = (\<lambda>s. (Ret (), f s))"

text \<open>\<open>defer\<close>: the action runs when the function ends, in whatever way; its result is dropped.\<close>

definition deferring :: "('s, 'a) act \<Rightarrow> ('s, 'b) act \<Rightarrow> ('s, 'a) act" where
  "deferring m d = (\<lambda>s. case m s of (r, t) \<Rightarrow> (r, snd (d t)))"

fun forA :: "'a list \<Rightarrow> ('a \<Rightarrow> ('s, unit) act) \<Rightarrow> ('s, unit) act" where
  "forA [] f = ret ()"
| "forA (x # xs) f = andThen (f x) (\<lambda>_. forA xs f)"

lemma ret_apply [simp, act_simps]: "ret a s = (Ret a, s)"
  by (simp add: ret_def)

lemma crash_apply [simp, act_simps]: "crash e s = (Panic e, s)"
  by (simp add: crash_def)

lemma gets_apply [simp, act_simps]: "gets f s = (Ret (f s), s)"
  by (simp add: gets_def)

lemma modify_apply [simp, act_simps]: "modify f s = (Ret (), f s)"
  by (simp add: modify_def)

lemma andThen_apply [act_simps]:
  "andThen m k s = (case m s of (Ret a, s') \<Rightarrow> k a s' | (Panic e, s') \<Rightarrow> (Panic e, s'))"
  by (simp add: andThen_def)

lemma andThen_Ret [simp]: "m s = (Ret a, s') \<Longrightarrow> andThen m k s = k a s'"
  by (simp add: andThen_def)

lemma andThen_Panic [simp]: "m s = (Panic e, s') \<Longrightarrow> andThen m k s = (Panic e, s')"
  by (simp add: andThen_def)

lemma andThen_ret_left [simp]: "andThen (ret a) k = k a"
  by (simp add: andThen_def fun_eq_iff)

lemma andThen_gets_apply [simp]: "andThen (gets f) k s = k (f s) s"
  by (simp add: andThen_def)

lemma andThen_modify_apply [simp]: "andThen (modify f) k s = k () (f s)"
  by (simp add: andThen_def)

lemma andThen_assoc: "andThen (andThen m k) j = andThen m (\<lambda>x. andThen (k x) j)"
  by (simp add: andThen_def fun_eq_iff split: prod.splits res.splits)

lemma andThen_eq_Ret:
  "andThen m k s = (Ret b, t) \<longleftrightarrow> (\<exists>a s'. m s = (Ret a, s') \<and> k a s' = (Ret b, t))"
  by (auto simp: andThen_def split: prod.splits res.splits)

section \<open>Errors\<close>

text \<open>
  An error value carries its message; \<open>NotFound\<close> is an error of which
  \<open>apiErrors.IsNotFound\<close> holds.
\<close>

datatype error = NotFound string | Failure string

fun errmsg :: "error \<Rightarrow> string" where
  "errmsg (NotFound m) = m"
| "errmsg (Failure m) = m"

fun IsNotFound :: "error \<Rightarrow> bool" where
  "IsNotFound (NotFound m) = True"
| "IsNotFound (Failure m) = False"

section \<open>Relations kept by actions\<close>

text \<open>
  \<open>keeps R m\<close>: running \<open>m\<close> from any state ends, normally or by a panic, in an
  \<open>R\<close>-related state.  Any preorder \<open>R\<close> is kept by the sequencing operators as soon as
  their parts keep it: the locale \<open>frame\<close> proves this once.
\<close>

definition keeps :: "('s \<Rightarrow> 's \<Rightarrow> bool) \<Rightarrow> ('s, 'a) act \<Rightarrow> bool" where
  "keeps R m \<longleftrightarrow> (\<forall>s. R s (snd (m s)))"

lemma keepsI: "(\<And>s. R s (snd (m s))) \<Longrightarrow> keeps R m"
  by (simp add: keeps_def)

lemma keepsD: "keeps R m \<Longrightarrow> R s (snd (m s))"
  by (simp add: keeps_def)

lemma keepsE: "keeps R m \<Longrightarrow> m s = (r, s') \<Longrightarrow> R s s'"
  by (metis keeps_def snd_conv)

locale frame =
  fixes R :: "'s \<Rightarrow> 's \<Rightarrow> bool"
  assumes R_refl: "R s s"
    and R_trans: "R s t \<Longrightarrow> R t u \<Longrightarrow> R s u"
begin

lemma keeps_ret: "keeps R (ret a)"
  by (simp add: keeps_def R_refl)

lemma keeps_Pair: "keeps R (Pair r)"
  by (simp add: keeps_def R_refl)

lemma keeps_crash: "keeps R (crash e)"
  by (simp add: keeps_def R_refl)

lemma keeps_gets: "keeps R (gets f)"
  by (simp add: keeps_def R_refl)

lemma keeps_modify: "(\<And>s. R s (f s)) \<Longrightarrow> keeps R (modify f)"
  by (simp add: keeps_def)

lemma keeps_andThen:
  assumes m: "keeps R m" and k: "\<And>x. keeps R (k x)"
  shows "keeps R (andThen m k)"
proof (rule keepsI)
  fix s
  obtain r s' where ms: "m s = (r, s')" by fastforce
  with m have one: "R s s'" by (rule keepsE)
  show "R s (snd (andThen m k s))"
  proof (cases r)
    case (Ret a)
    with k have "R s' (snd (k a s'))" by (simp add: keeps_def)
    with one Ret ms show ?thesis by (auto intro: R_trans)
  next
    case (Panic e)
    with one ms show ?thesis by simp
  qed
qed

lemma keeps_if: "(b \<Longrightarrow> keeps R m) \<Longrightarrow> (\<not> b \<Longrightarrow> keeps R n) \<Longrightarrow> keeps R (if b then m else n)"
  by simp

lemma keeps_forA: "(\<And>x. x \<in> set xs \<Longrightarrow> keeps R (f x)) \<Longrightarrow> keeps R (forA xs f)"
  by (induction xs) (auto intro: keeps_ret keeps_andThen)

end

section \<open>Key-value stores\<close>

text \<open>
  What the components that keep keyed data promise to their clients: the request layer
  stores its checks and messages, and the controllers their display variables, through
  these operations only.
\<close>

locale kv_store =
  fixes lookup :: "'st \<Rightarrow> 'k \<Rightarrow> 'v option"
    and put :: "'k \<Rightarrow> 'v \<Rightarrow> 'st \<Rightarrow> 'st"
    and del :: "'k \<Rightarrow> 'st \<Rightarrow> 'st"
    and invar :: "'st \<Rightarrow> bool"
  assumes lookup_put: "invar s \<Longrightarrow> lookup (put k v s) k' = (if k' = k then Some v else lookup s k')"
    and lookup_del: "invar s \<Longrightarrow> lookup (del k s) k' = (if k' = k then None else lookup s k')"
    and invar_put: "invar s \<Longrightarrow> invar (put k v s)"
    and invar_del: "invar s \<Longrightarrow> invar (del k s)"
begin

lemma invar_dels: "invar s \<Longrightarrow> invar (fold del ks s)"
  by (induction ks arbitrary: s) (auto intro: invar_del)

lemma lookup_dels:
  "invar s \<Longrightarrow> lookup (fold del ks s) k = (if k \<in> set ks then None else lookup s k)"
  by (induction ks arbitrary: s) (auto simp: lookup_del invar_del)

lemma dels_order:
  assumes "invar s" and "set ks = set ks'"
  shows "lookup (fold del ks s) = lookup (fold del ks' s)"
  using assms by (simp add: fun_eq_iff lookup_dels)

lemma lookup_put_twice:
  "invar s \<Longrightarrow> lookup (put k v (put k u s)) = lookup (put k v s)"
  by (simp add: fun_eq_iff lookup_put invar_put)

lemma lookup_puts:
  "invar s \<Longrightarrow> distinct (map fst kvs) \<Longrightarrow>
   lookup (fold (\<lambda>(k, v). put k v) kvs s) k
     = (case map_of kvs k of Some v \<Rightarrow> Some v | None \<Rightarrow> lookup s k)"
proof (induction kvs arbitrary: s)
  case Nil
  then show ?case by simp
next
  case (Cons kv kvs)
  obtain k' v where kv: "kv = (k', v)" by fastforce
  with Cons.prems have "map_of kvs k' = None" by (simp add: map_of_eq_None_iff)
  with Cons kv show ?case by (simp add: lookup_put invar_put split: option.split)
qed

lemma invar_puts: "invar s \<Longrightarrow> invar (fold (\<lambda>(k, v). put k v) kvs s)"
  by (induction kvs arbitrary: s) (auto intro: invar_put)

end

section \<open>Go maps\<close>

text \<open>
  A Go map with string keys: \<open>None\<close> is the nil map, on which a read finds nothing and a
  write panics; \<open>Some kvs\<close> lists the entries (the order has no meaning).
\<close>

type_synonym 'v gomap = "(string \<times> 'v) list option"

definition gm_entries :: "'v gomap \<Rightarrow> (string \<times> 'v) list" where
  "gm_entries m = (case m of None \<Rightarrow> [] | Some kvs \<Rightarrow> kvs)"

definition gm_get :: "'v gomap \<Rightarrow> string \<Rightarrow> 'v option" where
  "gm_get m k = map_of (gm_entries m) k"

definition gm_str :: "string gomap \<Rightarrow> string \<Rightarrow> string" where
  "gm_str m k = (case gm_get m k of None \<Rightarrow> '''' | Some v \<Rightarrow> v)"

definition gm_put :: "string \<Rightarrow> 'v \<Rightarrow> 'v gomap \<Rightarrow> 'v gomap" where
  "gm_put k v m = Some (AList.update k v (gm_entries m))"

definition gm_del :: "string \<Rightarrow> 'v gomap \<Rightarrow> 'v gomap" where
  "gm_del k m = map_option (AList.delete k) m"

definition gm_len :: "'v gomap \<Rightarrow> nat" where
  "gm_len m = length (gm_entries m)"

definition gm_ok :: "'v gomap \<Rightarrow> bool" where
  "gm_ok m \<longleftrightarrow> distinct (map fst (gm_entries m))"

lemma gm_get_None [simp]: "gm_get None k = None"
  by (simp add: gm_get_def gm_entries_def)

lemma gm_get_Some [simp]: "gm_get (Some kvs) = map_of kvs"
  by (simp add: gm_get_def gm_entries_def fun_eq_iff)

lemma gm_entries_simps [simp]: "gm_entries None = []" "gm_entries (Some kvs) = kvs"
  by (simp_all add: gm_entries_def)

lemma gm_get_put [simp]: "gm_get (gm_put k v m) k' = (if k' = k then Some v else gm_get m k')"
  by (simp add: gm_get_def gm_put_def gm_entries_def update_conv' split: option.splits)

lemma gm_get_del [simp]: "gm_get (gm_del k m) k' = (if k' = k then None else gm_get m k')"
  by (cases m) (auto simp: gm_get_def gm_del_def gm_entries_def delete_conv')

lemma gm_put_not_None [simp]: "gm_put k v m \<noteq> None"
  by (simp add: gm_put_def)

lemma gm_ok_put: "gm_ok m \<Longrightarrow> gm_ok (gm_put k v m)"
  by (simp add: gm_ok_def gm_put_def gm_entries_def distinct_update)

lemma gm_ok_del: "gm_ok m \<Longrightarrow> gm_ok (gm_del k m)"
  by (cases m) (auto simp: gm_ok_def gm_del_def gm_entries_def distinct_delete)

interpretation gm: kv_store gm_get gm_put gm_del gm_ok
  by unfold_locales (auto simp: gm_ok_put gm_ok_del)

section \<open>Decimal printing\<close>

text \<open>What \<open>fmt.Sprint\<close> and \<open>%d\<close> print for an integer.\<close>

definition digit :: "nat \<Rightarrow> char" where
  "digit d = char_of (48 + d)"

fun nat_digits :: "nat \<Rightarrow> string" where
  "nat_digits n = (if n < 10 then [digit n] else nat_digits (n div 10) @ [digit (n mod 10)])"

declare nat_digits.simps [simp del]

definition itoa :: "int \<Rightarrow> string" where
  "itoa i = (if i < 0 then ''-'' @ nat_digits (nat (- i)) else nat_digits (nat i))"

definition undigit :: "char \<Rightarrow> nat" where
  "undigit c = of_char c - 48"

lemma undigit_digit [simp]: "d < 10 \<Longrightarrow> undigit (digit d) = d"
  by (simp add: undigit_def digit_def)

definition undigits :: "string \<Rightarrow> nat" where
  "undigits cs = foldl (\<lambda>n c. 10 * n + undigit c) 0 cs"

lemma undigits_nat_digits [simp]: "undigits (nat_digits n) = n"
proof (induction n rule: nat_digits.induct)
  case (1 n)
  show ?case
  proof (cases "n < 10")
    case True
    then show ?thesis by (simp add: nat_digits.simps [of n] undigits_def)
  next
    case False
    with 1 have "foldl (\<lambda>n c. 10 * n + undigit c) 0 (nat_digits (n div 10)) = n div 10"
      by (simp add: undigits_def)
    with False show ?thesis
      by (simp add: nat_digits.simps [of n] undigits_def)
  qed
qed

lemma nat_digits_inject [simp]: "nat_digits m = nat_digits n \<longleftrightarrow> m = n"
  by (metis undigits_nat_digits)

lemma digit_not_dash [simp]: "d < 10 \<Longrightarrow> digit d \<noteq> CHR ''-''"
proof
  assume d: "d < 10" and eq: "digit d = CHR ''-''"
  have "of_char (digit d) = 48 + d" using d by (simp add: digit_def)
  with eq show False by simp
qed

lemma dash_not_digit [simp]: "d < 10 \<Longrightarrow> CHR ''-'' \<noteq> digit d"
  by (metis digit_not_dash)

lemma dash_notin_nat_digits: "CHR ''-'' \<notin> set (nat_digits n)"
proof (induction n rule: nat_digits.induct)
  case (1 n)
  then show ?case
    by (cases "n < 10") (simp_all add: nat_digits.simps [of n])
qed

lemma nat_digits_not_Nil [simp]: "nat_digits n \<noteq> []"
  by (simp add: nat_digits.simps [of n])

lemma itoa_inject [simp]: "itoa i = itoa j \<longleftrightarrow> i = j"
proof
  assume eq: "itoa i = itoa j"
  have dash: "CHR ''-'' # ds \<noteq> nat_digits n" for ds n
    using dash_notin_nat_digits [of n] by (metis list.set_intros(1))
  show "i = j"
    using eq dash dash [THEN not_sym] by (auto simp: itoa_def split: if_splits)
qed simp

text \<open>
  Two composed names \<open>name-number\<close> with non-negative numbers agree only when their
  parts do: the digits hold no dash, so the last dash is the separator.
\<close>

lemma dashed_inject:
  assumes eq: "a @ ''-'' @ itoa i = b @ ''-'' @ itoa j" and "0 \<le> i" and "0 \<le> j"
  shows "a = b \<and> i = j"
proof -
  have tail: "takeWhile (\<lambda>c. c \<noteq> CHR ''-'') (rev (x @ ''-'' @ itoa k)) = rev (itoa k)"
    if "0 \<le> k" for x k
  proof -
    have "CHR ''-'' \<notin> set (itoa k)" using that by (simp add: itoa_def dash_notin_nat_digits)
    then show ?thesis by (subst rev_append, subst rev_append) (auto simp: takeWhile_append2 takeWhile_tail)
  qed
  from tail [of i a] tail [of j b] assms have "rev (itoa i) = rev (itoa j)" by metis
  then have "i = j" by simp
  with eq show ?thesis by simp
qed

section \<open>Machine integers\<close>

text \<open>
  Go's \<open>int\<close> and \<open>int64\<close> have 64 bits: an \<open>int\<close> with the wrap-around written out.
  Division truncates towards zero and panics on a zero divisor.
\<close>

definition w64 :: "int \<Rightarrow> int" where
  "w64 x = (x + 2 ^ 63) mod 2 ^ 64 - 2 ^ 63"

definition w32 :: "int \<Rightarrow> int" where
  "w32 x = (x + 2 ^ 31) mod 2 ^ 32 - 2 ^ 31"

definition div64 :: "int \<Rightarrow> int \<Rightarrow> ('s, int) act" where
  "div64 a b = (if b = 0 then crash ''integer divide by zero'' else ret (w64 (a sdiv b)))"

lemma w64_id [simp]: "- (2 ^ 63) \<le> x \<Longrightarrow> x < 2 ^ 63 \<Longrightarrow> w64 x = x"
  by (simp add: w64_def)

lemma w64_range: "- (2 ^ 63) \<le> w64 x \<and> w64 x < 2 ^ 63"
  by (simp add: w64_def)

lemma w32_id [simp]: "- (2 ^ 31) \<le> x \<Longrightarrow> x < 2 ^ 31 \<Longrightarrow> w32 x = x"
  by (simp add: w32_def)

lemma sdiv_nonneg: "0 \<le> a \<Longrightarrow> 0 < b \<Longrightarrow> a sdiv b = a div b" for a b :: int
  by (simp add: signed_divide_int_def sgn_if)

lemma div64_run:
  "0 \<le> a \<Longrightarrow> a < 2 ^ 63 \<Longrightarrow> 0 < b \<Longrightarrow> div64 a b = ret (a div b)"
proof -
  assume a: "0 \<le> a" "a < 2 ^ 63" and b: "0 < b"
  then have "a div b \<le> a" and "0 \<le> a div b"
    using zdiv_mono2 [of a 1 b] by (simp_all add: pos_imp_zdiv_nonneg_iff)
  with a b show ?thesis by (simp add: div64_def sdiv_nonneg)
qed

end
