(* ===== verification/RawJson.thy ===== *)
theory RawJson
  imports Prelude
begin

text \<open>
  The schemaless JSON object of \<open>lib/raw-json/main.go\<close>: a pair of a decoded map and its
  serialised form.  A number that is not an integer keeps its literal (\<open>JNum\<close>).  A JSON text is represented by its parse (\<open>JText\<close>) or, when the bytes
  do not parse, by the decoder's complaint (\<open>JBad\<close>); the values stored are JSON values,
  so \<open>json.Marshal\<close> does not fail on them.  The methods are actions on the object, since
  \<open>fillMap\<close> writes its decoded map and panics on a text that is not an object.

  The interpretation \<open>rj\<close> shows that the object implements the \<open>kv_store\<close> interface.
\<close>

section \<open>JSON values and texts\<close>

datatype json =
    JNull
  | JBool bool
  | JInt int
  | JNum string
  | JStr string
  | JArr "json list"
  | JObj "(string \<times> json) list"

datatype jtext = JText json | JBad string

text \<open>Decoding an object into a Go map: a later duplicate of a key wins.\<close>

definition obj_map :: "(string \<times> json) list \<Rightarrow> (string \<times> json) list" where
  "obj_map kvs = fold (\<lambda>(k, v). AList.update k v) kvs []"

text \<open>\<open>json.Unmarshal\<close> into a \<open>map[string]any\<close>; the JSON null makes the map nil.\<close>

definition unmarshal_map :: "jtext \<Rightarrow> string + json gomap" where
  "unmarshal_map t = (case t of
     JBad e \<Rightarrow> Inl e
   | JText (JObj kvs) \<Rightarrow> Inr (Some (obj_map kvs))
   | JText JNull \<Rightarrow> Inr None
   | JText _ \<Rightarrow> Inl ''json: cannot unmarshal into Go value of type map[string]interface {}'')"

definition marshal_map :: "json gomap \<Rightarrow> jtext" where
  "marshal_map m = (case m of None \<Rightarrow> JText JNull | Some kvs \<Rightarrow> JText (JObj kvs))"

section \<open>The object and its methods\<close>

record rawjson =
  rj_items :: "json gomap"
  rj_raw :: "jtext option"

definition rj_empty :: rawjson where
  "rj_empty = \<lparr>rj_items = None, rj_raw = None\<rparr>"

definition rj_fillMap :: "(rawjson, unit) act" where
  "rj_fillMap s = (case rj_raw s of
     Some t \<Rightarrow> (case unmarshal_map t of
         Inl e \<Rightarrow> (Panic e, s\<lparr>rj_items := Some []\<rparr>)
       | Inr None \<Rightarrow> (Ret (), s\<lparr>rj_items := Some []\<rparr>)
       | Inr (Some kvs) \<Rightarrow> (Ret (), s\<lparr>rj_items := Some kvs\<rparr>))
   | None \<Rightarrow> (case rj_items s of
         None \<Rightarrow> (Ret (), s\<lparr>rj_items := Some []\<rparr>)
       | Some _ \<Rightarrow> (Ret (), s)))"

definition rj_Reset :: "(rawjson, unit) act" where
  "rj_Reset = modify (\<lambda>s. s\<lparr>rj_items := None, rj_raw := None\<rparr>)"

definition rj_complete :: "(rawjson, error option) act" where
  "rj_complete = andThen (modify (\<lambda>s. s\<lparr>rj_raw := Some (marshal_map (rj_items s))\<rparr>)) (\<lambda>_. ret None)"

definition rj_Len :: "(rawjson, nat) act" where
  "rj_Len = andThen rj_fillMap (\<lambda>_. gets (\<lambda>s. gm_len (rj_items s)))"

definition rj_Set :: "string \<Rightarrow> json \<Rightarrow> (rawjson, error option) act" where
  "rj_Set key v = andThen rj_fillMap (\<lambda>_.
     andThen (modify (\<lambda>s. s\<lparr>rj_items := gm_put key v (rj_items s)\<rparr>)) (\<lambda>_. rj_complete))"

definition rj_SetFromMap :: "(string \<times> json) list \<Rightarrow> (rawjson, error option) act" where
  "rj_SetFromMap m = andThen rj_fillMap (\<lambda>_.
     andThen (modify (\<lambda>s. s\<lparr>rj_items := fold (\<lambda>(k, v). gm_put k v) m (rj_items s)\<rparr>))
       (\<lambda>_. rj_complete))"

definition rj_Exists :: "string list \<Rightarrow> (rawjson, bool) act" where
  "rj_Exists keys = andThen rj_fillMap (\<lambda>_.
     gets (\<lambda>s. list_ex (\<lambda>k. gm_get (rj_items s) k \<noteq> None) keys))"

definition rj_Delete :: "string \<Rightarrow> (rawjson, error option) act" where
  "rj_Delete key = andThen rj_fillMap (\<lambda>_. andThen (gets (\<lambda>s. gm_len (rj_items s))) (\<lambda>c.
     andThen (modify (\<lambda>s. s\<lparr>rj_items := gm_del key (rj_items s)\<rparr>)) (\<lambda>_.
     andThen (gets (\<lambda>s. gm_len (rj_items s))) (\<lambda>c'.
     if c \<noteq> c' then rj_complete else ret None))))"

definition rj_Get :: "string \<Rightarrow> (rawjson, error + json) act" where
  "rj_Get key = andThen rj_fillMap (\<lambda>_. gets (\<lambda>s. case gm_get (rj_items s) key of
     None \<Rightarrow> Inl (Failure (''key ['' @ key @ ''] does not exist''))
   | Some v \<Rightarrow> Inr v))"

definition rj_GetString :: "string \<Rightarrow> (rawjson, string option) act" where
  "rj_GetString key = andThen rj_fillMap (\<lambda>_. gets (\<lambda>s. case gm_get (rj_items s) key of
     Some (JStr v) \<Rightarrow> Some v
   | _ \<Rightarrow> None))"

section \<open>The object as a key-value store\<close>

definition rj_ok :: "rawjson \<Rightarrow> bool" where
  "rj_ok s \<longleftrightarrow> (case rj_raw s of
     None \<Rightarrow> gm_ok (rj_items s)
   | Some (JText JNull) \<Rightarrow> True
   | Some (JText (JObj kvs)) \<Rightarrow> True
   | _ \<Rightarrow> False)"

definition rj_view :: "rawjson \<Rightarrow> json gomap" where
  "rj_view s = rj_items (snd (rj_fillMap s))"

definition rj_lookup :: "rawjson \<Rightarrow> string \<Rightarrow> json option" where
  "rj_lookup s = gm_get (rj_view s)"

lemma obj_map_snoc:
  "distinct (map fst (acc @ kvs)) \<Longrightarrow> fold (\<lambda>(k, v). AList.update k v) kvs acc = acc @ kvs"
proof (induction kvs arbitrary: acc)
  case (Cons kv kvs)
  have new: "AList.update k v acc = acc @ [(k, v)]" if "k \<notin> fst ` set acc" for k v
    using that by (induction acc) auto
  from Cons show ?case by (cases kv) (auto simp: new)
qed simp

lemma obj_map_id: "distinct (map fst kvs) \<Longrightarrow> obj_map kvs = kvs"
  by (simp add: obj_map_def obj_map_snoc)

lemma obj_map_distinct: "distinct (map fst (obj_map kvs))"
proof -
  have "distinct (map fst acc) \<Longrightarrow>
      distinct (map fst (fold (\<lambda>(k, v). AList.update k v) kvs acc))" for acc :: "(string \<times> json) list"
    by (induction kvs arbitrary: acc) (auto simp: distinct_update)
  then show ?thesis by (simp add: obj_map_def)
qed

lemma rj_fillMap_ok:
  "rj_ok s \<Longrightarrow> rj_fillMap s = (Ret (), s\<lparr>rj_items := rj_view s\<rparr>)"
  by (auto simp: rj_ok_def rj_fillMap_def rj_view_def unmarshal_map_def
      split: option.splits jtext.splits json.splits)

lemma rj_view_ok: "rj_ok s \<Longrightarrow> \<exists>kvs. rj_view s = Some kvs \<and> distinct (map fst kvs)"
  by (auto simp: rj_ok_def rj_view_def rj_fillMap_def unmarshal_map_def gm_ok_def gm_entries_def
      obj_map_distinct split: option.splits jtext.splits json.splits)

lemma rj_view_gm_ok: "rj_ok s \<Longrightarrow> gm_ok (rj_view s)"
  using rj_view_ok by (fastforce simp: gm_ok_def gm_entries_def)

lemma rj_ok_panics: "\<not> rj_ok s \<Longrightarrow> rj_raw s \<noteq> None \<Longrightarrow> \<exists>e s'. rj_fillMap s = (Panic e, s')"
  by (auto simp: rj_ok_def rj_fillMap_def unmarshal_map_def split: option.splits jtext.splits json.splits)

text \<open>The state after a write: the decoded map and its serialised form agree.\<close>

definition rj_written :: "json gomap \<Rightarrow> rawjson \<Rightarrow> rawjson" where
  "rj_written m s = s\<lparr>rj_items := m, rj_raw := Some (marshal_map m)\<rparr>"

lemma rj_ok_written [simp]: "rj_ok (rj_written m s)"
  by (cases m) (simp_all add: rj_ok_def rj_written_def marshal_map_def)

lemma rj_view_written: "gm_ok m \<Longrightarrow> m \<noteq> None \<Longrightarrow> rj_view (rj_written m s) = m"
  by (auto simp: rj_view_def rj_fillMap_def rj_written_def marshal_map_def unmarshal_map_def
      gm_ok_def gm_entries_def obj_map_id split: option.splits)

lemma rj_Set_ok:
  "rj_ok s \<Longrightarrow> rj_Set k v s = (Ret None, rj_written (gm_put k v (rj_view s)) s)"
  by (simp add: rj_Set_def rj_fillMap_ok rj_complete_def rj_written_def)

lemma rj_Delete_ok:
  assumes "rj_ok s"
  shows "rj_Delete k s = (Ret None,
    if rj_lookup s k = None then s\<lparr>rj_items := rj_view s\<rparr> else rj_written (gm_del k (rj_view s)) s)"
proof -
  obtain kvs where v: "rj_view s = Some kvs" and d: "distinct (map fst kvs)"
    using assms rj_view_ok by blast
  have len: "length (AList.delete k kvs) \<noteq> length kvs \<longleftrightarrow> k \<in> fst ` set kvs"
    by (induction kvs) (auto, metis Suc_n_not_le_n length_delete_le)
  then have eq: "length (AList.delete k kvs) = length kvs \<longleftrightarrow> map_of kvs k = None"
    by (simp add: map_of_eq_None_iff) blast
  moreover have "k \<notin> fst ` set kvs \<Longrightarrow> AList.delete k kvs = kvs"
    by (simp add: delete_id)
  ultimately show ?thesis using assms v
    by (auto simp: rj_Delete_def rj_fillMap_ok gm_len_def gm_entries_def gm_del_def rj_complete_def
        rj_written_def rj_lookup_def map_of_eq_None_iff)
qed

lemma rj_view_refresh [simp]: "rj_ok s \<Longrightarrow> rj_view (s\<lparr>rj_items := rj_view s\<rparr>) = rj_view s"
  using rj_view_ok [of s]
  by (auto simp: rj_view_def rj_fillMap_def split: option.splits sum.splits)

lemma rj_ok_refresh [simp]: "rj_ok s \<Longrightarrow> rj_ok (s\<lparr>rj_items := rj_view s\<rparr>)"
  using rj_view_gm_ok [of s] by (auto simp: rj_ok_def split: option.splits)

lemma rj_lookup_written: "gm_ok m \<Longrightarrow> m \<noteq> None \<Longrightarrow> rj_lookup (rj_written m s) = gm_get m"
  by (simp add: rj_lookup_def rj_view_written)

definition rj_put :: "string \<Rightarrow> json \<Rightarrow> rawjson \<Rightarrow> rawjson" where
  "rj_put k v s = snd (rj_Set k v s)"

definition rj_del :: "string \<Rightarrow> rawjson \<Rightarrow> rawjson" where
  "rj_del k s = snd (rj_Delete k s)"

lemma rj_del_ok:
  assumes "rj_ok s"
  shows "rj_ok (rj_del k s)" and "rj_lookup (rj_del k s) k' = (if k' = k then None else rj_lookup s k')"
proof -
  obtain kvs where v: "rj_view s = Some kvs" using assms rj_view_ok by blast
  have ok: "gm_ok (gm_del k (rj_view s))" by (rule gm_ok_del [OF rj_view_gm_ok [OF assms]])
  have some: "gm_del k (rj_view s) \<noteq> None" using v by (simp add: gm_del_def)
  show "rj_ok (rj_del k s)"
    using assms by (simp add: rj_del_def rj_Delete_ok)
  have refreshed: "rj_lookup (s\<lparr>rj_items := rj_view s\<rparr>) k' = rj_lookup s k'"
    using assms by (simp add: rj_lookup_def)
  show "rj_lookup (rj_del k s) k' = (if k' = k then None else rj_lookup s k')"
    using rj_lookup_written [OF ok some, of s] refreshed assms
    by (auto simp: rj_del_def rj_Delete_ok rj_lookup_def)
qed

interpretation rj: kv_store rj_lookup rj_put rj_del rj_ok
proof unfold_locales
  fix s k v k' assume ok: "rj_ok s"
  have put_ok: "gm_ok (gm_put k v (rj_view s))"
    using rj_view_gm_ok [OF ok] by (rule gm_ok_put)
  show "rj_lookup (rj_put k v s) k' = (if k' = k then Some v else rj_lookup s k')"
    using rj_lookup_written [OF put_ok, of s] by (simp add: rj_put_def rj_Set_ok ok rj_lookup_def)
  show "rj_ok (rj_put k v s)" by (simp add: rj_put_def rj_Set_ok ok)
  show "rj_lookup (rj_del k s) k' = (if k' = k then None else rj_lookup s k')"
    using ok by (rule rj_del_ok)
  show "rj_ok (rj_del k s)" using ok by (rule rj_del_ok)
qed

lemma rj_Set_result [simp]: "rj_ok s \<Longrightarrow> rj_Set k v s = (Ret None, rj_put k v s)"
  by (simp add: rj_put_def rj_Set_ok)

lemma rj_Delete_result [simp]: "rj_ok s \<Longrightarrow> rj_Delete k s = (Ret None, rj_del k s)"
  by (simp add: rj_del_def rj_Delete_ok)

lemma rj_GetString_result:
  "rj_ok s \<Longrightarrow> rj_GetString k s =
     (Ret (case rj_lookup s k of Some (JStr v) \<Rightarrow> Some v | _ \<Rightarrow> None), s\<lparr>rj_items := rj_view s\<rparr>)"
  by (simp add: rj_GetString_def rj_fillMap_ok rj_lookup_def)

lemma rj_Len_result:
  assumes "rj_ok s"
  shows "rj_Len s = (Ret (card (dom (rj_lookup s))), s\<lparr>rj_items := rj_view s\<rparr>)"
proof -
  obtain kvs where v: "rj_view s = Some kvs" and d: "distinct (map fst kvs)"
    using assms rj_view_ok by blast
  have "card (fst ` set kvs) = length kvs"
    using d by (metis distinct_card length_map set_map)
  moreover have "dom (rj_lookup s) = fst ` set kvs"
    using v by (auto simp: rj_lookup_def dom_def map_of_eq_None_iff [symmetric] weak_map_of_SomeI
        dest: map_of_SomeD intro: rev_image_eqI)
  ultimately show ?thesis using assms v
    by (simp add: rj_Len_def rj_fillMap_ok gm_len_def gm_entries_def)
qed

lemma rj_empty_ok [simp]: "rj_ok rj_empty"
  by (simp add: rj_ok_def rj_empty_def gm_ok_def gm_entries_def)

lemma rj_empty_lookup [simp]: "rj_lookup rj_empty k = None"
  by (simp add: rj_lookup_def rj_view_def rj_fillMap_def rj_empty_def)

end
