(* ===== verification/Meta.thy ===== *)
theory Meta
  imports RawJson
begin

text \<open>
  The data every custom resource carries: object metadata and owner references, conditions,
  the checks and the status of \<open>lib/operator.v2/main.go\<close>, and the helpers of
  \<open>lib/functions\<close> that read them (\<open>operator-helpers.go\<close>, \<open>kubectl.go\<close>, \<open>main.go\<close>).
  A time is an integer, \<open>0\<close> the zero time.
\<close>

section \<open>Metadata\<close>

record ownerref =
  or_APIVersion :: string
  or_Kind :: string
  or_Name :: string
  or_UID :: string
  or_Controller :: bool
  or_BlockOwnerDeletion :: bool

record objmeta =
  om_APIVersion :: string
  om_Kind :: string
  om_Name :: string
  om_Namespace :: string
  om_UID :: string
  om_Labels :: "string gomap"
  om_Annotations :: "string gomap"
  om_Finalizers :: "string list"
  om_Owners :: "ownerref list"
  om_Generation :: int
  om_Deleting :: bool

definition AsOwner :: "objmeta \<Rightarrow> bool list \<Rightarrow> ownerref" where
  "AsOwner r controller = \<lparr>or_APIVersion = om_APIVersion r, or_Kind = om_Kind r,
     or_Name = om_Name r, or_UID = om_UID r, or_Controller = (controller \<noteq> []),
     or_BlockOwnerDeletion = True\<rparr>"

definition IsOwner :: "objmeta \<Rightarrow> ownerref \<Rightarrow> bool" where
  "IsOwner obj ownerRef = list_ex (\<lambda>ref. or_Name ref = or_Name ownerRef \<and> or_UID ref = or_UID ownerRef
     \<and> or_Kind ref = or_Kind ownerRef \<and> or_APIVersion ref = or_APIVersion ownerRef) (om_Owners obj)"

definition ContainsFinalizers :: "objmeta \<Rightarrow> string list \<Rightarrow> bool" where
  "ContainsFinalizers obj finalizers = list_all (\<lambda>f. f \<in> set (om_Finalizers obj)) finalizers"

text \<open>An owner reference ignores the controller flag when it is looked up.\<close>

lemma IsOwner_append:
  "IsOwner (obj\<lparr>om_Owners := om_Owners obj @ [AsOwner r c]\<rparr>) (AsOwner r c')"
  by (simp add: IsOwner_def AsOwner_def)

lemma ContainsFinalizers_iff:
  "ContainsFinalizers obj fs \<longleftrightarrow> set fs \<subseteq> set (om_Finalizers obj)"
  by (auto simp: ContainsFinalizers_def list_all_iff)

section \<open>Maps of labels\<close>

text \<open>
  \<open>target[k]\<close> reads the zero value for a missing key, so a required empty value is taken
  as present.
\<close>

definition MapContains :: "string gomap \<Rightarrow> string gomap \<Rightarrow> bool" where
  "MapContains target m = (if target = None \<and> m = None then True
     else if m = None then False
     else list_all (\<lambda>(k, v). gm_str target k = v) (gm_entries m))"

definition MapMerge :: "'v gomap \<Rightarrow> 'v gomap \<Rightarrow> 'v gomap" where
  "MapMerge m1 m2 = fold (\<lambda>(k, v). gm_put k v) (gm_entries m2)
     (fold (\<lambda>(k, v). gm_put k v) (gm_entries m1) (Some []))"

text \<open>
  \<open>MapSet\<close> writes through a non-nil map; for a nil argument it writes to a fresh map that
  its caller never sees.  The result is the caller's map afterwards.
\<close>

definition MapSet :: "'v gomap \<Rightarrow> string \<Rightarrow> 'v \<Rightarrow> 'v gomap" where
  "MapSet m key v = (case m of None \<Rightarrow> None | Some kvs \<Rightarrow> gm_put key v (Some kvs))"

definition put_all :: "(string \<times> 'v) list \<Rightarrow> 'v gomap \<Rightarrow> 'v gomap" where
  "put_all kvs m = fold (\<lambda>(k, v). gm_put k v) kvs m"

lemma gm_get_put_all:
  assumes "distinct (map fst kvs)" and "gm_ok m"
  shows "gm_get (put_all kvs m) k = (case map_of kvs k of Some v \<Rightarrow> Some v | None \<Rightarrow> gm_get m k)"
  using gm.lookup_puts [OF assms(2,1)] by (simp add: put_all_def)

lemma MapContains_iff:
  assumes "distinct (map fst kvs)"
  shows "MapContains target (Some kvs) \<longleftrightarrow> (\<forall>k v. map_of kvs k = Some v \<longrightarrow> gm_str target k = v)"
  using assms by (auto simp: MapContains_def gm_entries_def list_all_iff)

lemma MapContains_put_all:
  assumes "distinct (map fst kvs)" and "gm_ok m"
  shows "MapContains (put_all kvs m) (Some kvs)"
  using assms by (simp add: MapContains_iff gm_str_def gm_get_put_all)

lemma MapMerge_get:
  assumes "gm_ok m1" and "gm_ok m2"
  shows "gm_get (MapMerge m1 m2) k = (case gm_get m2 k of Some v \<Rightarrow> Some v | None \<Rightarrow> gm_get m1 k)"
proof -
  have d: "distinct (map fst (gm_entries m1))" "distinct (map fst (gm_entries m2))"
    using assms by (simp_all add: gm_ok_def)
  have ok: "gm_ok (Some [] :: 'a gomap)" by (simp add: gm_ok_def gm_entries_def)
  have ok1: "gm_ok (fold (\<lambda>(k, v). gm_put k v) (gm_entries m1) (Some []))"
    by (rule gm.invar_puts [OF ok])
  show ?thesis
    using gm.lookup_puts [OF ok1 d(2), of k] gm.lookup_puts [OF ok d(1), of k]
    by (auto simp: MapMerge_def gm_get_def split: option.splits)
qed

section \<open>Conditions, checks and the status\<close>

datatype cond_status = ConditionTrue | ConditionFalse | ConditionUnknown

record condition =
  cType :: string
  cStatus :: cond_status
  cReason :: string
  cMessage :: string
  cLastTransitionTime :: int

record check =
  ck_Status :: bool
  ck_Message :: string
  ck_Generation :: int

definition Check0 :: check where
  "Check0 = \<lparr>ck_Status = False, ck_Message = '''', ck_Generation = 0\<rparr>"

definition CheckGen :: "int \<Rightarrow> check" where
  "CheckGen g = \<lparr>ck_Status = False, ck_Message = '''', ck_Generation = g\<rparr>"

record container_message =
  cm_State :: string
  cm_Pod :: string
  cm_Container :: string
  cm_Reason :: string
  cm_Message :: string
  cm_ExitCode :: int

record status =
  st_IsReady :: bool
  st_Message :: rawjson
  st_Messages :: "container_message list"
  st_DisplayVars :: rawjson
  st_GeneratedVars :: rawjson
  st_Conditions :: "condition list"
  st_ChildConditions :: "condition list"
  st_OpsConditions :: "condition list"
  st_Checks :: "check gomap"
  st_LastReconcileTime :: int

text \<open>What the code reads of a pod's container statuses.\<close>

record container_state =
  cs_Name :: string
  cs_Ready :: bool
  cs_Terminated :: "(string \<times> string \<times> int) option"
  cs_Waiting :: "(string \<times> string) option"
  cs_Running :: "string option"

record pod =
  pod_Name :: string
  pod_Conditions :: "condition list"
  pod_Containers :: "container_state list"

definition container_messages :: "string \<Rightarrow> container_state \<Rightarrow> container_message list" where
  "container_messages pname st =
     (case cs_Terminated st of None \<Rightarrow> [] | Some (reason, msg, code) \<Rightarrow>
        [\<lparr>cm_State = ''terminated'', cm_Pod = pname, cm_Container = cs_Name st,
          cm_Reason = reason, cm_Message = msg, cm_ExitCode = code\<rparr>])
   @ (case cs_Waiting st of None \<Rightarrow> [] | Some (reason, msg) \<Rightarrow>
        [\<lparr>cm_State = ''waiting'', cm_Pod = pname, cm_Container = cs_Name st,
          cm_Reason = reason, cm_Message = msg, cm_ExitCode = 0\<rparr>])"

definition GetMessagesFromPods :: "pod list \<Rightarrow> container_message list" where
  "GetMessagesFromPods pods =
     concat (map (\<lambda>p. concat (map (container_messages (pod_Name p)) (pod_Containers p))) pods)"

section \<open>Resources\<close>

text \<open>
  A custom resource: metadata, its kind's spec, and the common status.  The methods of Go's
  \<open>Resource\<close> interface that differ between kinds are the fields of a method table.
\<close>

record 'sp resource =
  r_meta :: objmeta
  r_spec :: 'sp
  r_status :: status

record 'sp methods =
  GetEnsuredLabels :: "'sp resource \<Rightarrow> (string \<times> string) list"
  GetEnsuredAnnotations :: "'sp resource \<Rightarrow> (string \<times> string) list"

end
