(* ===== verification/Conditions.thy ===== *)
theory Conditions
  imports Meta
begin

text \<open>
  Merging condition lists: \<open>lib/conditions/main.go\<close>.  The lookup of a condition by type is
  \<open>meta.FindStatusCondition\<close> of the Kubernetes libraries, a parameter \<open>fnd\<close> here;
  \<open>finds_first\<close> is what its documentation promises.  The current time is a parameter too.
\<close>

definition finds_first :: "(condition list \<Rightarrow> string \<Rightarrow> condition option) \<Rightarrow> bool" where
  "finds_first fnd \<longleftrightarrow> (\<forall>cs t. fnd cs t = List.find (\<lambda>c. cType c = t) cs)"

definition reasondiff :: "string \<Rightarrow> string \<Rightarrow> bool" where
  "reasondiff r1 r2 =
     (let r1 = (if r1 = '''' then ''NotSpecified'' else r1);
          r2 = (if r2 = '''' then ''NotSpecified'' else r2)
      in r1 \<noteq> r2)"

text \<open>The defaults written into a condition that is new or has changed.\<close>

definition fill_defaults :: "int \<Rightarrow> condition \<Rightarrow> condition" where
  "fill_defaults x c =
     (let c = (if cLastTransitionTime c = 0 then c\<lparr>cLastTransitionTime := x\<rparr> else c)
      in if cReason c = '''' then c\<lparr>cReason := ''NotSpecified''\<rparr> else c)"

fun patch_dest :: "(condition list \<Rightarrow> string \<Rightarrow> condition option) \<Rightarrow> int \<Rightarrow> condition list
    \<Rightarrow> condition list \<Rightarrow> condition list \<times> bool" where
  "patch_dest fnd x source [] = ([], False)"
| "patch_dest fnd x source (c # dest) =
     (let (res, updated) = patch_dest fnd x source dest in
      case fnd source (cType c) of
        None \<Rightarrow> (res, True)
      | Some sc \<Rightarrow>
          if cStatus sc \<noteq> cStatus c \<or> reasondiff (cReason sc) (cReason c) \<or> cMessage sc \<noteq> cMessage c
          then (fill_defaults x sc # res, True)
          else (c # res, updated))"

fun patch_source :: "(condition list \<Rightarrow> string \<Rightarrow> condition option) \<Rightarrow> int \<Rightarrow> condition list
    \<Rightarrow> condition list \<Rightarrow> condition list \<times> bool" where
  "patch_source fnd x dest [] = ([], False)"
| "patch_source fnd x dest (c # source) =
     (let (res, updated) = patch_source fnd x dest source in
      if fnd dest (cType c) = None then (fill_defaults x c # res, True) else (res, updated))"

text \<open>
  The merged list, whether it differs from \<open>dest\<close>, and an error that is always nil.
  (The code defaults the fields of a changed source condition in place; a second look at the
  same condition then compares equal reasons and the same message, as here.)
\<close>

definition Patch :: "(condition list \<Rightarrow> string \<Rightarrow> condition option) \<Rightarrow> int \<Rightarrow> condition list
    \<Rightarrow> condition list \<Rightarrow> condition list \<times> bool \<times> error option" where
  "Patch fnd x dest source =
     (let (res, updated) = patch_dest fnd x source dest;
          (res', updated') = patch_source fnd x dest source
      in (res @ res', updated \<or> updated', None))"

definition FromResource :: "string \<Rightarrow> condition list \<Rightarrow> condition list" where
  "FromResource typePrefix c = map (\<lambda>condition. condition\<lparr>cType := typePrefix @ cType condition,
     cReason := (if length (cReason condition) = 0 then ''NotSpecified'' else cReason condition),
     cMessage := (if length (cMessage condition) = 0 then '''' else cMessage condition)\<rparr>) c"

definition NewCondition :: "string \<Rightarrow> bool \<Rightarrow> string \<Rightarrow> string list \<Rightarrow> condition" where
  "NewCondition t st reason msg = \<lparr>cType = t, cStatus = (if st then ConditionTrue else ConditionFalse),
     cReason = reason, cMessage = hd (msg @ ['''']), cLastTransitionTime = 0\<rparr>"

section \<open>Facts about merging\<close>

lemma reasondiff_same [simp]: "\<not> reasondiff r r"
  by (simp add: reasondiff_def)

lemma cType_fill_defaults [simp]: "cType (fill_defaults x c) = cType c"
  by (simp add: fill_defaults_def Let_def)

lemma cMessage_fill_defaults [simp]: "cMessage (fill_defaults x c) = cMessage c"
  by (simp add: fill_defaults_def Let_def)

lemma find_first_of_append:
  "List.find P (xs @ ys) = (case List.find P xs of None \<Rightarrow> List.find P ys | Some x \<Rightarrow> Some x)"
  by (induction xs) auto

lemma find_type_mem:
  assumes "distinct (map cType cs)" and "c \<in> set cs"
  shows "List.find (\<lambda>d. cType d = cType c) cs = Some c"
  using assms by (induction cs) auto

lemma find_SomeD: "List.find P xs = Some x \<Longrightarrow> x \<in> set xs \<and> P x"
  by (induction xs) (auto split: if_splits)

lemma find_type_None: "List.find (\<lambda>c. cType c = t) cs = None \<longleftrightarrow> t \<notin> cType ` set cs"
  by (auto simp: find_None_iff)

lemma patch_dest_types:
  assumes "finds_first fnd"
  shows "cType ` set (fst (patch_dest fnd x source dest)) = cType ` set source \<inter> cType ` set dest"
proof (induction dest)
  case (Cons c dest)
  have found: "fnd source (cType c) = Some sc \<Longrightarrow> cType sc = cType c \<and> cType c \<in> cType ` set source" for sc
    using assms by (metis (mono_tags, lifting) find_SomeD finds_first_def imageI)
  have missing: "fnd source (cType c) = None \<Longrightarrow> cType c \<notin> cType ` set source"
    using assms by (simp add: finds_first_def find_type_None)
  obtain res u where p: "patch_dest fnd x source dest = (res, u)" by fastforce
  show ?case
  proof (cases "fnd source (cType c)")
    case None
    with Cons p missing [OF None] show ?thesis by simp
  next
    case (Some sc)
    with Cons p found [OF Some] show ?thesis by (simp add: Int_insert_right)
  qed
qed simp

lemma patch_source_types:
  assumes "finds_first fnd"
  shows "cType ` set (fst (patch_source fnd x dest source)) = cType ` set source - cType ` set dest"
proof (induction source)
  case (Cons c source)
  have "fnd dest (cType c) = None \<longleftrightarrow> cType c \<notin> cType ` set dest"
    using assms by (simp add: finds_first_def find_type_None)
  moreover obtain res u where "patch_source fnd x dest source = (res, u)" by fastforce
  ultimately show ?case using Cons by (cases "fnd dest (cType c)") (simp_all add: insert_Diff_if)
qed simp

lemma patch_dest_same:
  assumes "finds_first fnd" and "distinct (map cType (pre @ dest))"
  shows "patch_dest fnd x ((pre @ dest) @ extra) dest = (dest, False)"
  using assms(2)
proof (induction dest arbitrary: pre)
  case (Cons c dest)
  have self: "List.find (\<lambda>d. cType d = cType c) (pre @ c # dest) = Some c"
    using Cons.prems by (intro find_type_mem) auto
  then have "List.find (\<lambda>d. cType d = cType c) (pre @ c # dest @ extra) = Some c"
    by (simp add: find_first_of_append split: option.splits)
  with assms(1) have "fnd ((pre @ c # dest) @ extra) (cType c) = Some c"
    by (simp add: finds_first_def)
  moreover have "patch_dest fnd x ((pre @ c # dest) @ extra) dest = (dest, False)"
    using Cons.IH [of "pre @ [c]"] Cons.prems by simp
  ultimately show ?case by simp
qed simp

lemma patch_source_none:
  assumes "finds_first fnd" and "\<forall>c \<in> set source. cType c \<in> cType ` set dest"
  shows "patch_source fnd x dest source = ([], False)"
  using assms(2)
proof (induction source)
  case (Cons c source)
  then have "fnd dest (cType c) \<noteq> None"
    using assms(1) by (simp add: finds_first_def find_type_None)
  with Cons show ?case by auto
qed simp

text \<open>
  Merging a list with an extension of itself keeps every condition it had: only types that
  were not there yet are added.
\<close>

lemma Patch_self:
  assumes "finds_first fnd" and "distinct (map cType dest)"
    and "\<forall>c \<in> set extra. cType c \<in> cType ` set dest"
  shows "Patch fnd x dest (dest @ extra) = (dest, False, None)"
proof -
  have "patch_dest fnd x (dest @ extra) dest = (dest, False)"
    using patch_dest_same [OF assms(1), of "[]" dest] assms(2) by simp
  moreover have "patch_source fnd x dest (dest @ extra) = ([], False)"
    using assms(3) by (intro patch_source_none assms(1)) auto
  ultimately show ?thesis by (simp add: Patch_def)
qed

lemma patch_source_append:
  "fst (patch_source fnd x dest (as @ bs))
     = fst (patch_source fnd x dest as) @ fst (patch_source fnd x dest bs)"
  by (induction as) (auto split: prod.splits)

lemma Patch_extend:
  assumes "finds_first fnd" and "distinct (map cType dest)" and "cType c \<notin> cType ` set dest"
  shows "Patch fnd x dest (dest @ [c]) = (dest @ [fill_defaults x c], True, None)"
proof -
  have 1: "patch_dest fnd x (dest @ [c]) dest = (dest, False)"
    using patch_dest_same [OF assms(1), of "[]" dest] assms(2) by simp
  have 2: "patch_source fnd x dest dest = ([], False)"
    by (intro patch_source_none assms(1)) auto
  have 3: "fnd dest (cType c) = None"
    using assms by (simp add: finds_first_def find_type_None)
  have "patch_source fnd x dest (as @ [c]) = (fst (patch_source fnd x dest as) @ [fill_defaults x c], True)"
    for as
    using 3 by (induction as) (auto split: prod.splits)
  with 1 2 show ?thesis by (simp add: Patch_def)
qed

end
