(* ===== verification/StepResult.thy ===== *)
theory StepResult
  imports Prelude
begin

text \<open>
  The result a reconcile step hands to its caller: \<open>lib/operator.v2/step-result/step.go\<close>
  (whether to go on, when to requeue, an error) and the helpers of
  \<open>lib/reconcile-result/main.go\<close>.  Durations are integers in nanoseconds, as Go's are.
\<close>

section \<open>Durations and controller results\<close>

definition Millisecond :: int where "Millisecond = 1000000"
definition Second :: int where "Second = 1000 * Millisecond"

record ctrl_result =
  cr_Requeue :: bool
  cr_RequeueAfter :: int

definition ctrl_zero :: ctrl_result where
  "ctrl_zero = \<lparr>cr_Requeue = False, cr_RequeueAfter = 0\<rparr>"

section \<open>Step results\<close>

record step_result =
  sr_toContinue :: bool
  sr_requeue :: ctrl_result
  sr_err :: "error option"

definition New :: step_result where
  "New = \<lparr>sr_toContinue = False, sr_requeue = ctrl_zero, sr_err = None\<rparr>"

definition ShouldProceed :: "step_result \<Rightarrow> bool" where
  "ShouldProceed opt \<longleftrightarrow> sr_toContinue opt \<and> sr_err opt = None"

definition ReconcilerResponse :: "step_result \<Rightarrow> ctrl_result \<times> error option" where
  "ReconcilerResponse opt = (sr_requeue opt, sr_err opt)"

definition Continue :: "step_result \<Rightarrow> bool \<Rightarrow> step_result" where
  "Continue opt val = opt\<lparr>sr_toContinue := val\<rparr>"

definition RequeueAfter :: "step_result \<Rightarrow> int \<Rightarrow> step_result" where
  "RequeueAfter opt d = opt\<lparr>sr_requeue := \<lparr>cr_Requeue = False, cr_RequeueAfter = d\<rparr>\<rparr>"

definition Err :: "step_result \<Rightarrow> error option \<Rightarrow> step_result" where
  "Err opt err = opt\<lparr>sr_err := err\<rparr>"

lemmas step_result_defs = New_def ShouldProceed_def ReconcilerResponse_def Continue_def
  RequeueAfter_def Err_def

lemma ShouldProceed_New [simp]: "\<not> ShouldProceed New"
  by (simp add: step_result_defs)

lemma ShouldProceed_Err [simp]: "\<not> ShouldProceed (Err New e)"
  by (simp add: step_result_defs)

lemma ShouldProceed_Continue [simp]: "ShouldProceed (Continue New b) = b"
  by (simp add: step_result_defs)

lemma ShouldProceed_RequeueAfter [simp]: "ShouldProceed (RequeueAfter r d) = ShouldProceed r"
  by (simp add: step_result_defs)

lemma ShouldProceed_Err_set: "ShouldProceed (Err r e) \<longleftrightarrow> sr_toContinue r \<and> e = None"
  by (simp add: step_result_defs)

section \<open>Reconcile results\<close>

definition OK :: "ctrl_result \<times> error option" where
  "OK = (ctrl_zero, None)"

definition Failed :: "ctrl_result \<times> error option" where
  "Failed = (ctrl_zero, None)"

definition FailedE :: "error option \<Rightarrow> ctrl_result \<times> error option" where
  "FailedE err = (ctrl_zero, err)"

definition Retry :: "int list \<Rightarrow> ctrl_result \<times> error option" where
  "Retry after = (let a = (case after of [] \<Rightarrow> 0 | x # _ \<Rightarrow> x) in
     (\<lparr>cr_Requeue = True, cr_RequeueAfter = Second * max a 1\<rparr>, None))"

definition RetryE :: "int \<Rightarrow> error option \<Rightarrow> ctrl_result \<times> error option" where
  "RetryE after err = Retry [after]"

end
