(* ===== verification/Request.thy ===== *)
theory Request
  imports Conditions StepResult
begin

text \<open>
  The request layer every controller is written on: \<open>lib/operator.v2/request.go\<close>, with the
  locals of \<open>lib/operator.v2/main.go\<close> and the rollout commands of \<open>lib/kubectl/main.go\<close>.

  The API server, the command line tools, the clock and the Kubernetes helper libraries are
  parameters, the fields of the record \<open>kenv\<close>.  Every call to the outside is recorded in the
  history of the request; a response is a function of the history up to and including the
  call, so it may depend on anything done before and is otherwise arbitrary.  A successful
  update replaces the object in memory by the object the server returns, as the client does.
\<close>

section \<open>Calls, responses and the state of a request\<close>

datatype ('sp, 'ev) event =
    EGet string string
  | EUpdate "'sp resource"
  | EStatusUpdate "'sp resource"
  | EExec "string list"
  | ECall 'ev

type_synonym ('sp, 'ev) hist = "('sp, 'ev) event list"

text \<open>A command ends well with its output, exits with a code and its stderr, or cannot be run.\<close>

datatype exec_result = ExecOk string | ExecExit int string | ExecFail string

record ('sp, 'ev) kenv =
  k_now :: "('sp, 'ev) hist \<Rightarrow> int"
  k_get :: "('sp, 'ev) hist \<Rightarrow> error + 'sp resource"
  k_update :: "('sp, 'ev) hist \<Rightarrow> error + 'sp resource"
  k_status_update :: "('sp, 'ev) hist \<Rightarrow> error + 'sp resource"
  k_exec :: "('sp, 'ev) hist \<Rightarrow> exec_result"
  k_find :: "condition list \<Rightarrow> string \<Rightarrow> condition option"
  k_add_finalizer :: "string list \<Rightarrow> string \<Rightarrow> string list"
  k_remove_finalizer :: "string list \<Rightarrow> string \<Rightarrow> string list"

record ('sp, 'ev, 'lv) rstate =
  rs_obj :: "'sp resource"
  rs_hist :: "('sp, 'ev) hist"
  rs_locals :: "(string \<times> 'lv) list"

type_synonym ('sp, 'ev, 'lv, 'a) ract = "(('sp, 'ev, 'lv) rstate, 'a) act"

definition ask :: "('sp, 'ev) event \<Rightarrow> (('sp, 'ev) hist \<Rightarrow> 'r) \<Rightarrow> ('sp, 'ev, 'lv, 'r) ract" where
  "ask ev f = (\<lambda>s. (Ret (f (rs_hist s @ [ev])), s\<lparr>rs_hist := rs_hist s @ [ev]\<rparr>))"

definition modObj :: "('sp resource \<Rightarrow> 'sp resource) \<Rightarrow> ('sp, 'ev, 'lv, unit) ract" where
  "modObj f = modify (\<lambda>s. s\<lparr>rs_obj := f (rs_obj s)\<rparr>)"

definition modMeta :: "(objmeta \<Rightarrow> objmeta) \<Rightarrow> ('sp, 'ev, 'lv, unit) ract" where
  "modMeta f = modObj (\<lambda>obj. obj\<lparr>r_meta := f (r_meta obj)\<rparr>)"

definition modStatus :: "(status \<Rightarrow> status) \<Rightarrow> ('sp, 'ev, 'lv, unit) ract" where
  "modStatus f = modObj (\<lambda>obj. obj\<lparr>r_status := f (r_status obj)\<rparr>)"

definition getStatus :: "(status \<Rightarrow> 'a) \<Rightarrow> ('sp, 'ev, 'lv, 'a) ract" where
  "getStatus f = gets (\<lambda>s. f (r_status (rs_obj s)))"

definition getMeta :: "(objmeta \<Rightarrow> 'a) \<Rightarrow> ('sp, 'ev, 'lv, 'a) ract" where
  "getMeta f = gets (\<lambda>s. f (r_meta (rs_obj s)))"

text \<open>\<open>client.Update\<close> and \<open>client.Status().Update\<close> on the request's own object.\<close>

definition client_Update :: "('sp, 'ev, 'z) kenv_scheme \<Rightarrow> ('sp, 'ev, 'lv, error option) ract" where
  "client_Update E = andThen (gets rs_obj) (\<lambda>obj. andThen (ask (EUpdate obj) (k_update E)) (\<lambda>r.
     case r of Inl e \<Rightarrow> ret (Some e) | Inr obj' \<Rightarrow> andThen (modObj (\<lambda>_. obj')) (\<lambda>_. ret None)))"

definition client_StatusUpdate :: "('sp, 'ev, 'z) kenv_scheme \<Rightarrow> ('sp, 'ev, 'lv, error option) ract" where
  "client_StatusUpdate E = andThen (gets rs_obj) (\<lambda>obj. andThen (ask (EStatusUpdate obj) (k_status_update E)) (\<lambda>r.
     case r of Inl e \<Rightarrow> ret (Some e) | Inr obj' \<Rightarrow> andThen (modObj (\<lambda>_. obj')) (\<lambda>_. ret None)))"

text \<open>A method of a raw JSON field of the status, run on the status in place.\<close>

definition onMessage :: "(rawjson, 'a) act \<Rightarrow> ('sp, 'ev, 'lv, 'a) ract" where
  "onMessage m = (\<lambda>s. case m (st_Message (r_status (rs_obj s))) of
     (r, j) \<Rightarrow> (r, s\<lparr>rs_obj := (rs_obj s)\<lparr>r_status := (r_status (rs_obj s))\<lparr>st_Message := j\<rparr>\<rparr>\<rparr>))"

definition onDisplayVars :: "(rawjson, 'a) act \<Rightarrow> ('sp, 'ev, 'lv, 'a) ract" where
  "onDisplayVars m = (\<lambda>s. case m (st_DisplayVars (r_status (rs_obj s))) of
     (r, j) \<Rightarrow> (r, s\<lparr>rs_obj := (rs_obj s)\<lparr>r_status := (r_status (rs_obj s))\<lparr>st_DisplayVars := j\<rparr>\<rparr>\<rparr>))"

definition onGeneratedVars :: "(rawjson, 'a) act \<Rightarrow> ('sp, 'ev, 'lv, 'a) ract" where
  "onGeneratedVars m = (\<lambda>s. case m (st_GeneratedVars (r_status (rs_obj s))) of
     (r, j) \<Rightarrow> (r, s\<lparr>rs_obj := (rs_obj s)\<lparr>r_status := (r_status (rs_obj s))\<lparr>st_GeneratedVars := j\<rparr>\<rparr>\<rparr>))"

lemmas ract_defs = ask_def modObj_def modMeta_def modStatus_def getStatus_def getMeta_def
  client_Update_def client_StatusUpdate_def onMessage_def onDisplayVars_def onGeneratedVars_def

section \<open>Locals\<close>

text \<open>
  The locals hold values of any type; a kind of request lists the types it stores as a
  datatype, and \<open>prj\<close> is the type assertion of \<open>GetLocal\<close>.
\<close>

definition GetLocal :: "('lv \<Rightarrow> 'a option) \<Rightarrow> string \<Rightarrow> ('sp, 'ev, 'lv, 'a option) ract" where
  "GetLocal prj key = gets (\<lambda>s. case map_of (rs_locals s) key of None \<Rightarrow> None | Some x \<Rightarrow> prj x)"

definition HasLocal :: "string \<Rightarrow> ('sp, 'ev, 'lv, bool) ract" where
  "HasLocal key = gets (\<lambda>s. map_of (rs_locals s) key \<noteq> None)"

definition SetLocal :: "string \<Rightarrow> 'lv \<Rightarrow> ('sp, 'ev, 'lv, unit) ract" where
  "SetLocal key v = modify (\<lambda>s. s\<lparr>rs_locals := AList.update key v (rs_locals s)\<rparr>)"

section \<open>Constants\<close>

definition CommonFinalizer :: string where "CommonFinalizer = ''finalizers.kloudlite.io''"
definition ForegroundFinalizer :: string where "ForegroundFinalizer = ''foregroundDeletion''"
definition ClearStatusKey :: string where "ClearStatusKey = ''kloudlite.io/clear-status''"
definition RestartKey :: string where "RestartKey = ''kloudlite.io/do-restart''"

section \<open>kubectl rollouts\<close>

definition selector_args :: "(string \<times> string) list \<Rightarrow> string list" where
  "selector_args labels = concat (map (\<lambda>(k, v). [''-l'', k @ ''='' @ v]) labels)"

definition Restart :: "('sp, 'ev, 'z) kenv_scheme \<Rightarrow> string \<Rightarrow> string \<Rightarrow> (string \<times> string) list
    \<Rightarrow> ('sp, 'ev, 'lv, int \<times> error option) ract" where
  "Restart E kind namespace labels =
     andThen (ask (EExec ([''kubectl'', ''rollout'', ''restart'', kind, ''-n'', namespace]
         @ selector_args labels)) (k_exec E)) (\<lambda>r. case r of
       ExecExit code stderr \<Rightarrow>
         ret (code, Some (Failure (''could not restart '' @ kind @ '', because '' @ stderr @ '' as exit status '' @ itoa code)))
     | _ \<Rightarrow> ret (0, None))"

definition Scale :: "('sp, 'ev, 'z) kenv_scheme \<Rightarrow> string \<Rightarrow> string \<Rightarrow> (string \<times> string) list \<Rightarrow> int
    \<Rightarrow> ('sp, 'ev, 'lv, int \<times> error option) ract" where
  "Scale E kind namespace labels count =
     andThen (ask (EExec ([''kubectl'', ''scale'', ''--replicas'', itoa count, ''-n'', namespace, kind]
         @ selector_args labels)) (k_exec E)) (\<lambda>r. case r of
       ExecExit code stderr \<Rightarrow>
         ret (code, Some (Failure (''could not restart '' @ kind @ '', because '' @ stderr @ '' as exit status '' @ itoa code)))
     | _ \<Rightarrow> ret (0, None))"

section \<open>The methods of a request\<close>

definition NewRequest :: "('sp, 'ev, 'z) kenv_scheme \<Rightarrow> string \<Rightarrow> string \<Rightarrow> ('sp, 'ev) hist
    \<Rightarrow> (error + ('sp, 'ev, 'lv) rstate) \<times> ('sp, 'ev) hist" where
  "NewRequest E ns name h =
     (let h' = h @ [EGet ns name] in case k_get E h' of
        Inl e \<Rightarrow> (Inl e, h')
      | Inr obj \<Rightarrow> (Inr \<lparr>rs_obj = obj, rs_hist = h', rs_locals = []\<rparr>, h'))"

definition stamp :: "('sp, 'ev, 'z) kenv_scheme \<Rightarrow> ('sp, 'ev, 'lv, unit) ract" where
  "stamp E = andThen (gets (\<lambda>s. k_now E (rs_hist s)))
     (\<lambda>t. modStatus (\<lambda>st. st\<lparr>st_LastReconcileTime := t\<rparr>))"

definition Next :: "('sp, 'ev, 'lv, step_result) ract" where
  "Next = ret (Continue New True)"

definition Done :: "('sp, 'ev, 'z) kenv_scheme \<Rightarrow> ctrl_result list \<Rightarrow> ('sp, 'ev, 'lv, step_result) ract" where
  "Done E result = andThen (stamp E) (\<lambda>_. andThen (client_StatusUpdate E) (\<lambda>err. case err of
       Some e \<Rightarrow> ret (Err New (Some e))
     | None \<Rightarrow> (case result of
           r # _ \<Rightarrow> ret (RequeueAfter New (cr_RequeueAfter r))
         | [] \<Rightarrow> ret New)))"

definition FailWithStatusError :: "('sp, 'ev, 'z) kenv_scheme \<Rightarrow> error option \<Rightarrow> condition list
    \<Rightarrow> ('sp, 'ev, 'lv, step_result) ract" where
  "FailWithStatusError E err moreConditions = (case err of
     None \<Rightarrow> ret (Continue New True)
   | Some e \<Rightarrow> andThen (gets (\<lambda>s. (k_now E (rs_hist s), st_Conditions (r_status (rs_obj s))))) (\<lambda>(x, conds).
       case Patch (k_find E) x conds ((conds @ moreConditions) @
           [\<lparr>cType = ''FailedWithErr'', cStatus = ConditionFalse, cReason = ''StatusFailedWithErr'',
             cMessage = errmsg e, cLastTransitionTime = 0\<rparr>]) of
         (_, _, Some err2) \<Rightarrow> ret (Err New (Some err2))
       | (newConditions, _, None) \<Rightarrow>
           andThen (modStatus (\<lambda>st. st\<lparr>st_IsReady := False, st_Conditions := newConditions\<rparr>)) (\<lambda>_.
           andThen (stamp E) (\<lambda>_.
           andThen (client_StatusUpdate E) (\<lambda>err2. case err2 of
             Some e2 \<Rightarrow> ret (Err New (Some e2))
           | None \<Rightarrow> ret (Err New (Some e)))))))"

definition FailWithOpError :: "('sp, 'ev, 'z) kenv_scheme \<Rightarrow> error option \<Rightarrow> condition list
    \<Rightarrow> ('sp, 'ev, 'lv, step_result) ract" where
  "FailWithOpError E err moreConditions = (case err of
     None \<Rightarrow> ret (Continue New True)
   | Some e \<Rightarrow> andThen (gets (\<lambda>s. (k_now E (rs_hist s), st_OpsConditions (r_status (rs_obj s))))) (\<lambda>(x, conds).
       case Patch (k_find E) x conds ((conds @ moreConditions) @
           [\<lparr>cType = ''FailedWithErr'', cStatus = ConditionFalse, cReason = ''OpsFailedWithErr'',
             cMessage = errmsg e, cLastTransitionTime = 0\<rparr>]) of
         (_, _, Some err2) \<Rightarrow> ret (Err New (Some err2))
       | (newConditions, _, None) \<Rightarrow>
           andThen (modStatus (\<lambda>st. st\<lparr>st_IsReady := False, st_OpsConditions := newConditions\<rparr>)) (\<lambda>_.
           andThen (stamp E) (\<lambda>_.
           andThen (client_StatusUpdate E) (\<lambda>err2. case err2 of
             Some e2 \<Rightarrow> ret (Err New (Some e2))
           | None \<Rightarrow> ret (Err New (Some e)))))))"

text \<open>A nil result of the debugging helper is \<open>None\<close>.\<close>

definition DebuggingOnlySetStatus :: "('sp, 'ev, 'z) kenv_scheme \<Rightarrow> status
    \<Rightarrow> ('sp, 'ev, 'lv, step_result option) ract" where
  "DebuggingOnlySetStatus E stat = andThen (getMeta om_Annotations) (\<lambda>ann.
     if gm_str ann ''kloudlite.io/reset-status'' = ''true'' then
       andThen (modStatus (\<lambda>st. st\<lparr>st_OpsConditions := st_OpsConditions stat,
         st_Conditions := st_Conditions stat, st_ChildConditions := st_ChildConditions stat,
         st_DisplayVars := st_DisplayVars stat, st_GeneratedVars := st_GeneratedVars stat,
         st_IsReady := st_IsReady stat\<rparr>)) (\<lambda>_.
       andThen (client_StatusUpdate E) (\<lambda>err. case err of
         Some e \<Rightarrow> andThen (FailWithStatusError E (Some e) []) (\<lambda>r. ret (Some r))
       | None \<Rightarrow>
         andThen (modMeta (\<lambda>m. m\<lparr>om_Annotations := gm_del ''kloudlite.io/reset-status'' ann\<rparr>)) (\<lambda>_.
         andThen (client_Update E) (\<lambda>err. case err of
           Some e \<Rightarrow> andThen (FailWithStatusError E (Some e) []) (\<lambda>r. ret (Some r))
         | None \<Rightarrow> ret None))))
     else ret None)"

definition EnsureLabelsAndAnnotations :: "('sp, 'ev, 'z) kenv_scheme \<Rightarrow> 'sp methods
    \<Rightarrow> ('sp, 'ev, 'lv, step_result) ract" where
  "EnsureLabelsAndAnnotations E M = andThen (gets rs_obj) (\<lambda>obj.
     let labels = GetEnsuredLabels M obj;
         annotations = GetEnsuredAnnotations M obj;
         hasAllLabels = MapContains (om_Labels (r_meta obj)) (Some labels);
         hasAllAnnotations = MapContains (om_Annotations (r_meta obj)) (Some annotations)
     in if \<not> hasAllLabels \<or> \<not> hasAllAnnotations then
          andThen (modMeta (\<lambda>m. m\<lparr>om_Labels := put_all labels (Some (gm_entries (om_Labels m))),
            om_Annotations := put_all annotations (Some (gm_entries (om_Annotations m)))\<rparr>)) (\<lambda>_.
          andThen (client_Update E) (\<lambda>err. ret (Err New err)))
        else ret (Continue New True))"

text \<open>The checks named are created, unset, where they are missing.\<close>

fun add_checks :: "string list \<Rightarrow> check gomap \<Rightarrow> check gomap" where
  "add_checks [] checks = checks"
| "add_checks (n # names) checks =
     add_checks names (if gm_get checks n = None then gm_put n Check0 checks else checks)"

definition EnsureChecks :: "('sp, 'ev, 'z) kenv_scheme \<Rightarrow> string list
    \<Rightarrow> ('sp, 'ev, 'lv, step_result) ract" where
  "EnsureChecks E names = andThen (getStatus st_Checks) (\<lambda>checks.
     let nChecks = gm_len checks;
         checks' = add_checks names (Some (gm_entries checks))
     in if nChecks \<noteq> gm_len checks' then
          andThen (modStatus (\<lambda>st. st\<lparr>st_Checks := checks'\<rparr>)) (\<lambda>_.
          andThen (client_StatusUpdate E) (\<lambda>err. case err of
            Some e \<Rightarrow> FailWithOpError E (Some e) []
          | None \<Rightarrow> ret New))
        else ret (Continue New True))"

definition ClearStatusIfAnnotated :: "('sp, 'ev, 'z) kenv_scheme \<Rightarrow> ('sp, 'ev, 'lv, step_result) ract" where
  "ClearStatusIfAnnotated E = andThen (getMeta om_Annotations) (\<lambda>ann.
     if gm_str ann ClearStatusKey = ''true'' then
       andThen (modMeta (\<lambda>m. m\<lparr>om_Annotations := gm_del ClearStatusKey ann\<rparr>)) (\<lambda>_.
       andThen (client_Update E) (\<lambda>err. case err of
         Some e \<Rightarrow> FailWithOpError E (Some e) []
       | None \<Rightarrow>
         andThen (modStatus (\<lambda>st. st\<lparr>st_IsReady := False\<rparr>)) (\<lambda>_.
         andThen (stamp E) (\<lambda>_.
         andThen (modStatus (\<lambda>st. st\<lparr>st_Checks := None, st_Message := rj_empty, st_Messages := [],
           st_Conditions := [], st_OpsConditions := [], st_ChildConditions := [],
           st_DisplayVars := rj_empty\<rparr>)) (\<lambda>_.
         andThen (client_StatusUpdate E) (\<lambda>err. case err of
           Some e \<Rightarrow> FailWithOpError E (Some e) []
         | None \<Rightarrow> andThen (Done E []) (\<lambda>r. ret (RequeueAfter r (2 * Second)))))))))
     else Next)"

definition RestartIfAnnotated :: "('sp, 'ev, 'z) kenv_scheme \<Rightarrow> 'sp methods
    \<Rightarrow> ('sp, 'ev, 'lv, step_result) ract" where
  "RestartIfAnnotated E M = andThen (getMeta om_Annotations) (\<lambda>ann.
     if gm_str ann RestartKey = ''true'' then
       andThen (modMeta (\<lambda>m. m\<lparr>om_Annotations := gm_del RestartKey ann\<rparr>)) (\<lambda>_.
       andThen (client_Update E) (\<lambda>err. case err of
         Some e \<Rightarrow> FailWithOpError E (Some e) []
       | None \<Rightarrow> andThen (gets rs_obj) (\<lambda>obj.
         andThen (Restart E ''deployments'' (om_Namespace (r_meta obj)) (GetEnsuredLabels M obj)) (\<lambda>_.
         andThen (Restart E ''statefulsets'' (om_Namespace (r_meta obj)) (GetEnsuredLabels M obj)) (\<lambda>_.
         andThen (Done E []) (\<lambda>r. ret (RequeueAfter r (2 * Second))))))))
     else Next)"

definition EnsureFinalizers :: "('sp, 'ev, 'z) kenv_scheme \<Rightarrow> string list
    \<Rightarrow> ('sp, 'ev, 'lv, step_result) ract" where
  "EnsureFinalizers E finalizers = andThen (getMeta id) (\<lambda>m.
     if \<not> ContainsFinalizers m finalizers then
       andThen (modMeta (\<lambda>m. m\<lparr>om_Finalizers := foldl (k_add_finalizer E) (om_Finalizers m) finalizers\<rparr>)) (\<lambda>_.
       andThen (client_Update E) (\<lambda>err. case err of
         Some e \<Rightarrow> FailWithOpError E (Some e) []
       | None \<Rightarrow> ret New))
     else ret (Continue New True))"

text \<open>\<open>checks[name] = check\<close>: a write to the map of the status, which panics when it is nil.\<close>

definition putCheck :: "string \<Rightarrow> check \<Rightarrow> ('sp, 'ev, 'lv, unit) ract" where
  "putCheck name c = andThen (getStatus st_Checks) (\<lambda>checks. case checks of
     None \<Rightarrow> crash ''assignment to entry in nil map''
   | Some _ \<Rightarrow> modStatus (\<lambda>st. st\<lparr>st_Checks := gm_put name c checks\<rparr>))"

definition CheckFailed :: "('sp, 'ev, 'z) kenv_scheme \<Rightarrow> string \<Rightarrow> check \<Rightarrow> string
    \<Rightarrow> ('sp, 'ev, 'lv, step_result) ract" where
  "CheckFailed E name c msg =
     andThen (putCheck name (c\<lparr>ck_Status := False, ck_Message := msg\<rparr>)) (\<lambda>_.
     andThen (onMessage (rj_Set name (JStr msg))) (\<lambda>_.
     andThen (modStatus (\<lambda>st. st\<lparr>st_IsReady := False\<rparr>)) (\<lambda>_.
     andThen (stamp E) (\<lambda>_.
     andThen (client_StatusUpdate E) (\<lambda>err. case err of
       Some e \<Rightarrow> ret (Err New (Some e))
     | None \<Rightarrow> ret New)))))"

text \<open>
  The messages of the checks that pass are dropped, in the order the map is iterated; an
  emptied message object is reset.
\<close>

fun clear_passed :: "(string \<times> check) list \<Rightarrow> ('sp, 'ev, 'lv, error option) ract" where
  "clear_passed [] = ret None"
| "clear_passed ((name, c) # checks) =
     (if ck_Status c then
        andThen (onMessage (rj_Delete name)) (\<lambda>err. case err of
          Some e \<Rightarrow> ret (Some e)
        | None \<Rightarrow> andThen (onMessage rj_Len) (\<lambda>n.
            andThen (if n = 0 then modStatus (\<lambda>st. st\<lparr>st_Message := rj_empty\<rparr>) else ret ())
              (\<lambda>_. clear_passed checks)))
      else clear_passed checks)"

definition UpdateStatus :: "('sp, 'ev, 'z) kenv_scheme \<Rightarrow> ('sp, 'ev, 'lv, step_result) ract" where
  "UpdateStatus E = andThen (stamp E) (\<lambda>_.
     andThen (getStatus st_Checks) (\<lambda>checks.
     andThen (clear_passed (gm_entries checks)) (\<lambda>err. case err of
       Some e \<Rightarrow> ret (Err New (Some e))
     | None \<Rightarrow> andThen (client_StatusUpdate E) (\<lambda>err. case err of
         Some e \<Rightarrow> ret (Err New (Some e))
       | None \<Rightarrow> ret New))))"

definition Finalize :: "('sp, 'ev, 'z) kenv_scheme \<Rightarrow> ('sp, 'ev, 'lv, step_result) ract" where
  "Finalize E =
     andThen (modMeta (\<lambda>m. m\<lparr>om_Finalizers := k_remove_finalizer E (om_Finalizers m) CommonFinalizer\<rparr>)) (\<lambda>_.
     andThen (modMeta (\<lambda>m. m\<lparr>om_Finalizers := k_remove_finalizer E (om_Finalizers m) ForegroundFinalizer\<rparr>)) (\<lambda>_.
     andThen (client_Update E) (\<lambda>err. ret (Err New err))))"

text \<open>
  The end of a step that found its check satisfied: a changed check is stored and the status
  written, which ends the pass; an unchanged one lets the pipeline go on.  Every reconcile
  step of the controllers ends with these lines.
\<close>

definition settleCheck :: "('sp, 'ev, 'z) kenv_scheme \<Rightarrow> string \<Rightarrow> check
    \<Rightarrow> ('sp, 'ev, 'lv, step_result) ract" where
  "settleCheck E name c = andThen (getStatus st_Checks) (\<lambda>checks.
     let c' = c\<lparr>ck_Status := True\<rparr> in
     if c' \<noteq> (case gm_get checks name of None \<Rightarrow> Check0 | Some d \<Rightarrow> d) then
       andThen (putCheck name c') (\<lambda>_. UpdateStatus E)
     else Next)"

section \<open>The pipeline of a reconcile\<close>

type_synonym ('sp, 'ev, 'lv) reconcile = "('sp, 'ev, 'lv, ctrl_result \<times> error option) ract"

text \<open>\<open>if step := m; !step.ShouldProceed() { return step.ReconcilerResponse() }\<close>, then \<open>k\<close>.\<close>

definition andStep :: "('sp, 'ev, 'lv, step_result) ract \<Rightarrow> ('sp, 'ev, 'lv) reconcile
    \<Rightarrow> ('sp, 'ev, 'lv) reconcile" where
  "andStep m k = andThen m (\<lambda>r. if ShouldProceed r then k else ret (ReconcilerResponse r))"

definition ReconcilationPeriod :: int where "ReconcilationPeriod = 30"

text \<open>The last lines of every \<open>Reconcile\<close>: the object is ready.\<close>

definition complete :: "('sp, 'ev, 'z) kenv_scheme \<Rightarrow> ('sp, 'ev, 'lv) reconcile" where
  "complete E = andThen (modStatus (\<lambda>st. st\<lparr>st_IsReady := True\<rparr>)) (\<lambda>_.
     andThen (client_StatusUpdate E) (\<lambda>err.
     ret (\<lparr>cr_Requeue = False, cr_RequeueAfter = ReconcilationPeriod * Second\<rparr>, err)))"

text \<open>
  The frame every \<open>Reconcile\<close> shares: its checks, the deletion branch, the annotated
  operations, labels and finalizers come before the controller's own steps.
\<close>

definition reconcile_frame :: "('sp, 'ev, 'z) kenv_scheme \<Rightarrow> 'sp methods \<Rightarrow> string list
    \<Rightarrow> ('sp, 'ev, 'lv, step_result) ract \<Rightarrow> ('sp, 'ev, 'lv) reconcile \<Rightarrow> ('sp, 'ev, 'lv) reconcile" where
  "reconcile_frame E M names finalize body =
     andStep (EnsureChecks E names) (
     andThen (getMeta om_Deleting) (\<lambda>deleting.
     if deleting then andStep finalize (ret (ctrl_zero, None)) else
     andStep (ClearStatusIfAnnotated E) (
     andStep (RestartIfAnnotated E M) (
     andStep (EnsureLabelsAndAnnotations E M) (
     andStep (EnsureFinalizers E [ForegroundFinalizer, CommonFinalizer])
     body)))))"

definition IgnoreNotFound :: "error \<Rightarrow> error option" where
  "IgnoreNotFound e = (if IsNotFound e then None else Some e)"

definition run_reconcile :: "('sp, 'ev, 'z) kenv_scheme \<Rightarrow> string \<Rightarrow> ('sp, 'ev, 'lv) reconcile
    \<Rightarrow> ('sp, 'ev) hist \<Rightarrow> (ctrl_result \<times> error option) res \<times> ('sp, 'ev) hist" where
  "run_reconcile E name body h = (case NewRequest E '''' name h of
     (Inl e, h') \<Rightarrow> (Ret (ctrl_zero, IgnoreNotFound e), h')
   | (Inr s, _) \<Rightarrow> (case body s of (r, s') \<Rightarrow> (r, rs_hist s')))"

end
