(* ===== verification/RequestLaws.thy ===== *)
theory RequestLaws
  imports Request
begin

text \<open>
  Facts about the request layer: what each method leaves in the history, the relations
  \<open>emits\<close> (only calls of a given kind are made) and their frame rules, the effect of the
  status-writing methods on checks, messages and conditions, and the gates of the shared
  reconcile frame.
\<close>

section \<open>The calls an action makes\<close>

definition emits :: "(('sp, 'ev) event \<Rightarrow> bool) \<Rightarrow> ('sp, 'ev, 'lv) rstate \<Rightarrow> ('sp, 'ev, 'lv) rstate \<Rightarrow> bool" where
  "emits Q s t \<longleftrightarrow> (\<exists>es. rs_hist t = rs_hist s @ es \<and> (\<forall>e \<in> set es. Q e))"

lemma emits_refl: "emits Q s s"
  by (simp add: emits_def)

lemma emits_trans: "emits Q s t \<Longrightarrow> emits Q t u \<Longrightarrow> emits Q s u"
  by (auto simp: emits_def)

lemma emits_mono: "emits P s t \<Longrightarrow> (\<And>e. P e \<Longrightarrow> Q e) \<Longrightarrow> emits Q s t"
  unfolding emits_def by blast

interpretation ev: frame "emits Q" for Q
  by unfold_locales (auto intro: emits_refl emits_trans)

lemmas [keeps_intros] = ev.keeps_Pair ev.keeps_ret ev.keeps_crash ev.keeps_gets ev.keeps_andThen
  ev.keeps_forA

lemma keeps_emits_modObj [keeps_intros]: "keeps (emits Q) (modObj f)"
  by (simp add: keeps_def modObj_def emits_def)

lemma keeps_emits_modMeta [keeps_intros]: "keeps (emits Q) (modMeta f)"
  by (simp add: modMeta_def keeps_emits_modObj)

lemma keeps_emits_modStatus [keeps_intros]: "keeps (emits Q) (modStatus f)"
  by (simp add: modStatus_def keeps_emits_modObj)

lemma keeps_emits_getStatus [keeps_intros]: "keeps (emits Q) (getStatus f)"
  by (simp add: getStatus_def ev.keeps_gets)

lemma keeps_emits_getMeta [keeps_intros]: "keeps (emits Q) (getMeta f)"
  by (simp add: getMeta_def ev.keeps_gets)

lemma keeps_emits_ask [keeps_intros]: "Q ev \<Longrightarrow> keeps (emits Q) (ask ev f)"
  by (simp add: keeps_def ask_def emits_def)

lemma keeps_emits_json [keeps_intros]:
  "keeps (emits Q) (onMessage m)" "keeps (emits Q) (onDisplayVars m)" "keeps (emits Q) (onGeneratedVars m)"
  by (auto simp: keeps_def onMessage_def onDisplayVars_def onGeneratedVars_def emits_def split: prod.splits)

lemma keeps_emits_locals [keeps_intros]:
  "keeps (emits Q) (GetLocal prj k)" "keeps (emits Q) (HasLocal k)" "keeps (emits Q) (SetLocal k v)"
  by (auto simp: keeps_def GetLocal_def HasLocal_def SetLocal_def emits_def)

text \<open>The calls the request layer itself makes: writes of its own object and commands.\<close>

fun own_event :: "('sp, 'ev) event \<Rightarrow> bool" where
  "own_event (EUpdate _) = True"
| "own_event (EStatusUpdate _) = True"
| "own_event (EExec _) = True"
| "own_event (EGet _ _) = False"
| "own_event (ECall _) = False"

fun status_event :: "('sp, 'ev) event \<Rightarrow> bool" where
  "status_event (EStatusUpdate _) = True"
| "status_event _ = False"

lemma status_event_own: "status_event e \<Longrightarrow> own_event e"
  by (cases e) auto

text \<open>Sets of calls that allow writing the status, the object, or running commands.\<close>

definition status_ok :: "(('sp, 'ev) event \<Rightarrow> bool) \<Rightarrow> bool" where
  "status_ok Q \<longleftrightarrow> (\<forall>x. Q (EStatusUpdate x))"

definition update_ok :: "(('sp, 'ev) event \<Rightarrow> bool) \<Rightarrow> bool" where
  "update_ok Q \<longleftrightarrow> (\<forall>x. Q (EUpdate x))"

definition exec_ok :: "(('sp, 'ev) event \<Rightarrow> bool) \<Rightarrow> bool" where
  "exec_ok Q \<longleftrightarrow> (\<forall>x. Q (EExec x))"

lemma ok_simps [simp]: "status_ok status_event" "status_ok own_event" "update_ok own_event" "exec_ok own_event"
  by (simp_all add: status_ok_def update_ok_def exec_ok_def)

lemma keeps_emits_StatusUpdate [keeps_intros]:
  assumes "status_ok Q"
  shows "keeps (emits Q) (client_StatusUpdate E)"
proof -
  have Q: "Q (EStatusUpdate x)" for x using assms by (simp add: status_ok_def)
  show ?thesis unfolding client_StatusUpdate_def
    by (auto intro!: keeps_intros Q split: sum.split)
qed

lemma keeps_emits_Update [keeps_intros]:
  assumes "update_ok Q"
  shows "keeps (emits Q) (client_Update E)"
proof -
  have Q: "Q (EUpdate x)" for x using assms by (simp add: update_ok_def)
  show ?thesis unfolding client_Update_def
    by (auto intro!: keeps_intros Q split: sum.split)
qed

lemma keeps_emits_Restart [keeps_intros]:
  assumes "exec_ok Q"
  shows "keeps (emits Q) (Restart E kind ns ls)"
proof -
  have Q: "Q (EExec x)" for x using assms by (simp add: exec_ok_def)
  show ?thesis unfolding Restart_def
    by (auto intro!: keeps_intros Q split: exec_result.split)
qed

lemma keeps_emits_stamp [keeps_intros]: "keeps (emits Q) (stamp E)"
  by (auto simp: stamp_def intro!: keeps_intros)

lemma keeps_emits_Next [keeps_intros]: "keeps (emits Q) Next"
  by (auto simp: Next_def intro!: keeps_intros)

lemma keeps_emits_Done [keeps_intros]: "status_ok Q \<Longrightarrow> keeps (emits Q) (Done E rs)"
  unfolding Done_def Let_def
  by (auto intro!: keeps_intros split: option.split list.split prod.split)

lemma keeps_emits_FailWithStatusError [keeps_intros]: "status_ok Q \<Longrightarrow> keeps (emits Q) (FailWithStatusError E err cs)"
  unfolding FailWithStatusError_def Let_def
  by (auto intro!: keeps_intros split: option.split list.split prod.split)

lemma keeps_emits_FailWithOpError [keeps_intros]: "status_ok Q \<Longrightarrow> keeps (emits Q) (FailWithOpError E err cs)"
  unfolding FailWithOpError_def Let_def
  by (auto intro!: keeps_intros split: option.split list.split prod.split)

lemma keeps_emits_putCheck [keeps_intros]: "keeps (emits Q) (putCheck n c)"
  unfolding putCheck_def Let_def
  by (auto intro!: keeps_intros split: option.split list.split prod.split)

lemma keeps_emits_CheckFailed [keeps_intros]: "status_ok Q \<Longrightarrow> keeps (emits Q) (CheckFailed E n c msg)"
  unfolding CheckFailed_def Let_def
  by (auto intro!: keeps_intros split: option.split list.split prod.split)

lemma keeps_emits_clear_passed [keeps_intros]: "keeps (emits Q) (clear_passed cs)"
  by (induction cs rule: clear_passed.induct)
     (auto intro!: keeps_intros split: option.split)

lemma keeps_emits_UpdateStatus [keeps_intros]: "status_ok Q \<Longrightarrow> keeps (emits Q) (UpdateStatus E)"
  unfolding UpdateStatus_def Let_def
  by (auto intro!: keeps_intros split: option.split list.split prod.split)

lemma keeps_emits_settleCheck [keeps_intros]: "status_ok Q \<Longrightarrow> keeps (emits Q) (settleCheck E n c)"
  unfolding settleCheck_def Let_def
  by (auto intro!: keeps_intros split: option.split list.split prod.split)

lemma keeps_emits_EnsureChecks [keeps_intros]: "status_ok Q \<Longrightarrow> keeps (emits Q) (EnsureChecks E names)"
  unfolding EnsureChecks_def Let_def
  by (auto intro!: keeps_intros split: option.split list.split prod.split)

lemma keeps_emits_complete [keeps_intros]: "status_ok Q \<Longrightarrow> keeps (emits Q) (complete E)"
  unfolding complete_def Let_def
  by (auto intro!: keeps_intros split: option.split list.split prod.split)

lemma keeps_emits_ClearStatusIfAnnotated [keeps_intros]: "status_ok Q \<Longrightarrow> update_ok Q \<Longrightarrow> keeps (emits Q) (ClearStatusIfAnnotated E)"
  unfolding ClearStatusIfAnnotated_def Let_def
  by (auto intro!: keeps_intros split: option.split list.split prod.split)

lemma keeps_emits_RestartIfAnnotated [keeps_intros]: "status_ok Q \<Longrightarrow> update_ok Q \<Longrightarrow> exec_ok Q \<Longrightarrow> keeps (emits Q) (RestartIfAnnotated E M)"
  unfolding RestartIfAnnotated_def Let_def
  by (auto intro!: keeps_intros split: option.split list.split prod.split)

lemma keeps_emits_EnsureLabelsAndAnnotations [keeps_intros]: "update_ok Q \<Longrightarrow> keeps (emits Q) (EnsureLabelsAndAnnotations E M)"
  unfolding EnsureLabelsAndAnnotations_def Let_def
  by (auto intro!: keeps_intros split: option.split list.split prod.split)

lemma keeps_emits_EnsureFinalizers [keeps_intros]: "status_ok Q \<Longrightarrow> update_ok Q \<Longrightarrow> keeps (emits Q) (EnsureFinalizers E fs)"
  unfolding EnsureFinalizers_def Let_def
  by (auto intro!: keeps_intros split: option.split list.split prod.split)

lemma keeps_emits_Finalize [keeps_intros]: "update_ok Q \<Longrightarrow> keeps (emits Q) (Finalize E)"
  unfolding Finalize_def Let_def
  by (auto intro!: keeps_intros split: option.split list.split prod.split)

lemma keeps_emits_andStep [keeps_intros]:
  "keeps (emits Q) m \<Longrightarrow> keeps (emits Q) k \<Longrightarrow> keeps (emits Q) (andStep m k)"
  unfolding andStep_def by (auto intro!: keeps_intros)

lemma keeps_emits_reconcile_frame [keeps_intros]:
  assumes "status_ok Q" and "update_ok Q" and "exec_ok Q"
    and "keeps (emits Q) fin" and "keeps (emits Q) body"
  shows "keeps (emits Q) (reconcile_frame E M names fin body)"
  unfolding reconcile_frame_def using assms by (auto intro!: keeps_intros)

section \<open>Runs that only write the status\<close>

lemma status_runs:
  "Done E rs s = (r, t) \<Longrightarrow> emits status_event s t"
  "CheckFailed E n c m s = (r, t) \<Longrightarrow> emits status_event s t"
  "FailWithStatusError E err cs s = (r, t) \<Longrightarrow> emits status_event s t"
  "FailWithOpError E err cs s = (r, t) \<Longrightarrow> emits status_event s t"
  "UpdateStatus E s = (r, t) \<Longrightarrow> emits status_event s t"
  "settleCheck E n c s = (r, t) \<Longrightarrow> emits status_event s t"
  "complete E s = (r', t) \<Longrightarrow> emits status_event s t"
  by (erule keepsE [rotated], intro keeps_intros, simp)+

lemma emits_status: "emits status_event s t \<Longrightarrow> status_ok Q \<Longrightarrow> emits Q s t"
  unfolding emits_def status_ok_def by (metis status_event.elims(2))

lemma status_list:
  assumes "\<forall>e \<in> set ds. status_event e"
  shows "EUpdate x \<notin> set ds" "ECall c \<notin> set ds" "EExec a \<notin> set ds"
  using assms by (metis status_event.simps)+

lemma Finalize_hist: "Finalize E s = (r, t) \<Longrightarrow> \<exists>x. rs_hist t = rs_hist s @ [EUpdate x]"
  by (auto simp: Finalize_def modMeta_def modObj_def client_Update_def ask_def andThen_apply ret_def
      split: sum.splits)

section \<open>Writing the status\<close>

text \<open>
  One status update is sent; the answer of the server decides between the two outcomes.
  \<open>answered\<close> is the state after it: the call is in the history, and the object is the
  server's when the update succeeded.
\<close>

definition answered :: "('sp, 'ev, 'z) kenv_scheme \<Rightarrow> ('sp, 'ev, 'lv) rstate \<Rightarrow> ('sp, 'ev, 'lv) rstate" where
  "answered E s = (let h = rs_hist s @ [EStatusUpdate (rs_obj s)] in
     case k_status_update E h of
       Inl e \<Rightarrow> s\<lparr>rs_hist := h\<rparr>
     | Inr x \<Rightarrow> s\<lparr>rs_hist := h, rs_obj := x\<rparr>)"

definition answer :: "('sp, 'ev, 'z) kenv_scheme \<Rightarrow> ('sp, 'ev, 'lv) rstate \<Rightarrow> error option" where
  "answer E s = (case k_status_update E (rs_hist s @ [EStatusUpdate (rs_obj s)]) of
     Inl e \<Rightarrow> Some e | Inr _ \<Rightarrow> None)"

lemma client_StatusUpdate_run [simp]: "client_StatusUpdate E s = (Ret (answer E s), answered E s)"
  by (simp add: ract_defs act_simps answer_def answered_def Let_def split: sum.split)

lemma answered_hist [simp]: "rs_hist (answered E s) = rs_hist s @ [EStatusUpdate (rs_obj s)]"
  by (simp add: answered_def Let_def split: sum.split)

lemma answered_locals [simp]: "rs_locals (answered E s) = rs_locals s"
  by (simp add: answered_def Let_def split: sum.split)

text \<open>A change of the status of the object held.\<close>

definition updStatus :: "(status \<Rightarrow> status) \<Rightarrow> ('sp, 'ev, 'lv) rstate \<Rightarrow> ('sp, 'ev, 'lv) rstate" where
  "updStatus f s = s\<lparr>rs_obj := (rs_obj s)\<lparr>r_status := f (r_status (rs_obj s))\<rparr>\<rparr>"

lemma modStatus_run [simp]: "modStatus f s = (Ret (), updStatus f s)"
  by (simp add: modStatus_def modObj_def updStatus_def)

lemma getStatus_run [simp]: "getStatus f s = (Ret (f (r_status (rs_obj s))), s)"
  by (simp add: getStatus_def)

lemma updStatus_sel [simp]:
  "rs_hist (updStatus f s) = rs_hist s" "rs_locals (updStatus f s) = rs_locals s"
  "r_status (rs_obj (updStatus f s)) = f (r_status (rs_obj s))"
  "r_meta (rs_obj (updStatus f s)) = r_meta (rs_obj s)"
  "r_spec (rs_obj (updStatus f s)) = r_spec (rs_obj s)"
  by (simp_all add: updStatus_def)

lemma stamp_run [simp]:
  "stamp E s = (Ret (), updStatus (st_LastReconcileTime_update (\<lambda>_. k_now E (rs_hist s))) s)"
  by (simp add: stamp_def)

text \<open>What is sent differs from the object held only in the status.\<close>

definition same_but_status :: "'sp resource \<Rightarrow> 'sp resource \<Rightarrow> bool" where
  "same_but_status x y \<longleftrightarrow> r_meta y = r_meta x \<and> r_spec y = r_spec x"

lemma onMessage_Set_run:
  "rj_ok (st_Message (r_status (rs_obj s))) \<Longrightarrow>
   onMessage (rj_Set k v) s = (Ret None, updStatus (\<lambda>st. st\<lparr>st_Message := rj_put k v (st_Message st)\<rparr>) s)"
  by (simp add: onMessage_def updStatus_def)

lemma onMessage_Delete_run:
  "rj_ok (st_Message (r_status (rs_obj s))) \<Longrightarrow>
   onMessage (rj_Delete k) s = (Ret None, updStatus (\<lambda>st. st\<lparr>st_Message := rj_del k (st_Message st)\<rparr>) s)"
  by (simp add: onMessage_def updStatus_def)

lemma putCheck_run:
  "st_Checks (r_status (rs_obj s)) \<noteq> None \<Longrightarrow>
   putCheck n c s = (Ret (), updStatus (\<lambda>st. st\<lparr>st_Checks := gm_put n c (st_Checks st)\<rparr>) s)"
  by (auto simp: putCheck_def updStatus_def)

text \<open>The status that a failed check leaves.\<close>

definition failed_status :: "('sp, 'ev, 'z) kenv_scheme \<Rightarrow> ('sp, 'ev) hist \<Rightarrow> string \<Rightarrow> check \<Rightarrow> string
    \<Rightarrow> status \<Rightarrow> status" where
  "failed_status E h name c msg st = st\<lparr>st_IsReady := False,
     st_Checks := gm_put name (c\<lparr>ck_Status := False, ck_Message := msg\<rparr>) (st_Checks st),
     st_Message := rj_put name (JStr msg) (st_Message st), st_LastReconcileTime := k_now E h\<rparr>"

definition status_ready :: "('sp, 'ev, 'lv) rstate \<Rightarrow> bool" where
  "status_ready s \<longleftrightarrow> st_Checks (r_status (rs_obj s)) \<noteq> None \<and> rj_ok (st_Message (r_status (rs_obj s)))"

lemma CheckFailed_run:
  assumes "status_ready s"
  shows "CheckFailed E n c msg s =
    (let s' = updStatus (failed_status E (rs_hist s) n c msg) s in
     (Ret (case answer E s' of Some e \<Rightarrow> Err New (Some e) | None \<Rightarrow> New), answered E s'))"
proof -
  have eq: "updStatus (\<lambda>st. st\<lparr>st_LastReconcileTime := k_now E (rs_hist s)\<rparr>)
      (updStatus (\<lambda>st. st\<lparr>st_IsReady := False\<rparr>)
      (updStatus (\<lambda>st. st\<lparr>st_Message := rj_put n (JStr msg) (st_Message st)\<rparr>)
      (updStatus (\<lambda>st. st\<lparr>st_Checks := gm_put n (c\<lparr>ck_Status := False, ck_Message := msg\<rparr>) (st_Checks st)\<rparr>) s)))
    = updStatus (failed_status E (rs_hist s) n c msg) s"
    by (simp add: updStatus_def failed_status_def)
  show ?thesis
    using assms eq unfolding status_ready_def
    by (simp add: CheckFailed_def andThen_apply putCheck_run onMessage_Set_run Let_def
        ret_def split: option.split)
qed

section \<open>Dropping the messages of passing checks\<close>

definition passing :: "(string \<times> check) list \<Rightarrow> string set" where
  "passing cs = {n. \<exists>c. (n, c) \<in> set cs \<and> ck_Status c}"

lemma passing_simps [simp]:
  "passing [] = {}"
  "passing ((n, c) # cs) = (if ck_Status c then insert n (passing cs) else passing cs)"
  by (auto simp: passing_def)

text \<open>The message object with the messages in \<open>ns\<close> removed, whatever its serialised form.\<close>

definition cleared :: "string set \<Rightarrow> rawjson \<Rightarrow> rawjson \<Rightarrow> bool" where
  "cleared ns j j' \<longleftrightarrow> rj_ok j' \<and> (\<forall>k. rj_lookup j' k = (if k \<in> ns then None else rj_lookup j k))"

lemma onMessage_Len_run:
  assumes "rj_ok (st_Message (r_status (rs_obj s)))"
  shows "onMessage rj_Len s = (Ret (card (dom (rj_lookup (st_Message (r_status (rs_obj s)))))),
    updStatus (\<lambda>st. st\<lparr>st_Message := (st_Message st)\<lparr>rj_items := rj_view (st_Message st)\<rparr>\<rparr>) s)"
  using rj_Len_result [OF assms] by (simp add: onMessage_def updStatus_def)

lemma rj_lookup_refresh [simp]: "rj_ok j \<Longrightarrow> rj_lookup (j\<lparr>rj_items := rj_view j\<rparr>) = rj_lookup j"
  by (simp add: rj_lookup_def)

lemma rj_lookup_finite: "rj_ok j \<Longrightarrow> finite (dom (rj_lookup j))"
  using rj_view_ok [of j] by (auto simp: rj_lookup_def gm_get_def finite_dom_map_of)

lemma clear_passed_run:
  assumes "rj_ok (st_Message (r_status (rs_obj s)))"
  shows "\<exists>j. clear_passed cs s = (Ret None, updStatus (\<lambda>st. st\<lparr>st_Message := j\<rparr>) s)
    \<and> cleared (passing cs) (st_Message (r_status (rs_obj s))) j"
  using assms
proof (induction cs arbitrary: s)
  case Nil
  then show ?case
    by (intro exI [of _ "st_Message (r_status (rs_obj s))"]) (simp add: ret_def updStatus_def cleared_def)
next
  case (Cons nc cs)
  obtain n c where nc: "nc = (n, c)" by fastforce
  let ?j = "st_Message (r_status (rs_obj s))"
  show ?case
  proof (cases "ck_Status c")
    case False
    with Cons nc show ?thesis by simp
  next
    case True
    let ?d = "rj_del n ?j"
    have d: "rj_ok ?d" "\<And>k. rj_lookup ?d k = (if k = n then None else rj_lookup ?j k)"
      using rj_del_ok [OF Cons.prems] by auto
    define j1 where "j1 = (if card (dom (rj_lookup ?d)) = 0 then rj_empty else ?d\<lparr>rj_items := rj_view ?d\<rparr>)"
    let ?s1 = "updStatus (\<lambda>st. st\<lparr>st_Message := j1\<rparr>) s"
    have j1: "rj_ok j1" "\<And>k. rj_lookup j1 k = (if k = n then None else rj_lookup ?j k)"
    proof -
      show "rj_ok j1" using d(1) by (simp add: j1_def)
      show "rj_lookup j1 k = (if k = n then None else rj_lookup ?j k)" for k
      proof (cases "card (dom (rj_lookup ?d)) = 0")
        case True
        then have "rj_lookup ?d k = None" using rj_lookup_finite [OF d(1)] by auto
        moreover have "j1 = rj_empty" using True by (simp add: j1_def)
        ultimately show ?thesis using d(2) [of k] by (metis rj_empty_lookup)
      next
        case False
        then have "j1 = ?d\<lparr>rj_items := rj_view ?d\<rparr>" by (simp only: j1_def if_False)
        then show ?thesis using d by simp
      qed
    qed
    have step: "clear_passed (nc # cs) s = clear_passed cs ?s1"
      using Cons.prems True nc d(1)
      by (simp add: andThen_apply onMessage_Delete_run onMessage_Len_run ret_def j1_def updStatus_def)
    obtain j where "clear_passed cs ?s1 = (Ret None, updStatus (\<lambda>st. st\<lparr>st_Message := j\<rparr>) ?s1)"
      and "cleared (passing cs) j1 j"
      using Cons.IH [of ?s1] j1(1) by auto
    moreover have "updStatus (\<lambda>st. st\<lparr>st_Message := j\<rparr>) ?s1 = updStatus (\<lambda>st. st\<lparr>st_Message := j\<rparr>) s"
      by (simp add: updStatus_def)
    ultimately show ?thesis
      using step True nc j1(2) by (intro exI [of _ j]) (auto simp: cleared_def)
  qed
qed

lemma UpdateStatus_run:
  assumes "rj_ok (st_Message (r_status (rs_obj s)))"
  obtains j where "UpdateStatus E s =
      (let s' = updStatus (\<lambda>st. st\<lparr>st_LastReconcileTime := k_now E (rs_hist s), st_Message := j\<rparr>) s in
       (Ret (case answer E s' of Some e \<Rightarrow> Err New (Some e) | None \<Rightarrow> New), answered E s'))"
    and "cleared (passing (gm_entries (st_Checks (r_status (rs_obj s))))) (st_Message (r_status (rs_obj s))) j"
proof -
  let ?s1 = "updStatus (st_LastReconcileTime_update (\<lambda>_. k_now E (rs_hist s))) s"
  let ?cs = "gm_entries (st_Checks (r_status (rs_obj s)))"
  obtain j where j: "clear_passed ?cs ?s1 = (Ret None, updStatus (\<lambda>st. st\<lparr>st_Message := j\<rparr>) ?s1)"
    and c: "cleared (passing ?cs) (st_Message (r_status (rs_obj s))) j"
    using clear_passed_run [of ?s1 ?cs] assms by auto
  have eq: "updStatus (\<lambda>st. st\<lparr>st_Message := j\<rparr>) ?s1
      = updStatus (\<lambda>st. st\<lparr>st_LastReconcileTime := k_now E (rs_hist s), st_Message := j\<rparr>) s"
    by (simp add: updStatus_def)
  have "UpdateStatus E s =
      (let s' = updStatus (\<lambda>st. st\<lparr>st_LastReconcileTime := k_now E (rs_hist s), st_Message := j\<rparr>) s in
       (Ret (case answer E s' of Some e \<Rightarrow> Err New (Some e) | None \<Rightarrow> New), answered E s'))"
    using j eq by (simp add: UpdateStatus_def andThen_apply Let_def ret_def split: option.split)
  from this c show ?thesis by (rule that)
qed

section \<open>A check found satisfied\<close>

lemma settleCheck_cases:
  assumes "status_ready s"
  obtains (same) "settleCheck E n c s = (Ret (Continue New True), s)"
      and "c\<lparr>ck_Status := True\<rparr> = (case gm_get (st_Checks (r_status (rs_obj s))) n of None \<Rightarrow> Check0 | Some d \<Rightarrow> d)"
    | (store) r x where "settleCheck E n c s = (Ret r, answered E x)" and "\<not> ShouldProceed r"
      and "rs_hist x = rs_hist s"
      and "st_Checks (r_status (rs_obj x)) = gm_put n (c\<lparr>ck_Status := True\<rparr>) (st_Checks (r_status (rs_obj s)))"
      and "cleared (passing (gm_entries (st_Checks (r_status (rs_obj x))))) (st_Message (r_status (rs_obj s)))
        (st_Message (r_status (rs_obj x)))"
proof -
  let ?c = "c\<lparr>ck_Status := True\<rparr>"
  let ?u = "updStatus (\<lambda>st. st\<lparr>st_Checks := gm_put n ?c (st_Checks st)\<rparr>) s"
  show ?thesis
  proof (cases "?c = (case gm_get (st_Checks (r_status (rs_obj s))) n of None \<Rightarrow> Check0 | Some d \<Rightarrow> d)")
    case True
    then have "settleCheck E n c s = (Ret (Continue New True), s)"
      by (simp add: settleCheck_def andThen_apply Let_def Next_def ret_def)
    then show ?thesis using True by (rule same)
  next
    case False
    have put: "putCheck n ?c s = (Ret (), ?u)"
      using assms(1) by (intro putCheck_run) (simp add: status_ready_def)
    have eq: "settleCheck E n c s = UpdateStatus E ?u"
      using False put by (simp add: settleCheck_def andThen_apply Let_def)
    have rj: "rj_ok (st_Message (r_status (rs_obj ?u)))" using assms(1) by (simp add: status_ready_def)
    obtain j where run: "settleCheck E n c s =
      (let s' = updStatus (\<lambda>st. st\<lparr>st_LastReconcileTime := k_now E (rs_hist ?u), st_Message := j\<rparr>) ?u in
       (Ret (case answer E s' of Some e \<Rightarrow> Err New (Some e) | None \<Rightarrow> New), answered E s'))"
      and j: "cleared (passing (gm_entries (st_Checks (r_status (rs_obj ?u))))) (st_Message (r_status (rs_obj ?u))) j"
      using UpdateStatus_run [OF rj, of E] unfolding eq by blast
    let ?x = "updStatus (\<lambda>st. st\<lparr>st_LastReconcileTime := k_now E (rs_hist ?u), st_Message := j\<rparr>) ?u"
    show ?thesis
    proof (rule store)
      show "settleCheck E n c s = (Ret (case answer E ?x of Some e \<Rightarrow> Err New (Some e) | None \<Rightarrow> New), answered E ?x)"
        unfolding run Let_def ..
    qed (use j in \<open>auto simp: New_def Err_def ShouldProceed_def split: option.split\<close>)
  qed
qed

lemma settleCheck_run:
  assumes "status_ready s" and "gm_get (st_Checks (r_status (rs_obj s))) n \<noteq> Some (c\<lparr>ck_Status := True\<rparr>)"
    and "c\<lparr>ck_Status := True\<rparr> \<noteq> Check0"
  obtains r x where "settleCheck E n c s = (Ret r, answered E x)" and "\<not> ShouldProceed r"
    and "rs_hist x = rs_hist s" and "gm_get (st_Checks (r_status (rs_obj x))) n = Some (c\<lparr>ck_Status := True\<rparr>)"
proof (rule settleCheck_cases [OF assms(1), of E n c])
  assume "c\<lparr>ck_Status := True\<rparr> = (case gm_get (st_Checks (r_status (rs_obj s))) n of None \<Rightarrow> Check0 | Some d \<Rightarrow> d)"
  then show ?thesis using assms(2,3) by (auto split: option.splits)
qed (use that in auto)

text \<open>A check other than the one settled keeps its value, and its message unless it passes.\<close>

lemma passing_get: "gm_ok m \<Longrightarrow> n \<in> passing (gm_entries m) \<longleftrightarrow> (\<exists>c. gm_get m n = Some c \<and> ck_Status c)"
  by (cases m) (auto simp: passing_def gm_ok_def gm_get_def gm_entries_def intro: map_of_SomeD)

lemma settleCheck_others:
  assumes "status_ready s" and "gm_ok (st_Checks (r_status (rs_obj s)))" and "m \<noteq> n"
    and "\<And>d. gm_get (st_Checks (r_status (rs_obj s))) m = Some d \<Longrightarrow> \<not> ck_Status d"
  obtains (same) "settleCheck E n c s = (Ret (Continue New True), s)"
    | (store) r x where "settleCheck E n c s = (Ret r, answered E x)" and "\<not> ShouldProceed r" and "rs_hist x = rs_hist s"
      and "gm_get (st_Checks (r_status (rs_obj x))) m = gm_get (st_Checks (r_status (rs_obj s))) m"
      and "rj_lookup (st_Message (r_status (rs_obj x))) m = rj_lookup (st_Message (r_status (rs_obj s))) m"
proof (rule settleCheck_cases [OF assms(1), of E n c])
  fix r x
  assume a: "settleCheck E n c s = (Ret r, answered E x)" "\<not> ShouldProceed r" "rs_hist x = rs_hist s"
    and checks: "st_Checks (r_status (rs_obj x)) = gm_put n (c\<lparr>ck_Status := True\<rparr>) (st_Checks (r_status (rs_obj s)))"
    and msgs: "cleared (passing (gm_entries (st_Checks (r_status (rs_obj x))))) (st_Message (r_status (rs_obj s)))
        (st_Message (r_status (rs_obj x)))"
  have get: "gm_get (st_Checks (r_status (rs_obj x))) m = gm_get (st_Checks (r_status (rs_obj s))) m"
    using assms(3) checks by simp
  have "gm_ok (st_Checks (r_status (rs_obj x)))" using assms(2) checks by (simp add: gm_ok_put)
  then have "m \<notin> passing (gm_entries (st_Checks (r_status (rs_obj x))))"
    using assms(4) get by (auto simp: passing_get)
  then have "rj_lookup (st_Message (r_status (rs_obj x))) m = rj_lookup (st_Message (r_status (rs_obj s))) m"
    using msgs by (simp add: cleared_def)
  from store [OF a get this] show ?thesis .
qed (rule same)

end
