(* ===== verification/RequestProps.thy ===== *)
theory RequestProps
  imports RequestLaws
begin

text \<open>
  What the request layer guarantees to the controllers: the gate in front of a controller's
  own steps, the end of the preparation passes, and the effect of the methods that record
  failures, drop messages and handle finalizers.
\<close>

section \<open>Steps that end the pass\<close>

definition halts :: "('s, step_result) act \<Rightarrow> 's \<Rightarrow> bool" where
  "halts m s \<longleftrightarrow> (\<exists>r s'. m s = (Ret r, s') \<and> \<not> ShouldProceed r)"

definition passes :: "('s, step_result) act \<Rightarrow> 's \<Rightarrow> bool" where
  "passes m s \<longleftrightarrow> m s = (Ret (Continue New True), s)"

lemma andStep_passes: "passes m s \<Longrightarrow> andStep m k s = k s"
  by (simp add: passes_def andStep_def)

lemma andStep_halts: "halts m s \<Longrightarrow> andStep m k s = andStep m k' s"
  by (auto simp: halts_def andStep_def andThen_apply)

lemma halts_andThen: "m s = (Ret a, t) \<Longrightarrow> halts (k a) t \<Longrightarrow> halts (andThen m k) s"
  by (simp add: halts_def)

lemma halts_ret: "\<not> ShouldProceed r \<Longrightarrow> halts (ret r) s"
  by (simp add: halts_def ret_def)

lemma client_Update_total: "\<exists>e t. client_Update E s = (Ret e, t)"
  by (simp add: ract_defs act_simps split: sum.split)

lemma Done_halts: "halts (Done E rs) s"
  by (auto simp: halts_def Done_def andThen_apply ret_def split: option.split list.split)

lemma Patch_no_error: "\<exists>cs u. Patch fnd x dest source = (cs, u, None)"
  by (simp add: Patch_def split: prod.split)

lemma FailWithOpError_halts: "halts (FailWithOpError E (Some e) cs) s"
proof -
  have "\<exists>ns u. Patch (k_find E) x ds ss = (ns, u, None)" for x ds ss by (rule Patch_no_error)
  then show ?thesis
    by (auto simp: halts_def FailWithOpError_def andThen_apply ret_def split: option.splits prod.splits)
qed

lemma Restart_total: "\<exists>x t. Restart E kind ns ls s = (Ret x, t)"
  by (simp add: Restart_def ract_defs act_simps split: exec_result.split)

section \<open>The steps of the frame\<close>

definition checks_present :: "string list \<Rightarrow> check gomap \<Rightarrow> bool" where
  "checks_present names c \<longleftrightarrow> (\<forall>n \<in> set names. gm_get c n \<noteq> None)"

lemma gm_len_put: "gm_len (gm_put k v m) = (if gm_get m k = None then gm_len m + 1 else gm_len m)"
proof -
  have "length (AList.update k v kvs) = (if map_of kvs k = None then length kvs + 1 else length kvs)" for kvs
    by (induction kvs) auto
  then show ?thesis by (simp add: gm_len_def gm_put_def gm_get_def gm_entries_def split: option.split)
qed

lemma gm_get_as_Some [simp]: "gm_get (Some (gm_entries c)) = gm_get c"
  by (simp add: fun_eq_iff gm_get_def)

lemma gm_len_as_Some [simp]: "gm_len (Some (gm_entries c)) = gm_len c"
  by (simp add: gm_len_def)

lemma add_checks_present: "checks_present names c \<Longrightarrow> add_checks names c = c"
  by (induction names) (auto simp: checks_present_def)

lemma add_checks_len: "gm_len c \<le> gm_len (add_checks names c)"
proof (induction names arbitrary: c)
  case (Cons n names)
  have "gm_len c \<le> gm_len (if gm_get c n = None then gm_put n Check0 c else c)" by (simp add: gm_len_put)
  with Cons [of "if gm_get c n = None then gm_put n Check0 c else c"] show ?case
    by (metis add_checks.simps(2) le_trans)
qed simp

lemma add_checks_len_iff: "gm_len (add_checks names c) = gm_len c \<longleftrightarrow> checks_present names c"
proof (induction names arbitrary: c)
  case (Cons n names)
  show ?case
  proof (cases "gm_get c n")
    case None
    have "gm_len c < gm_len (add_checks names (gm_put n Check0 c))"
      using add_checks_len [of "gm_put n Check0 c" names] None by (simp add: gm_len_put)
    with None show ?thesis by (auto simp: checks_present_def)
  next
    case (Some d)
    with Cons show ?thesis by (simp add: checks_present_def)
  qed
qed (simp add: checks_present_def)

lemma add_checks_get: "gm_get (add_checks names c) n
    = (if gm_get c n = None \<and> n \<in> set names then Some Check0 else gm_get c n)"
  by (induction names arbitrary: c) auto

lemma EnsureChecks_passes:
  assumes "checks_present names (st_Checks (r_status (rs_obj s)))"
  shows "passes (EnsureChecks E names) s"
proof -
  have "checks_present names (Some (gm_entries (st_Checks (r_status (rs_obj s)))))"
    using assms by (simp add: checks_present_def del: gm_get_Some)
  then show ?thesis
    by (simp add: passes_def EnsureChecks_def andThen_apply add_checks_present ret_def)
qed

lemma EnsureChecks_halts:
  assumes "\<not> checks_present names (st_Checks (r_status (rs_obj s)))"
  shows "halts (EnsureChecks E names) s"
proof -
  let ?c = "st_Checks (r_status (rs_obj s))"
  have "\<not> checks_present names (Some (gm_entries ?c))"
    using assms by (simp add: checks_present_def del: gm_get_Some)
  then have ne: "gm_len ?c \<noteq> gm_len (add_checks names (Some (gm_entries ?c)))"
    using add_checks_len_iff [of names "Some (gm_entries ?c)"] by simp
  let ?s = "updStatus (st_Checks_update (\<lambda>_. add_checks names (Some (gm_entries ?c)))) s"
  show ?thesis
    using ne FailWithOpError_halts [of E _ "[]" "answered E ?s"]
    by (cases "answer E ?s") (auto simp: EnsureChecks_def halts_def andThen_apply Let_def ret_def)
qed

definition flagged :: "string \<Rightarrow> ('sp, 'ev, 'lv) rstate \<Rightarrow> bool" where
  "flagged key s \<longleftrightarrow> gm_str (om_Annotations (r_meta (rs_obj s))) key = ''true''"

lemma ClearStatus_passes: "\<not> flagged ClearStatusKey s \<Longrightarrow> passes (ClearStatusIfAnnotated E) s"
  by (simp add: passes_def flagged_def ClearStatusIfAnnotated_def getMeta_def Next_def ret_def)

lemma halts_RequeueAfter: "halts m s \<Longrightarrow> halts (andThen m (\<lambda>r. ret (RequeueAfter r d))) s"
  by (auto simp: halts_def ret_def)

lemma ClearStatus_halts:
  assumes "flagged ClearStatusKey s"
  shows "halts (ClearStatusIfAnnotated E) s"
proof -
  let ?d = "gm_del ClearStatusKey (om_Annotations (r_meta (rs_obj s)))"
  obtain t where t: "modMeta (\<lambda>m. m\<lparr>om_Annotations := ?d\<rparr>) s = (Ret (), t)"
    by (simp add: modMeta_def modObj_def)
  obtain e u where u: "client_Update E t = (Ret e, u)" using client_Update_total by blast
  show ?thesis
  proof (cases e)
    case None
    let ?v = "updStatus (\<lambda>st. st\<lparr>st_Checks := None, st_Message := rj_empty, st_Messages := [],
           st_Conditions := [], st_OpsConditions := [], st_ChildConditions := [],
           st_DisplayVars := rj_empty\<rparr>) (updStatus (st_LastReconcileTime_update (\<lambda>_. k_now E (rs_hist u)))
           (updStatus (st_IsReady_update (\<lambda>_. False)) u))"
    have "halts (case answer E ?v of Some e \<Rightarrow> FailWithOpError E (Some e) []
        | None \<Rightarrow> andThen (Done E []) (\<lambda>r. ret (RequeueAfter r (2 * Second)))) (answered E ?v)"
      by (simp add: FailWithOpError_halts Done_halts halts_RequeueAfter split: option.split)
    then show ?thesis
      using assms t u None
      by (simp add: halts_def ClearStatusIfAnnotated_def flagged_def getMeta_def andThen_apply)
  next
    case (Some err)
    then show ?thesis
      using assms t u FailWithOpError_halts [of E err "[]" u]
      by (simp add: halts_def ClearStatusIfAnnotated_def flagged_def getMeta_def andThen_apply)
  qed
qed

lemma Restart_passes: "\<not> flagged RestartKey s \<Longrightarrow> passes (RestartIfAnnotated E M) s"
  by (simp add: passes_def flagged_def RestartIfAnnotated_def getMeta_def Next_def ret_def)

lemma Restart_halts:
  assumes "flagged RestartKey s"
  shows "halts (RestartIfAnnotated E M) s"
proof -
  let ?d = "gm_del RestartKey (om_Annotations (r_meta (rs_obj s)))"
  obtain t where t: "modMeta (\<lambda>m. m\<lparr>om_Annotations := ?d\<rparr>) s = (Ret (), t)"
    by (simp add: modMeta_def modObj_def)
  obtain e u where u: "client_Update E t = (Ret e, u)" using client_Update_total by blast
  show ?thesis
  proof (cases e)
    case None
    let ?ns = "om_Namespace (r_meta (rs_obj u))" and ?ls = "GetEnsuredLabels M (rs_obj u)"
    obtain x v where v: "Restart E ''deployments'' ?ns ?ls u = (Ret x, v)" using Restart_total by blast
    obtain y w where w: "Restart E ''statefulsets'' ?ns ?ls v = (Ret y, w)" using Restart_total by blast
    show ?thesis
      using assms t u v w None halts_RequeueAfter [OF Done_halts [of E "[]" w]]
      by (simp add: halts_def RestartIfAnnotated_def flagged_def getMeta_def andThen_apply)
  next
    case (Some err)
    then show ?thesis
      using assms t u FailWithOpError_halts [of E err "[]" u]
      by (simp add: halts_def RestartIfAnnotated_def flagged_def getMeta_def andThen_apply)
  qed
qed

definition labelled :: "'sp methods \<Rightarrow> ('sp, 'ev, 'lv) rstate \<Rightarrow> bool" where
  "labelled M s \<longleftrightarrow> (let obj = rs_obj s in
     MapContains (om_Labels (r_meta obj)) (Some (GetEnsuredLabels M obj))
     \<and> MapContains (om_Annotations (r_meta obj)) (Some (GetEnsuredAnnotations M obj)))"

lemma EnsureLabels_passes: "labelled M s \<Longrightarrow> passes (EnsureLabelsAndAnnotations E M) s"
  by (simp add: passes_def labelled_def EnsureLabelsAndAnnotations_def Let_def ret_def)

lemma EnsureLabels_halts:
  assumes "\<not> labelled M s"
  shows "halts (EnsureLabelsAndAnnotations E M) s"
proof -
  have "\<exists>e u. client_Update E t = (Ret e, u)" for t :: "('a, 'b, 'c) rstate" by (rule client_Update_total)
  with assms show ?thesis
    by (auto simp: halts_def labelled_def EnsureLabelsAndAnnotations_def Let_def modMeta_def modObj_def
        andThen_apply ret_def split: prod.split res.split) (metis Pair_inject res.distinct(1))+
qed

definition guarded :: "string list \<Rightarrow> ('sp, 'ev, 'lv) rstate \<Rightarrow> bool" where
  "guarded fs s \<longleftrightarrow> set fs \<subseteq> set (om_Finalizers (r_meta (rs_obj s)))"

lemma EnsureFinalizers_passes: "guarded fs s \<Longrightarrow> passes (EnsureFinalizers E fs) s"
  by (simp add: passes_def guarded_def ContainsFinalizers_iff EnsureFinalizers_def getMeta_def ret_def)

lemma EnsureFinalizers_halts:
  assumes "\<not> guarded fs s"
  shows "halts (EnsureFinalizers E fs) s"
proof -
  obtain t where t: "modMeta (\<lambda>m. m\<lparr>om_Finalizers := foldl (k_add_finalizer E) (om_Finalizers m) fs\<rparr>) s = (Ret (), t)"
    by (simp add: modMeta_def modObj_def)
  obtain e u where u: "client_Update E t = (Ret e, u)" using client_Update_total by blast
  show ?thesis
    using assms t u FailWithOpError_halts [of E _ "[]" u]
    by (cases e) (auto simp: halts_def guarded_def ContainsFinalizers_iff EnsureFinalizers_def getMeta_def
        andThen_apply ret_def)
qed

section \<open>The gate\<close>

definition frame_finalizers :: "string list" where
  "frame_finalizers = [ForegroundFinalizer, CommonFinalizer]"

definition deleting :: "('sp, 'ev, 'lv) rstate \<Rightarrow> bool" where
  "deleting s \<longleftrightarrow> om_Deleting (r_meta (rs_obj s))"

text \<open>The object needs no preparation.\<close>

definition prepared :: "'sp methods \<Rightarrow> string list \<Rightarrow> ('sp, 'ev, 'lv) rstate \<Rightarrow> bool" where
  "prepared M names s \<longleftrightarrow> checks_present names (st_Checks (r_status (rs_obj s)))
     \<and> \<not> flagged ClearStatusKey s \<and> \<not> flagged RestartKey s \<and> labelled M s \<and> guarded frame_finalizers s"

lemma frame_prepared:
  assumes "prepared M names s" and "\<not> deleting s"
  shows "reconcile_frame E M names fin body s = body s"
  using assms
  by (simp add: reconcile_frame_def prepared_def deleting_def frame_finalizers_def [symmetric] getMeta_def
      andStep_passes EnsureChecks_passes ClearStatus_passes Restart_passes EnsureLabels_passes
      EnsureFinalizers_passes)

lemma frame_unprepared:
  assumes "\<not> prepared M names s" and "\<not> deleting s"
  shows "reconcile_frame E M names fin body s = reconcile_frame E M names fin' body' s"
proof (cases "checks_present names (st_Checks (r_status (rs_obj s)))")
  case False
  then show ?thesis
    unfolding reconcile_frame_def by (intro andStep_halts EnsureChecks_halts)
next
  case True
  note step = andStep_passes [OF EnsureChecks_passes [OF True]]
  have rest: "andStep (ClearStatusIfAnnotated E) (andStep (RestartIfAnnotated E M)
      (andStep (EnsureLabelsAndAnnotations E M) (andStep (EnsureFinalizers E frame_finalizers) b))) s
    = andStep (ClearStatusIfAnnotated E) (andStep (RestartIfAnnotated E M)
      (andStep (EnsureLabelsAndAnnotations E M) (andStep (EnsureFinalizers E frame_finalizers) b'))) s" for b b'
  proof (cases "flagged ClearStatusKey s")
    case True
    then show ?thesis by (intro andStep_halts ClearStatus_halts)
  next
    case c: False
    show ?thesis
    proof (cases "flagged RestartKey s")
      case True
      then show ?thesis unfolding andStep_passes [OF ClearStatus_passes [OF c]]
        by (intro andStep_halts Restart_halts)
    next
      case r: False
      show ?thesis
      proof (cases "labelled M s")
        case l: True
        have "\<not> guarded frame_finalizers s" using assms True c r l by (simp add: prepared_def)
        then show ?thesis unfolding andStep_passes [OF ClearStatus_passes [OF c]]
          andStep_passes [OF Restart_passes [OF r]] andStep_passes [OF EnsureLabels_passes [OF l]]
          by (intro andStep_halts EnsureFinalizers_halts)
      next
        case False
        then show ?thesis unfolding andStep_passes [OF ClearStatus_passes [OF c]]
          andStep_passes [OF Restart_passes [OF r]] by (intro andStep_halts EnsureLabels_halts)
      qed
    qed
  qed
  show ?thesis
    using assms(2) rest [of body body'] unfolding reconcile_frame_def step frame_finalizers_def [symmetric]
    by (simp add: deleting_def getMeta_def)
qed

lemma frame_deleting:
  assumes "deleting s"
  shows "reconcile_frame E M names fin body s =
    (if checks_present names (st_Checks (r_status (rs_obj s))) then andStep fin (ret (ctrl_zero, None)) s
     else andStep (EnsureChecks E names) (ret (ctrl_zero, None)) s)"
proof (cases "checks_present names (st_Checks (r_status (rs_obj s)))")
  case True
  then show ?thesis
    using assms by (simp add: reconcile_frame_def andStep_passes [OF EnsureChecks_passes] deleting_def getMeta_def)
next
  case False
  then show ?thesis
    unfolding reconcile_frame_def by (simp add: andStep_halts [OF EnsureChecks_halts [OF False]] cong: if_cong)
qed

text \<open>
  A pass either runs the controller's steps, on a prepared object, or makes only calls allowed
  to the frame and the finalizer.
\<close>

lemma frame_run_cases:
  assumes run: "reconcile_frame E M names fin body s = (r, t)"
    and ok: "status_ok Q" "update_ok Q" "exec_ok Q" and fin: "keeps (emits Q) fin"
  obtains (idle) "emits Q s t" | (steps) "prepared M names s" "\<not> deleting s" "body s = (r, t)"
proof (cases "deleting s")
  case True
  have "reconcile_frame E M names fin (ret (ctrl_zero, None)) s = (r, t)"
    using run unfolding frame_deleting [OF True] .
  moreover have "keeps (emits Q) (reconcile_frame E M names fin (ret (ctrl_zero, None)))"
    using ok fin by (auto intro!: keeps_intros)
  ultimately show thesis by (blast intro: idle keepsE)
next
  case alive: False
  show thesis
  proof (cases "prepared M names s")
    case True
    with alive run show thesis by (intro steps) (simp_all add: frame_prepared)
  next
    case False
    have "reconcile_frame E M names fin (ret (ctrl_zero, None)) s = (r, t)"
      using run frame_unprepared [OF False alive, of E fin "ret (ctrl_zero, None)" fin body] by simp
    moreover have "keeps (emits Q) (reconcile_frame E M names fin (ret (ctrl_zero, None)))"
      using ok fin by (auto intro!: keeps_intros)
    ultimately show thesis by (blast intro: idle keepsE)
  qed
qed

section \<open>The preparation ends\<close>

text \<open>A server that stores what it is sent, and the documented effect of the finalizer helpers.\<close>

definition echoes :: "('sp, 'ev, 'z) kenv_scheme \<Rightarrow> bool" where
  "echoes E \<longleftrightarrow> (\<forall>h x. k_update E (h @ [EUpdate x]) = Inr x)
     \<and> (\<forall>h x. k_status_update E (h @ [EStatusUpdate x]) = Inr x)"

definition adds_finalizers :: "('sp, 'ev, 'z) kenv_scheme \<Rightarrow> bool" where
  "adds_finalizers E \<longleftrightarrow> (\<forall>fs f. set (k_add_finalizer E fs f) = insert f (set fs))"

definition removes_finalizers :: "('sp, 'ev, 'z) kenv_scheme \<Rightarrow> bool" where
  "removes_finalizers E \<longleftrightarrow> (\<forall>fs f. set (k_remove_finalizer E fs f) = set fs - {f})"

text \<open>Labels and annotations ensured by a kind: they come from its name and spec, their keys
  are distinct, and none of them is one of the operator's own commands.\<close>

definition stable_methods :: "'sp methods \<Rightarrow> bool" where
  "stable_methods M \<longleftrightarrow>
     (\<forall>x l a f st. GetEnsuredLabels M (x\<lparr>r_meta := (r_meta x)\<lparr>om_Labels := l, om_Annotations := a, om_Finalizers := f\<rparr>,
         r_status := st\<rparr>) = GetEnsuredLabels M x)
   \<and> (\<forall>x l a f st. GetEnsuredAnnotations M (x\<lparr>r_meta := (r_meta x)\<lparr>om_Labels := l, om_Annotations := a, om_Finalizers := f\<rparr>,
         r_status := st\<rparr>) = GetEnsuredAnnotations M x)
   \<and> (\<forall>x. distinct (map fst (GetEnsuredLabels M x)) \<and> distinct (map fst (GetEnsuredAnnotations M x))
        \<and> ClearStatusKey \<notin> fst ` set (GetEnsuredAnnotations M x) \<and> RestartKey \<notin> fst ` set (GetEnsuredAnnotations M x))"

lemma stable_keys:
  assumes "stable_methods M"
  shows "distinct (map fst (GetEnsuredLabels M x))" and "distinct (map fst (GetEnsuredAnnotations M x))"
    and "ClearStatusKey \<notin> fst ` set (GetEnsuredAnnotations M x)"
    and "RestartKey \<notin> fst ` set (GetEnsuredAnnotations M x)"
  using assms unfolding stable_methods_def by blast+

text \<open>The object with its labels, annotations, finalizers and status replaced.\<close>

definition redo :: "string gomap \<Rightarrow> string gomap \<Rightarrow> string list \<Rightarrow> status \<Rightarrow> 'sp resource \<Rightarrow> 'sp resource" where
  "redo l a f st x = x\<lparr>r_meta := (r_meta x)\<lparr>om_Labels := l, om_Annotations := a, om_Finalizers := f\<rparr>, r_status := st\<rparr>"

lemma redo_sel [simp]:
  "r_spec (redo l a f st x) = r_spec x" "r_status (redo l a f st x) = st"
  "om_Labels (r_meta (redo l a f st x)) = l" "om_Annotations (r_meta (redo l a f st x)) = a"
  "om_Finalizers (r_meta (redo l a f st x)) = f" "om_Deleting (r_meta (redo l a f st x)) = om_Deleting (r_meta x)"
  "om_Name (r_meta (redo l a f st x)) = om_Name (r_meta x)"
  by (simp_all add: redo_def)

lemma redo_self: "x = redo (om_Labels (r_meta x)) (om_Annotations (r_meta x)) (om_Finalizers (r_meta x)) (r_status x) x"
  by (simp add: redo_def)

lemma redo_exists: "\<exists>l a f st. x = redo l a f st x"
  by (intro exI) (rule redo_self)

lemma redo_redo [simp]: "redo l a f st (redo l' a' f' st' x) = redo l a f st x"
  by (simp add: redo_def)

lemma stable_redo:
  assumes "stable_methods M"
  shows "GetEnsuredLabels M (redo l a f st x) = GetEnsuredLabels M x"
    and "GetEnsuredAnnotations M (redo l a f st x) = GetEnsuredAnnotations M x"
  using assms by (simp_all add: stable_methods_def redo_def)

lemma echo_status: "echoes E \<Longrightarrow> answer E s = None \<and> rs_obj (answered E s) = rs_obj s"
  by (simp add: echoes_def answer_def answered_def)

lemma echo_update:
  "echoes E \<Longrightarrow> client_Update E s = (Ret None, s\<lparr>rs_hist := rs_hist s @ [EUpdate (rs_obj s)]\<rparr>)"
  by (simp add: echoes_def ract_defs act_simps)

lemma echo_Done: "echoes E \<Longrightarrow>
  \<exists>r t. Done E rs s = (Ret r, t) \<and> rs_obj t = (rs_obj s)\<lparr>r_status := (r_status (rs_obj s))\<lparr>st_LastReconcileTime := k_now E (rs_hist s)\<rparr>\<rparr>"
  by (cases rs) (simp_all add: Done_def andThen_apply ret_def updStatus_def echo_status)

lemma Restart_obj: "\<exists>x t. Restart E kind ns ls s = (Ret x, t) \<and> rs_obj t = rs_obj s"
  by (simp add: Restart_def ract_defs act_simps split: exec_result.split)

text \<open>What each step makes of the object, when it has something to do.\<close>

lemma EnsureChecks_obj:
  assumes "echoes E" and "\<not> checks_present names (st_Checks (r_status (rs_obj s)))"
  obtains r t where "EnsureChecks E names s = (Ret r, t)" and "\<not> ShouldProceed r"
    and "rs_obj t = (rs_obj s)\<lparr>r_status := (r_status (rs_obj s))\<lparr>st_Checks
      := add_checks names (Some (gm_entries (st_Checks (r_status (rs_obj s)))))\<rparr>\<rparr>"
proof -
  let ?c = "st_Checks (r_status (rs_obj s))"
  have "\<not> checks_present names (Some (gm_entries ?c))"
    using assms(2) by (simp add: checks_present_def del: gm_get_Some)
  then have "gm_len ?c \<noteq> gm_len (add_checks names (Some (gm_entries ?c)))"
    using add_checks_len_iff [of names "Some (gm_entries ?c)"] by simp
  then show ?thesis
    using that [of New]
    by (simp add: EnsureChecks_def andThen_apply Let_def ret_def updStatus_def echo_status [OF assms(1)])
qed

lemma ClearStatus_obj:
  assumes "echoes E" and "flagged ClearStatusKey s"
  obtains r t st where "ClearStatusIfAnnotated E s = (Ret r, t)" and "\<not> ShouldProceed r"
    and "rs_obj t = (rs_obj s)\<lparr>r_meta := (r_meta (rs_obj s))\<lparr>om_Annotations
        := gm_del ClearStatusKey (om_Annotations (r_meta (rs_obj s)))\<rparr>, r_status := st\<rparr>"
    and "st_Checks st = None"
proof -
  obtain r t where rt: "ClearStatusIfAnnotated E s = (Ret r, t)" "\<not> ShouldProceed r"
    using ClearStatus_halts [OF assms(2), of E] by (auto simp: halts_def)
  have "\<exists>st. rs_obj t = (rs_obj s)\<lparr>r_meta := (r_meta (rs_obj s))\<lparr>om_Annotations
        := gm_del ClearStatusKey (om_Annotations (r_meta (rs_obj s)))\<rparr>, r_status := st\<rparr> \<and> st_Checks st = None"
    using assms(2) rt(1)
    by (auto simp: ClearStatusIfAnnotated_def flagged_def getMeta_def andThen_apply modMeta_def modObj_def ret_def
        Done_def updStatus_def echo_status [OF assms(1)] echo_update [OF assms(1)])
  with rt that show ?thesis by blast
qed

lemma Restart_step_obj:
  assumes "echoes E" and "flagged RestartKey s"
  obtains r t st where "RestartIfAnnotated E M s = (Ret r, t)" and "\<not> ShouldProceed r"
    and "rs_obj t = (rs_obj s)\<lparr>r_meta := (r_meta (rs_obj s))\<lparr>om_Annotations
        := gm_del RestartKey (om_Annotations (r_meta (rs_obj s)))\<rparr>, r_status := st\<rparr>"
    and "st_Checks st = st_Checks (r_status (rs_obj s))"
proof -
  obtain r t where rt: "RestartIfAnnotated E M s = (Ret r, t)" "\<not> ShouldProceed r"
    using Restart_halts [OF assms(2), of E M] by (auto simp: halts_def)
  let ?s1 = "s\<lparr>rs_obj := (rs_obj s)\<lparr>r_meta := (r_meta (rs_obj s))\<lparr>om_Annotations
        := gm_del RestartKey (om_Annotations (r_meta (rs_obj s)))\<rparr>\<rparr>\<rparr>"
  let ?s2 = "?s1\<lparr>rs_hist := rs_hist s @ [EUpdate (rs_obj ?s1)]\<rparr>"
  let ?ns = "om_Namespace (r_meta (rs_obj ?s2))" and ?ls = "GetEnsuredLabels M (rs_obj ?s2)"
  obtain x v where v: "Restart E ''deployments'' ?ns ?ls ?s2 = (Ret x, v)" "rs_obj v = rs_obj ?s2"
    using Restart_obj by blast
  obtain y w where w: "Restart E ''statefulsets'' ?ns ?ls v = (Ret y, w)" "rs_obj w = rs_obj v"
    using Restart_obj by blast
  obtain r' u where u: "Done E [] w = (Ret r', u)"
    "rs_obj u = (rs_obj w)\<lparr>r_status := (r_status (rs_obj w))\<lparr>st_LastReconcileTime := k_now E (rs_hist w)\<rparr>\<rparr>"
    using echo_Done [OF assms(1)] by blast
  have "RestartIfAnnotated E M s = (Ret (RequeueAfter r' (2 * Second)), u)"
    using assms(2) v w u(1)
    by (simp add: RestartIfAnnotated_def flagged_def getMeta_def andThen_apply modMeta_def modObj_def ret_def
        echo_update [OF assms(1)])
  with rt have "t = u" by simp
  then show ?thesis using rt that u(2) v(2) w(2) by simp
qed

lemma EnsureLabels_obj:
  assumes "echoes E" and "\<not> labelled M s"
  obtains r t where "EnsureLabelsAndAnnotations E M s = (Ret r, t)" and "\<not> ShouldProceed r"
    and "rs_obj t = (rs_obj s)\<lparr>r_meta := (r_meta (rs_obj s))\<lparr>
      om_Labels := put_all (GetEnsuredLabels M (rs_obj s)) (Some (gm_entries (om_Labels (r_meta (rs_obj s))))),
      om_Annotations := put_all (GetEnsuredAnnotations M (rs_obj s)) (Some (gm_entries (om_Annotations (r_meta (rs_obj s)))))\<rparr>\<rparr>"
proof -
  have "\<exists>t. EnsureLabelsAndAnnotations E M s = (Ret (Err New None), t) \<and> rs_obj t = (rs_obj s)\<lparr>r_meta := (r_meta (rs_obj s))\<lparr>
      om_Labels := put_all (GetEnsuredLabels M (rs_obj s)) (Some (gm_entries (om_Labels (r_meta (rs_obj s))))),
      om_Annotations := put_all (GetEnsuredAnnotations M (rs_obj s)) (Some (gm_entries (om_Annotations (r_meta (rs_obj s)))))\<rparr>\<rparr>"
    using assms(2)
    by (auto simp: labelled_def EnsureLabelsAndAnnotations_def Let_def modMeta_def modObj_def andThen_apply ret_def
        echo_update [OF assms(1)])
  then show ?thesis using that by auto
qed

lemma EnsureFinalizers_obj:
  assumes "echoes E" and "\<not> guarded fs s"
  obtains r t where "EnsureFinalizers E fs s = (Ret r, t)" and "\<not> ShouldProceed r"
    and "rs_obj t = (rs_obj s)\<lparr>r_meta := (r_meta (rs_obj s))\<lparr>
      om_Finalizers := foldl (k_add_finalizer E) (om_Finalizers (r_meta (rs_obj s))) fs\<rparr>\<rparr>"
proof -
  have "\<exists>t. EnsureFinalizers E fs s = (Ret New, t) \<and> rs_obj t = (rs_obj s)\<lparr>r_meta := (r_meta (rs_obj s))\<lparr>
      om_Finalizers := foldl (k_add_finalizer E) (om_Finalizers (r_meta (rs_obj s))) fs\<rparr>\<rparr>"
    using assms(2)
    by (auto simp: guarded_def ContainsFinalizers_iff EnsureFinalizers_def getMeta_def modMeta_def modObj_def
        andThen_apply ret_def echo_update [OF assms(1)])
  then show ?thesis using that by auto
qed

lemma add_finalizers_set:
  "adds_finalizers E \<Longrightarrow> set (foldl (k_add_finalizer E) fs0 fs) = set fs0 \<union> set fs"
  by (induction fs arbitrary: fs0) (auto simp: adds_finalizers_def)

definition maps_ok :: "('sp, 'ev, 'lv) rstate \<Rightarrow> bool" where
  "maps_ok s \<longleftrightarrow> gm_ok (om_Labels (r_meta (rs_obj s))) \<and> gm_ok (om_Annotations (r_meta (rs_obj s)))"

definition to_prepare :: "'sp methods \<Rightarrow> string list \<Rightarrow> ('sp, 'ev, 'lv) rstate \<Rightarrow> nat" where
  "to_prepare M names s = (if checks_present names (st_Checks (r_status (rs_obj s))) then 0 else 1)
     + (if flagged ClearStatusKey s then 2 else 0) + (if flagged RestartKey s then 1 else 0)
     + (if labelled M s then 0 else 1) + (if guarded frame_finalizers s then 0 else 1)"

lemma to_prepare_le: "to_prepare M names s \<le> 6"
  by (simp add: to_prepare_def)

lemma keys_distinct [simp]: "ClearStatusKey \<noteq> RestartKey" "RestartKey \<noteq> ClearStatusKey"
  by (simp_all add: ClearStatusKey_def RestartKey_def)

lemma gm_ok_as_Some: "gm_ok m \<Longrightarrow> gm_ok (Some (gm_entries m))"
  by (simp add: gm_ok_def)

lemma gm_str_put_all_other:
  assumes "gm_ok m" and "distinct (map fst kvs)" and "k \<notin> fst ` set kvs"
  shows "gm_str (put_all kvs (Some (gm_entries m))) k = gm_str m k"
  using assms gm_get_put_all [of kvs "Some (gm_entries m)" k] gm_get_as_Some [of m]
  by (simp add: gm_str_def gm_ok_as_Some map_of_eq_None_iff [THEN iffD2] del: gm_get_Some)

lemma gm_ok_put_all: "gm_ok m \<Longrightarrow> gm_ok (put_all kvs m)"
  unfolding put_all_def by (rule gm.invar_puts)

lemma MapContains_del:
  assumes "distinct (map fst kvs)" and "k \<notin> fst ` set kvs"
  shows "MapContains (gm_del k m) (Some kvs) = MapContains m (Some kvs)"
proof -
  have "map_of kvs k = None" using assms by (simp add: map_of_eq_None_iff)
  then have "v = gm_str (gm_del k m) k' \<longleftrightarrow> v = gm_str m k'" if "map_of kvs k' = Some v" for k' v
    using that by (cases "k' = k") (simp_all add: gm_str_def)
  then show ?thesis by (auto simp: MapContains_iff [OF assms(1)])
qed

lemma gm_str_del: "gm_str (gm_del k m) k' = (if k' = k then '''' else gm_str m k')"
  by (simp add: gm_str_def)

lemma labelled_redo:
  assumes "stable_methods M" and "rs_obj t = redo l a f st (rs_obj s)"
  shows "labelled M t \<longleftrightarrow> MapContains l (Some (GetEnsuredLabels M (rs_obj s)))
     \<and> MapContains a (Some (GetEnsuredAnnotations M (rs_obj s)))"
  by (simp add: labelled_def assms(2) stable_redo [OF assms(1)])

text \<open>A pass that ends with less to prepare, on the same object up to what it prepares.\<close>

definition better :: "'sp methods \<Rightarrow> string list \<Rightarrow> ('sp, 'ev, 'lv) rstate \<Rightarrow> ('sp, 'ev, 'lv) rstate \<Rightarrow> bool" where
  "better M names s t \<longleftrightarrow> to_prepare M names t < to_prepare M names s \<and> maps_ok t
     \<and> (\<exists>l a f st. rs_obj t = redo l a f st (rs_obj s))"

definition ends_better :: "'sp methods \<Rightarrow> string list \<Rightarrow> (('sp, 'ev, 'lv) rstate, step_result) act
    \<Rightarrow> ('sp, 'ev, 'lv) rstate \<Rightarrow> bool" where
  "ends_better M names m s \<longleftrightarrow> (\<exists>r t. m s = (Ret r, t) \<and> \<not> ShouldProceed r \<and> better M names s t)"

lemma ends_betterI:
  assumes "m s = (Ret r, t)" and "\<not> ShouldProceed r" and "rs_obj t = redo l a f st (rs_obj s)"
    and "gm_ok l" and "gm_ok a" and "to_prepare M names t < to_prepare M names s"
  shows "ends_better M names m s"
  unfolding ends_better_def better_def
  by (rule exI [of _ r], rule exI [of _ t]) (use assms in \<open>auto simp: maps_ok_def\<close>)

lemma andStep_ends_better:
  "ends_better M names m s \<Longrightarrow> \<exists>r t. andStep m k s = (Ret r, t) \<and> better M names s t"
  by (auto simp: ends_better_def andStep_def ret_def)

lemma checks_better:
  assumes "echoes E" and "stable_methods M" and "maps_ok s"
    and not: "\<not> checks_present names (st_Checks (r_status (rs_obj s)))"
  shows "ends_better M names (EnsureChecks E names) s"
proof -
  let ?x = "rs_obj s"
  obtain r t where rt: "EnsureChecks E names s = (Ret r, t)" "\<not> ShouldProceed r"
    and t: "rs_obj t = ?x\<lparr>r_status := (r_status ?x)\<lparr>st_Checks := add_checks names (Some (gm_entries (st_Checks (r_status ?x))))\<rparr>\<rparr>"
    by (rule EnsureChecks_obj [OF assms(1) not])
  from t have obj: "rs_obj t = redo (om_Labels (r_meta ?x)) (om_Annotations (r_meta ?x)) (om_Finalizers (r_meta ?x))
      ((r_status ?x)\<lparr>st_Checks := add_checks names (Some (gm_entries (st_Checks (r_status ?x))))\<rparr>) ?x"
    by (simp add: redo_def)
  have "checks_present names (st_Checks (r_status (rs_obj t)))"
    unfolding obj by (simp add: checks_present_def add_checks_get)
  then have "to_prepare M names t < to_prepare M names s"
    using not obj labelled_redo [OF assms(2) obj] labelled_redo [OF assms(2) redo_self, of s]
    by (simp add: to_prepare_def flagged_def guarded_def)
  with rt obj show ?thesis using assms(3) by (intro ends_betterI) (auto simp: maps_ok_def)
qed

lemma clear_better:
  assumes "echoes E" and "stable_methods M" and "maps_ok s"
    and checks: "checks_present names (st_Checks (r_status (rs_obj s)))" and flag: "flagged ClearStatusKey s"
  shows "ends_better M names (ClearStatusIfAnnotated E) s"
proof -
  let ?x = "rs_obj s"
  let ?a = "gm_del ClearStatusKey (om_Annotations (r_meta ?x))"
  obtain r t st where rt: "ClearStatusIfAnnotated E s = (Ret r, t)" "\<not> ShouldProceed r"
    and t: "rs_obj t = ?x\<lparr>r_meta := (r_meta ?x)\<lparr>om_Annotations := ?a\<rparr>, r_status := st\<rparr>"
    by (rule ClearStatus_obj [OF assms(1) flag])
  from t have obj: "rs_obj t = redo (om_Labels (r_meta ?x)) ?a (om_Finalizers (r_meta ?x)) st ?x"
    by (simp add: redo_def)
  have "\<not> flagged ClearStatusKey t" "flagged RestartKey t = flagged RestartKey s"
    unfolding flagged_def obj by (simp_all add: gm_str_del)
  then have "to_prepare M names t < to_prepare M names s"
    using flag obj checks labelled_redo [OF assms(2) obj] labelled_redo [OF assms(2) redo_self, of s]
      MapContains_del [OF stable_keys(2,3) [OF assms(2)]]
    by (simp add: to_prepare_def guarded_def)
  with rt obj show ?thesis using assms(3) by (intro ends_betterI) (auto simp: maps_ok_def gm_ok_del)
qed

lemma restart_better:
  assumes "echoes E" and "stable_methods M" and "maps_ok s"
    and checks: "checks_present names (st_Checks (r_status (rs_obj s)))"
    and flag: "\<not> flagged ClearStatusKey s" "flagged RestartKey s"
  shows "ends_better M names (RestartIfAnnotated E M) s"
proof -
  let ?x = "rs_obj s"
  let ?a = "gm_del RestartKey (om_Annotations (r_meta ?x))"
  obtain r t st where rt: "RestartIfAnnotated E M s = (Ret r, t)" "\<not> ShouldProceed r"
    and t: "rs_obj t = ?x\<lparr>r_meta := (r_meta ?x)\<lparr>om_Annotations := ?a\<rparr>, r_status := st\<rparr>"
      "st_Checks st = st_Checks (r_status ?x)"
    by (rule Restart_step_obj [OF assms(1) flag(2)])
  from t have obj: "rs_obj t = redo (om_Labels (r_meta ?x)) ?a (om_Finalizers (r_meta ?x)) st ?x"
    by (simp add: redo_def)
  have "\<not> flagged RestartKey t" "\<not> flagged ClearStatusKey t"
    using flag unfolding flagged_def obj by (simp_all add: gm_str_del)
  then have "to_prepare M names t < to_prepare M names s"
    using flag obj checks t(2) labelled_redo [OF assms(2) obj] labelled_redo [OF assms(2) redo_self, of s]
      MapContains_del [OF stable_keys(2,4) [OF assms(2)]]
    by (simp add: to_prepare_def guarded_def)
  with rt obj show ?thesis using assms(3) by (intro ends_betterI) (auto simp: maps_ok_def gm_ok_del)
qed

lemma labels_better:
  assumes "echoes E" and "stable_methods M" and "maps_ok s" and not: "\<not> labelled M s"
  shows "ends_better M names (EnsureLabelsAndAnnotations E M) s"
proof -
  let ?x = "rs_obj s"
  let ?l = "put_all (GetEnsuredLabels M ?x) (Some (gm_entries (om_Labels (r_meta ?x))))"
  let ?a = "put_all (GetEnsuredAnnotations M ?x) (Some (gm_entries (om_Annotations (r_meta ?x))))"
  obtain r t where rt: "EnsureLabelsAndAnnotations E M s = (Ret r, t)" "\<not> ShouldProceed r"
    and t: "rs_obj t = ?x\<lparr>r_meta := (r_meta ?x)\<lparr>om_Labels := ?l, om_Annotations := ?a\<rparr>\<rparr>"
    by (rule EnsureLabels_obj [OF assms(1) not])
  from t have obj: "rs_obj t = redo ?l ?a (om_Finalizers (r_meta ?x)) (r_status ?x) ?x" by (simp add: redo_def)
  have maps: "gm_ok (om_Labels (r_meta ?x))" "gm_ok (om_Annotations (r_meta ?x))"
    using assms(3) by (auto simp: maps_ok_def)
  note keys = stable_keys [OF assms(2), of ?x]
  have "labelled M t" unfolding labelled_redo [OF assms(2) obj]
    using keys maps by (simp add: MapContains_put_all gm_ok_as_Some)
  moreover have "flagged RestartKey t = flagged RestartKey s" "flagged ClearStatusKey t = flagged ClearStatusKey s"
    unfolding flagged_def obj
    using gm_str_put_all_other [OF maps(2) keys(2,3)] gm_str_put_all_other [OF maps(2) keys(2,4)] by simp_all
  ultimately have "to_prepare M names t < to_prepare M names s"
    using not obj by (simp add: to_prepare_def guarded_def)
  then show ?thesis
    by (intro ends_betterI [where m = "EnsureLabelsAndAnnotations E M" and s = s, OF rt obj])
       (simp_all add: maps gm_ok_put_all gm_ok_as_Some)
qed

lemma finalizers_better:
  assumes "echoes E" and "adds_finalizers E" and "stable_methods M" and "maps_ok s"
    and not: "\<not> guarded frame_finalizers s"
  shows "ends_better M names (EnsureFinalizers E frame_finalizers) s"
proof -
  let ?x = "rs_obj s"
  let ?f = "foldl (k_add_finalizer E) (om_Finalizers (r_meta ?x)) frame_finalizers"
  obtain r t where rt: "EnsureFinalizers E frame_finalizers s = (Ret r, t)" "\<not> ShouldProceed r"
    and t: "rs_obj t = ?x\<lparr>r_meta := (r_meta ?x)\<lparr>om_Finalizers := ?f\<rparr>\<rparr>"
    by (rule EnsureFinalizers_obj [OF assms(1) not])
  from t have obj: "rs_obj t = redo (om_Labels (r_meta ?x)) (om_Annotations (r_meta ?x)) ?f (r_status ?x) ?x"
    by (simp add: redo_def)
  have "guarded frame_finalizers t" unfolding guarded_def obj by (simp add: add_finalizers_set [OF assms(2)])
  then have "to_prepare M names t < to_prepare M names s"
    using not obj labelled_redo [OF assms(3) obj] labelled_redo [OF assms(3) redo_self, of s]
    by (simp add: to_prepare_def flagged_def)
  with rt obj show ?thesis using assms(4) by (intro ends_betterI) (auto simp: maps_ok_def)
qed

text \<open>One pass of the frame on an object that is not prepared, at a server that stores.\<close>

lemma frame_pass:
  assumes E: "echoes E" "adds_finalizers E" and M: "stable_methods M"
    and s: "\<not> deleting s" "maps_ok s" "\<not> prepared M names s"
  shows "\<exists>r t. reconcile_frame E M names fin body s = (Ret r, t) \<and> better M names s t"
proof (cases "checks_present names (st_Checks (r_status (rs_obj s)))")
  case False
  then show ?thesis unfolding reconcile_frame_def
    by (intro andStep_ends_better checks_better E M s)
next
  case c: True
  have enter: "reconcile_frame E M names fin body s = andStep (ClearStatusIfAnnotated E) (
     andStep (RestartIfAnnotated E M) (andStep (EnsureLabelsAndAnnotations E M) (
     andStep (EnsureFinalizers E frame_finalizers) body))) s"
    using s(1) unfolding reconcile_frame_def andStep_passes [OF EnsureChecks_passes [OF c]]
    by (simp add: deleting_def getMeta_def frame_finalizers_def)
  show ?thesis
  proof (cases "flagged ClearStatusKey s")
    case True
    then show ?thesis unfolding enter by (intro andStep_ends_better clear_better E M s c)
  next
    case clear: False
    note enter = enter [unfolded andStep_passes [OF ClearStatus_passes [OF clear]]]
    show ?thesis
    proof (cases "flagged RestartKey s")
      case True
      then show ?thesis unfolding enter by (intro andStep_ends_better restart_better E M s c clear)
    next
      case restart: False
      note enter = enter [unfolded andStep_passes [OF Restart_passes [OF restart]]]
      show ?thesis
      proof (cases "labelled M s")
        case False
        then show ?thesis unfolding enter by (intro andStep_ends_better labels_better E M s)
      next
        case True
        then have "\<not> guarded frame_finalizers s" using s(3) c clear restart by (simp add: prepared_def)
        then show ?thesis unfolding enter andStep_passes [OF EnsureLabels_passes [OF True]]
          by (intro andStep_ends_better finalizers_better E M s)
      qed
    qed
  qed
qed

text \<open>Passes repeated until the object is prepared.\<close>

definition prep_pass :: "('sp, 'ev, 'z) kenv_scheme \<Rightarrow> 'sp methods \<Rightarrow> string list
    \<Rightarrow> ('sp, 'ev, 'lv, step_result) ract \<Rightarrow> ('sp, 'ev, 'lv) reconcile
    \<Rightarrow> ('sp, 'ev, 'lv) rstate \<Rightarrow> ('sp, 'ev, 'lv) rstate" where
  "prep_pass E M names fin body s =
     (if prepared M names s then s else snd (reconcile_frame E M names fin body s))"

lemma prep_passes:
  assumes "echoes E" and "adds_finalizers E" and "stable_methods M" and "\<not> deleting s" and "maps_ok s"
    and "to_prepare M names s \<le> k"
  shows "prepared M names ((prep_pass E M names fin body ^^ k) s)
    \<and> (\<exists>l a f st. rs_obj ((prep_pass E M names fin body ^^ k) s) = redo l a f st (rs_obj s))"
  using assms(4-6)
proof (induction k arbitrary: s)
  case 0
  then have "prepared M names s" by (auto simp: prepared_def to_prepare_def split: if_splits)
  then show ?case by (simp add: redo_exists)
next
  case (Suc k)
  show ?case
  proof (cases "prepared M names s")
    case True
    then have "(prep_pass E M names fin body ^^ n) s = s" for n
      by (induction n) (simp_all add: prep_pass_def)
    with True show ?thesis by (simp only: redo_exists simp_thms)
  next
    case False
    obtain r t where t: "reconcile_frame E M names fin body s = (Ret r, t)" "better M names s t"
      using frame_pass [OF assms(1-3) Suc.prems(1,2) False] by blast
    then have next_pass: "(prep_pass E M names fin body ^^ Suc k) s = (prep_pass E M names fin body ^^ k) t"
      using False by (simp add: funpow_swap1 prep_pass_def)
    obtain l a f st where obj: "rs_obj t = redo l a f st (rs_obj s)" using t(2) by (auto simp: better_def)
    have "\<not> deleting t" using Suc.prems(1) obj by (simp add: deleting_def)
    moreover have "maps_ok t" "to_prepare M names t \<le> k" using t(2) Suc.prems(3) by (auto simp: better_def)
    ultimately show ?thesis using Suc.IH [of t] obj unfolding next_pass by auto
  qed
qed

section \<open>A server for examples\<close>

text \<open>A server that stores what it is sent, with the finalizer helpers as documented; the
  clock stands still.\<close>

definition stored_update :: "('sp, 'ev) hist \<Rightarrow> error + 'sp resource" where
  "stored_update h = (case last h of EUpdate x \<Rightarrow> Inr x | EStatusUpdate x \<Rightarrow> Inr x | _ \<Rightarrow> Inl (Failure ''no update''))"

definition storing_env :: "('sp, 'ev) kenv" where
  "storing_env = \<lparr>k_now = (\<lambda>_. 0), k_get = (\<lambda>_. Inl (NotFound ''not found'')),
     k_update = stored_update, k_status_update = stored_update, k_exec = (\<lambda>_. ExecOk ''''),
     k_find = (\<lambda>cs t. List.find (\<lambda>c. cType c = t) cs),
     k_add_finalizer = (\<lambda>fs f. if f \<in> set fs then fs else fs @ [f]),
     k_remove_finalizer = (\<lambda>fs f. filter (\<lambda>g. g \<noteq> f) fs)\<rparr>"

lemma storing_env_ok [simp]:
  "echoes storing_env" "adds_finalizers storing_env" "removes_finalizers storing_env"
  "finds_first (k_find storing_env)"
  by (auto simp: echoes_def adds_finalizers_def removes_finalizers_def finds_first_def storing_env_def
      stored_update_def)

definition sample_meta :: objmeta where
  "sample_meta = \<lparr>om_APIVersion = ''infra.kloudlite.io/v1'', om_Kind = ''Edge'', om_Name = ''edge'',
     om_Namespace = '''', om_UID = ''uid'', om_Labels = None, om_Annotations = None, om_Finalizers = [],
     om_Owners = [], om_Generation = 1, om_Deleting = False\<rparr>"

definition status0 :: status where
  "status0 = \<lparr>st_IsReady = False, st_Message = rj_empty, st_Messages = [], st_DisplayVars = rj_empty,
     st_GeneratedVars = rj_empty, st_Conditions = [], st_ChildConditions = [], st_OpsConditions = [],
     st_Checks = None, st_LastReconcileTime = 0\<rparr>"

definition sample_state :: "'sp \<Rightarrow> ('sp, 'ev, 'lv) rstate" where
  "sample_state sp = \<lparr>rs_obj = \<lparr>r_meta = sample_meta, r_spec = sp, r_status = status0\<rparr>, rs_hist = [], rs_locals = []\<rparr>"

definition sample_methods :: "'sp methods" where
  "sample_methods = \<lparr>GetEnsuredLabels = (\<lambda>x. [(''kloudlite.io/edge.name'', om_Name (r_meta x))]),
     GetEnsuredAnnotations = (\<lambda>_. [])\<rparr>"

definition sample_deleting :: "(unit, unit, unit) rstate" where
  "sample_deleting = \<lparr>rs_obj = \<lparr>r_meta = sample_meta\<lparr>om_Deleting := True\<rparr>, r_spec = (), r_status = status0\<rparr>,
     rs_hist = [], rs_locals = []\<rparr>"

lemmas request_samples = sample_meta_def status0_def sample_state_def sample_methods_def

lemma sample_methods_stable [simp]: "stable_methods sample_methods"
  by (simp add: stable_methods_def sample_methods_def)

section \<open>Properties\<close>

text \<open>C13. The gate of every reconcile: while an object is not being deleted, a pass runs the
  controller's own steps, on the object as read, exactly when all checks exist, no command is
  annotated, and the ensured labels, annotations and finalizers are in place.  Otherwise the pass
  does not depend on these steps at all and makes no call but writes of its own object and the
  rollout commands.\<close>

theorem frame_gates_body:
  assumes "\<not> deleting s"
  shows "(prepared M names s \<longrightarrow> reconcile_frame E M names fin body s = body s)
    \<and> (\<not> prepared M names s \<longrightarrow> (\<exists>r t. emits own_event s t
          \<and> (\<forall>fin' body'. reconcile_frame E M names fin' body' s = (r, t))))"
proof -
  let ?idle = "reconcile_frame E M names (ret New) (ret (ctrl_zero, None))"
  have "keeps (emits own_event) ?idle" by (intro keeps_emits_reconcile_frame) (auto intro: keeps_intros)
  moreover obtain r t where "?idle s = (r, t)" by fastforce
  ultimately have "emits own_event s t" and "?idle s = (r, t)" by (auto intro: keepsE)
  then show ?thesis
    using frame_prepared [OF _ assms] frame_unprepared [OF _ assms, of M names E "ret New" "ret (ctrl_zero, None)"]
    by metis
qed

lemma frame_gates_body_witness:
  "\<exists>r t. \<forall>fin' body'. reconcile_frame storing_env sample_methods [''a''] fin' body'
     (sample_state () :: (unit, unit, unit) rstate) = (r, t)"
proof -
  have "\<not> deleting (sample_state () :: (unit, unit, unit) rstate)" by (simp add: deleting_def request_samples)
  moreover have "\<not> prepared sample_methods [''a''] (sample_state () :: (unit, unit, unit) rstate)"
    by (simp add: prepared_def checks_present_def request_samples)
  ultimately show ?thesis
    using frame_gates_body [of "sample_state () :: (unit, unit, unit) rstate" sample_methods "[''a'']" storing_env]
    by blast
qed

text \<open>C14. Preparation ends: at a server that stores what it is sent, whatever the state an object
  is found in, after at most six passes it is prepared (so that the next pass runs the
  controller's steps), and neither its spec nor its name has changed.\<close>

theorem preparation_ends:
  assumes "echoes E" and "adds_finalizers E" and "stable_methods M" and "\<not> deleting s" and "maps_ok s"
  shows "let t = (prep_pass E M names fin body ^^ 6) s in
    prepared M names t \<and> r_spec (rs_obj t) = r_spec (rs_obj s)
    \<and> om_Name (r_meta (rs_obj t)) = om_Name (r_meta (rs_obj s))"
proof -
  let ?t = "(prep_pass E M names fin body ^^ 6) s"
  have "prepared M names ?t \<and> (\<exists>l a f st. rs_obj ?t = redo l a f st (rs_obj s))"
    by (rule prep_passes [OF assms to_prepare_le])
  then show ?thesis by (auto simp: Let_def)
qed

lemma preparation_ends_witness:
  "prepared sample_methods [''a'']
     ((prep_pass storing_env sample_methods [''a''] Next (complete storing_env) ^^ 6) (sample_state () :: (unit, unit, unit) rstate))"
proof -
  have "\<not> deleting (sample_state () :: (unit, unit, unit) rstate)"
    and "maps_ok (sample_state () :: (unit, unit, unit) rstate)"
    by (simp_all add: deleting_def maps_ok_def gm_ok_def request_samples)
  then show ?thesis
    using preparation_ends [of storing_env sample_methods "sample_state () :: (unit, unit, unit) rstate"
        "[''a'']" Next "complete storing_env"]
    unfolding Let_def by simp
qed




text \<open>C18. Writing the status drops exactly the messages of the checks that pass, whatever the order
  in which Go iterates over the checks, and leaves the checks themselves alone.\<close>

theorem UpdateStatus_drops_passing:
  assumes "rj_ok (st_Message (r_status (rs_obj s)))"
  shows "\<exists>r t x. UpdateStatus E s = (Ret r, t) \<and> \<not> ShouldProceed r
    \<and> rs_hist t = rs_hist s @ [EStatusUpdate x]
    \<and> st_Checks (r_status x) = st_Checks (r_status (rs_obj s))
    \<and> (\<forall>k. rj_lookup (st_Message (r_status x)) k =
         (if \<exists>c. (k, c) \<in> set (gm_entries (st_Checks (r_status (rs_obj s)))) \<and> ck_Status c then None
          else rj_lookup (st_Message (r_status (rs_obj s))) k))"
proof -
  obtain j where run: "UpdateStatus E s =
      (let s' = updStatus (\<lambda>st. st\<lparr>st_LastReconcileTime := k_now E (rs_hist s), st_Message := j\<rparr>) s in
       (Ret (case answer E s' of Some e \<Rightarrow> Err New (Some e) | None \<Rightarrow> New), answered E s'))"
    and j: "cleared (passing (gm_entries (st_Checks (r_status (rs_obj s))))) (st_Message (r_status (rs_obj s))) j"
    using UpdateStatus_run [OF assms] by metis
  let ?u = "updStatus (\<lambda>st. st\<lparr>st_LastReconcileTime := k_now E (rs_hist s), st_Message := j\<rparr>) s"
  have "\<not> ShouldProceed (case answer E ?u of Some e \<Rightarrow> Err New (Some e) | None \<Rightarrow> New)"
    by (simp split: option.split)
  moreover have "rs_hist (answered E ?u) = rs_hist s @ [EStatusUpdate (rs_obj ?u)]" by simp
  ultimately show ?thesis using run j by (auto simp: Let_def cleared_def passing_def)
qed

text \<open>C19. The error of a failed pass is recorded once and never refreshed: the first failure
  appends the condition \<open>FailedWithErr\<close> with its message, but while such a condition is present
  (with whatever message) a later failure is sent to the server with the conditions unchanged.
  In both cases the object is marked not ready and the pass ends.\<close>

theorem FailWithStatusError_records_first_only:
  assumes "finds_first (k_find E)" and "distinct (map cType (st_Conditions (r_status (rs_obj s))))"
  shows "\<exists>r t x. FailWithStatusError E (Some e) [] s = (Ret r, t) \<and> \<not> ShouldProceed r
    \<and> rs_hist t = rs_hist s @ [EStatusUpdate x] \<and> \<not> st_IsReady (r_status x)
    \<and> (''FailedWithErr'' \<in> cType ` set (st_Conditions (r_status (rs_obj s))) \<longrightarrow>
         st_Conditions (r_status x) = st_Conditions (r_status (rs_obj s)))
    \<and> (''FailedWithErr'' \<notin> cType ` set (st_Conditions (r_status (rs_obj s))) \<longrightarrow>
         (\<exists>c. st_Conditions (r_status x) = st_Conditions (r_status (rs_obj s)) @ [c]
            \<and> cType c = ''FailedWithErr'' \<and> cMessage c = errmsg e))"
proof -
  let ?cs = "st_Conditions (r_status (rs_obj s))"
  let ?c = "\<lparr>cType = ''FailedWithErr'', cStatus = ConditionFalse, cReason = ''StatusFailedWithErr'',
             cMessage = errmsg e, cLastTransitionTime = 0\<rparr>"
  obtain ns u where p: "Patch (k_find E) (k_now E (rs_hist s)) ?cs (?cs @ [?c]) = (ns, u, None)"
    using Patch_no_error by metis
  have old: "''FailedWithErr'' \<in> cType ` set ?cs \<Longrightarrow> ns = ?cs"
    using Patch_self [OF assms(1,2), of "[?c]"] p by simp
  have fresh: "''FailedWithErr'' \<notin> cType ` set ?cs \<Longrightarrow> ns = ?cs @ [fill_defaults (k_now E (rs_hist s)) ?c]"
    using Patch_extend [OF assms(1,2), of ?c] p by simp
  define v where "v = updStatus (\<lambda>st. st\<lparr>st_IsReady := False, st_Conditions := ns,
    st_LastReconcileTime := k_now E (rs_hist s)\<rparr>) s"
  have run: "FailWithStatusError E (Some e) [] s =
      (Ret (case answer E v of Some e2 \<Rightarrow> Err New (Some e2) | None \<Rightarrow> Err New (Some e)), answered E v)"
    using p by (simp add: FailWithStatusError_def andThen_apply ret_def v_def updStatus_def split: option.split)
  have v: "rs_hist (answered E v) = rs_hist s @ [EStatusUpdate (rs_obj v)]"
    "\<not> st_IsReady (r_status (rs_obj v))" "st_Conditions (r_status (rs_obj v)) = ns"
    by (simp_all add: v_def)
  have "\<not> ShouldProceed (case answer E v of Some e2 \<Rightarrow> Err New (Some e2) | None \<Rightarrow> Err New (Some e))"
    by (simp split: option.split)
  then show ?thesis using run v old fresh by auto
qed

text \<open>Finalizing lets the object go: the object is sent to the server without either of the two
  finalizers the frame adds, and with every other finalizer it had.\<close>

theorem Finalize_releases:
  assumes "removes_finalizers E"
  shows "\<exists>r t x. Finalize E s = (Ret r, t) \<and> rs_hist t = rs_hist s @ [EUpdate x]
    \<and> set (om_Finalizers (r_meta x)) = set (om_Finalizers (r_meta (rs_obj s))) - set frame_finalizers
    \<and> r_spec x = r_spec (rs_obj s) \<and> r_status x = r_status (rs_obj s)"
proof -
  have r: "set (k_remove_finalizer E fs f) = set fs - {f}" for fs f
    using assms by (simp add: removes_finalizers_def)
  show ?thesis
    by (auto simp: Finalize_def modMeta_def modObj_def client_Update_def ask_def andThen_apply ret_def r
        frame_finalizers_def split: sum.split)
qed

section \<open>Witnesses\<close>

definition sample_checked :: "(unit, unit, unit) rstate" where
  "sample_checked = updStatus (\<lambda>st. st\<lparr>st_Checks := Some [(''a'', Check0), (''b'', Check0\<lparr>ck_Status := True\<rparr>)]\<rparr>) (sample_state ())"

lemma sample_checked_ok: "status_ready sample_checked" "rj_ok (st_Message (r_status (rs_obj sample_checked)))"
  by (simp_all add: status_ready_def sample_checked_def request_samples)


lemma UpdateStatus_drops_passing_witness:
  "\<exists>x. rs_hist (snd (UpdateStatus storing_env sample_checked)) = [EStatusUpdate x]
     \<and> rj_lookup (st_Message (r_status x)) ''b'' = None"
proof -
  have "rs_hist sample_checked = []"
    and "\<exists>c. (''b'', c) \<in> set (gm_entries (st_Checks (r_status (rs_obj sample_checked)))) \<and> ck_Status c"
    by (simp_all add: sample_checked_def request_samples)
  then show ?thesis
    using UpdateStatus_drops_passing [OF sample_checked_ok(2), of storing_env] by fastforce
qed

lemma FailWithStatusError_records_first_only_witness:
  "\<exists>x c. rs_hist (snd (FailWithStatusError storing_env (Some (Failure ''e'')) [] sample_checked)) = [EStatusUpdate x]
     \<and> st_Conditions (r_status x) = [c] \<and> cMessage c = ''e''"
proof -
  have h: "rs_hist sample_checked = []" and c: "st_Conditions (r_status (rs_obj sample_checked)) = []"
    by (simp_all add: sample_checked_def request_samples)
  show ?thesis
    using FailWithStatusError_records_first_only [of storing_env sample_checked "Failure ''e''"] h c by auto
qed

lemma Finalize_releases_witness:
  "\<exists>x. rs_hist (snd (Finalize storing_env sample_checked)) = [EUpdate x] \<and> om_Finalizers (r_meta x) = []"
proof -
  have "rs_hist sample_checked = []" and "om_Finalizers (r_meta (rs_obj sample_checked)) = []"
    by (simp_all add: sample_checked_def request_samples)
  then show ?thesis using Finalize_releases [of storing_env sample_checked] by auto
qed

end
