(* ===== verification/Std.thy ===== *)
theory Std
  imports RawJson
begin

text \<open>
  What the controllers use of Go's standard library on strings: \<open>strings\<close> (Join, ReplaceAll,
  TrimSpace), \<open>strconv.ParseInt\<close>, the \<open>encoding/csv\<close> reader that splits commands, and
  \<open>encoding/json\<close>'s decoder (text is taken to be valid UTF-8).
\<close>

section \<open>strings\<close>

fun joined :: "string \<Rightarrow> string list \<Rightarrow> string" where
  "joined sep [] = []"
| "joined sep [x] = x"
| "joined sep (x # y # zs) = x @ sep @ joined sep (y # zs)"

fun ReplaceAll :: "string \<Rightarrow> string \<Rightarrow> string \<Rightarrow> string" where
  "ReplaceAll old new [] = []"
| "ReplaceAll old new (c # cs) =
     (if old \<noteq> [] \<and> take (length old) (c # cs) = old
      then new @ ReplaceAll old new (drop (length old - 1) cs)
      else c # ReplaceAll old new cs)"

definition is_space :: "char \<Rightarrow> bool" where
  "is_space c \<longleftrightarrow> c \<in> set [CHR 0x09, CHR 0x0A, CHR 0x0B, CHR 0x0C, CHR 0x0D, CHR 0x20]"

definition TrimSpace :: "string \<Rightarrow> string" where
  "TrimSpace s = rev (dropWhile is_space (rev (dropWhile is_space s)))"

lemma TrimSpace_Nil_iff: "TrimSpace s = [] \<longleftrightarrow> list_all is_space s"
proof -
  have "dropWhile is_space xs = [] \<longleftrightarrow> list_all is_space xs" for xs
    by (simp add: dropWhile_eq_Nil_conv list_all_iff)
  then have "TrimSpace s = [] \<longleftrightarrow> list_all is_space (dropWhile is_space s)"
    by (simp add: TrimSpace_def list_all_iff)
  also have "\<dots> \<longleftrightarrow> list_all is_space s"
    by (induction s) auto
  finally show ?thesis .
qed

definition dquote :: char where "dquote = CHR 0x22"
definition backslash :: char where "backslash = CHR 0x5C"
definition newline :: char where "newline = CHR 0x0A"

fun escaped :: "string \<Rightarrow> string" where
  "escaped [] = []"
| "escaped (c # cs) = (if c = dquote \<or> c = backslash then [backslash, c] else [c]) @ escaped cs"

definition quoted :: "string \<Rightarrow> string" where
  "quoted s = [dquote] @ escaped s @ [dquote]"

section \<open>strconv\<close>

definition is_digit :: "char \<Rightarrow> bool" where
  "is_digit c \<longleftrightarrow> 48 \<le> (of_char c :: nat) \<and> (of_char c :: nat) \<le> 57"

text \<open>\<open>ParseInt(s, 10, 32)\<close>: an optional sign, digits, and the range of 32 bits.\<close>

definition ParseInt32 :: "string \<Rightarrow> error + int" where
  "ParseInt32 s =
     (let (neg, ds) = (case s of c # cs \<Rightarrow> if c = CHR ''-'' then (True, cs)
                          else if c = CHR ''+'' then (False, cs) else (False, s)
                        | [] \<Rightarrow> (False, s));
          v = (if neg then - int (undigits ds) else int (undigits ds))
      in if ds = [] \<or> \<not> list_all is_digit ds
         then Inl (Failure (''strconv.ParseInt: parsing '' @ quoted s @ '': invalid syntax''))
         else if v < - (2 ^ 31) \<or> 2 ^ 31 \<le> v
         then Inl (Failure (''strconv.ParseInt: parsing '' @ quoted s @ '': value out of range''))
         else Inr v)"

lemma ParseInt32_range: "ParseInt32 s = Inr v \<Longrightarrow> - (2 ^ 31) \<le> v \<and> v < 2 ^ 31"
  by (auto simp: ParseInt32_def Let_def split: prod.splits if_splits)

lemma is_digit_digit [simp]: "d < 10 \<Longrightarrow> is_digit (digit d)"
  by (simp add: is_digit_def digit_def)

lemma nat_digits_digits: "list_all is_digit (nat_digits n)"
proof (induction n rule: nat_digits.induct)
  case (1 n)
  then show ?case
    by (cases "n < 10") (simp_all add: nat_digits.simps [of n])
qed

lemma nat_digits_Cons: "\<exists>c cs. nat_digits n = c # cs \<and> is_digit c"
  using nat_digits_digits [of n] nat_digits_not_Nil [of n] by (cases "nat_digits n") auto

lemma ParseInt32_itoa:
  assumes "- (2 ^ 31) \<le> v" and "v < 2 ^ 31"
  shows "ParseInt32 (itoa v) = Inr v"
proof (cases "v < 0")
  case True
  with assms show ?thesis
    by (simp add: ParseInt32_def itoa_def nat_digits_digits)
next
  case False
  obtain c cs where c: "nat_digits (nat v) = c # cs" "is_digit c" using nat_digits_Cons by blast
  then have "c \<noteq> CHR ''-''" "c \<noteq> CHR ''+''" by (auto simp: is_digit_def)
  moreover have "undigits (c # cs) = nat v" using undigits_nat_digits [of "nat v"] c by simp
  moreover have "list_all is_digit (c # cs)" using nat_digits_digits [of "nat v"] c by simp
  ultimately show ?thesis using False assms c
    by (simp add: ParseInt32_def itoa_def Let_def)
qed

section \<open>encoding/csv\<close>

text \<open>
  One record of a reader whose separator is a space: a field that opens with a quote runs to
  the closing one (a doubled quote stands for itself); a quote inside any other field is an
  error.  \<open>csv_quoted\<close> returns the rest after the field.
\<close>

fun csv_quoted :: "string \<Rightarrow> (string \<times> string) option" where
  "csv_quoted [] = None"
| "csv_quoted (c # cs) =
     (if c \<noteq> dquote then map_option (\<lambda>(f, r). (c # f, r)) (csv_quoted cs)
      else (case cs of
          d # ds \<Rightarrow> if d = dquote then map_option (\<lambda>(f, r). (dquote # f, r)) (csv_quoted ds) else Some ([], cs)
        | [] \<Rightarrow> Some ([], [])))"

definition csv_plain :: "string \<Rightarrow> string \<times> string" where
  "csv_plain s = (takeWhile (\<lambda>c. c \<noteq> CHR '' '') s, dropWhile (\<lambda>c. c \<noteq> CHR '' '') s)"

function csv_fields :: "string \<Rightarrow> error + string list" where
  "csv_fields s =
     (case (case s of
          c # cs \<Rightarrow> if c = dquote then csv_quoted cs
                    else if dquote \<in> set (fst (csv_plain s)) then None else Some (csv_plain s)
        | [] \<Rightarrow> Some ([], []))
      of None \<Rightarrow> Inl (Failure ''parse error: bare or extraneous quote'')
       | Some (f, []) \<Rightarrow> Inr [f]
       | Some (f, d # r) \<Rightarrow>
           if d = CHR '' '' \<and> length r < length s then map_sum id (\<lambda>fs. f # fs) (csv_fields r)
           else Inl (Failure ''parse error: bare or extraneous quote''))"
  by pat_completeness auto
termination by (relation "measure length") (auto split: if_splits)

declare csv_fields.simps [simp del]

text \<open>The reader skips blank lines and reads to the end of the first other line.\<close>

definition csv_read :: "string \<Rightarrow> error + string list" where
  "csv_read s =
     (let line = takeWhile (\<lambda>c. c \<noteq> newline) (dropWhile (\<lambda>c. c = newline) s)
      in if line = [] then Inl (Failure ''EOF'') else csv_fields line)"

lemma csv_fields_plain:
  assumes "dquote \<notin> set w" and "CHR '' '' \<notin> set w"
  shows "csv_fields w = Inr [w]"
proof -
  have "takeWhile (\<lambda>c. c \<noteq> CHR '' '') w = w" "dropWhile (\<lambda>c. c \<noteq> CHR '' '') w = []"
    using assms(2) by (auto simp: takeWhile_eq_all_conv dropWhile_eq_Nil_conv)
  with assms(1) show ?thesis
    by (subst csv_fields.simps) (cases w; auto simp: csv_plain_def)
qed

lemma csv_fields_word:
  assumes "dquote \<notin> set w" and "CHR '' '' \<notin> set w"
  shows "csv_fields (w @ CHR '' '' # r) = map_sum id (\<lambda>fs. w # fs) (csv_fields r)"
proof -
  let ?s = "w @ CHR '' '' # r"
  have tw: "takeWhile (\<lambda>c. c \<noteq> CHR '' '') ?s = w" "dropWhile (\<lambda>c. c \<noteq> CHR '' '') ?s = CHR '' '' # r"
    using assms(2) by (auto simp: takeWhile_append2 takeWhile_tail dropWhile_append3 dropWhile_eq_Nil_conv
        dropWhile_append2)
  then have p: "csv_plain ?s = (w, CHR '' '' # r)" by (simp add: csv_plain_def)
  have "CHR '' '' \<noteq> dquote" by (simp add: dquote_def)
  with assms(1) p show ?thesis
    by (subst csv_fields.simps) (cases w; auto split: sum.split)
qed

section \<open>encoding/json\<close>

fun skip_ws :: "string \<Rightarrow> string" where
  "skip_ws [] = []"
| "skip_ws (c # cs) = (if c \<in> set [CHR 0x09, CHR 0x0A, CHR 0x0D, CHR 0x20] then skip_ws cs else c # cs)"

definition hex_val :: "char \<Rightarrow> nat option" where
  "hex_val c = (let n = of_char c :: nat in
     if 48 \<le> n \<and> n \<le> 57 then Some (n - 48)
     else if 97 \<le> n \<and> n \<le> 102 then Some (n - 87)
     else if 65 \<le> n \<and> n \<le> 70 then Some (n - 55) else None)"

definition hex4 :: "string \<Rightarrow> nat option" where
  "hex4 s = (case map hex_val (take 4 s) of
     [Some a, Some b, Some c, Some d] \<Rightarrow> Some (((a * 16 + b) * 16 + c) * 16 + d) | _ \<Rightarrow> None)"

definition utf8 :: "nat \<Rightarrow> string" where
  "utf8 n = (if n < 0x80 then [char_of n]
     else if n < 0x800 then [char_of (0xC0 + n div 0x40), char_of (0x80 + n mod 0x40)]
     else if n < 0x10000 then [char_of (0xE0 + n div 0x1000), char_of (0x80 + n div 0x40 mod 0x40), char_of (0x80 + n mod 0x40)]
     else [char_of (0xF0 + n div 0x40000), char_of (0x80 + n div 0x1000 mod 0x40), char_of (0x80 + n div 0x40 mod 0x40),
       char_of (0x80 + n mod 0x40)])"

text \<open>A \<open>\u\<close> escape, after its first four digits: a surrogate pair is joined, a lone half is
  replaced by U+FFFD.  The second component is the number of further characters read.\<close>

definition u_escape :: "nat \<Rightarrow> string \<Rightarrow> string \<times> nat" where
  "u_escape n rest =
     (if 0xD800 \<le> n \<and> n < 0xE000 then
        (case (if take 2 rest = [backslash, CHR ''u''] then hex4 (drop 2 rest) else None) of
           Some m \<Rightarrow> if n < 0xDC00 \<and> 0xDC00 \<le> m \<and> m < 0xE000
                     then (utf8 (0x10000 + (n - 0xD800) * 0x400 + (m - 0xDC00)), 6) else (utf8 0xFFFD, 0)
         | None \<Rightarrow> (utf8 0xFFFD, 0))
      else (utf8 n, 0))"

definition simple_escape :: "char \<Rightarrow> char option" where
  "simple_escape c = map_of [(dquote, dquote), (backslash, backslash), (CHR ''/'', CHR ''/''),
     (CHR ''b'', CHR 0x08), (CHR ''f'', CHR 0x0C), (CHR ''n'', CHR 0x0A), (CHR ''r'', CHR 0x0D),
     (CHR ''t'', CHR 0x09)] c"

text \<open>The characters of a string after its opening quote, with the rest after the closing one.\<close>

fun json_chars :: "nat \<Rightarrow> string \<Rightarrow> (string \<times> string) option" where
  "json_chars 0 s = None"
| "json_chars (Suc n) [] = None"
| "json_chars (Suc n) (c # cs) =
     (if c = dquote then Some ([], cs)
      else if (of_char c :: nat) < 32 then None
      else if c \<noteq> backslash then map_option (\<lambda>(f, r). (c # f, r)) (json_chars n cs)
      else (case cs of
          [] \<Rightarrow> None
        | e # es \<Rightarrow>
            if e = CHR ''u'' then (case hex4 es of
                None \<Rightarrow> None
              | Some v \<Rightarrow> let (u, k) = u_escape v (drop 4 es)
                          in map_option (\<lambda>(f, r). (u @ f, r)) (json_chars n (drop (4 + k) es)))
            else (case simple_escape e of
                None \<Rightarrow> None
              | Some d \<Rightarrow> map_option (\<lambda>(f, r). (d # f, r)) (json_chars n es))))"

text \<open>A number: sign, digits without a leading zero, then fraction and exponent.\<close>

definition json_number :: "string \<Rightarrow> (json \<times> string) option" where
  "json_number s =
     (let sgn = takeWhile (\<lambda>c. c = CHR ''-'') s; s1 = dropWhile (\<lambda>c. c = CHR ''-'') s;
          ds = takeWhile is_digit s1; s2 = dropWhile is_digit s1;
          frac = (case s2 of c # r \<Rightarrow> if c = CHR ''.'' then Some (takeWhile is_digit r) else None | [] \<Rightarrow> None);
          s3 = (case frac of None \<Rightarrow> s2 | Some f \<Rightarrow> drop (Suc (length f)) s2);
          ex = (case s3 of c # r \<Rightarrow> if c = CHR ''e'' \<or> c = CHR ''E'' then Some r else None | [] \<Rightarrow> None);
          exs = (case ex of Some (c # r) \<Rightarrow> if c = CHR ''+'' \<or> c = CHR ''-'' then 1 else 0 | _ \<Rightarrow> (0::nat));
          exd = (case ex of None \<Rightarrow> [] | Some r \<Rightarrow> takeWhile is_digit (drop exs r));
          s4 = (case ex of None \<Rightarrow> s3 | Some r \<Rightarrow> drop (exs + length exd) r);
          lit = take (length s - length s4) s
      in if length sgn > 1 \<or> ds = [] \<or> (length ds > 1 \<and> hd ds = CHR ''0'')
           \<or> frac = Some [] \<or> (ex \<noteq> None \<and> exd = []) then None
         else if frac = None \<and> ex = None
         then Some (JInt (if sgn = [] then int (undigits ds) else - int (undigits ds)), s4)
         else Some (JNum lit, s4))"

text \<open>
  Values, elements of an array and members of an object.  The fuel bounds the nesting and the
  number of elements: every call reads at least one character, so the length of the text is
  enough.
\<close>

fun json_value :: "nat \<Rightarrow> string \<Rightarrow> (json \<times> string) option"
  and json_elems :: "nat \<Rightarrow> string \<Rightarrow> (json list \<times> string) option"
  and json_members :: "nat \<Rightarrow> string \<Rightarrow> ((string \<times> json) list \<times> string) option" where
  "json_value 0 s = None"
| "json_value (Suc n) s = (case skip_ws s of
     [] \<Rightarrow> None
   | c # r \<Rightarrow>
       if c = CHR ''{'' then (case skip_ws r of
           [] \<Rightarrow> None
         | d # r' \<Rightarrow> if d = CHR ''}'' then Some (JObj [], r')
                     else map_option (\<lambda>(kvs, t). (JObj kvs, t)) (json_members n (d # r')))
       else if c = CHR ''['' then (case skip_ws r of
           [] \<Rightarrow> None
         | d # r' \<Rightarrow> if d = CHR '']'' then Some (JArr [], r')
                     else map_option (\<lambda>(vs, t). (JArr vs, t)) (json_elems n (d # r')))
       else if c = dquote then map_option (\<lambda>(f, t). (JStr f, t)) (json_chars (length s) r)
       else if take 4 (c # r) = ''true'' then Some (JBool True, drop 4 (c # r))
       else if take 5 (c # r) = ''false'' then Some (JBool False, drop 5 (c # r))
       else if take 4 (c # r) = ''null'' then Some (JNull, drop 4 (c # r))
       else json_number (c # r))"
| "json_elems 0 s = None"
| "json_elems (Suc n) s = (case json_value n s of
     None \<Rightarrow> None
   | Some (v, t) \<Rightarrow> (case skip_ws t of
         [] \<Rightarrow> None
       | c # r \<Rightarrow> if c = CHR '']'' then Some ([v], r)
                  else if c = CHR '','' then map_option (\<lambda>(vs, t'). (v # vs, t')) (json_elems n r)
                  else None))"
| "json_members 0 s = None"
| "json_members (Suc n) s = (case skip_ws s of
     [] \<Rightarrow> None
   | q # r \<Rightarrow> if q \<noteq> dquote then None else (case json_chars (length s) r of
         None \<Rightarrow> None
       | Some (k, t) \<Rightarrow> (case skip_ws t of
             [] \<Rightarrow> None
           | c # t' \<Rightarrow> if c \<noteq> CHR '':'' then None else (case json_value n t' of
                 None \<Rightarrow> None
               | Some (v, u) \<Rightarrow> (case skip_ws u of
                     [] \<Rightarrow> None
                   | e # u' \<Rightarrow> if e = CHR ''}'' then Some ([(k, v)], u')
                              else if e = CHR '','' then map_option (\<lambda>(kvs, w). ((k, v) # kvs, w)) (json_members n u')
                              else None)))))"

definition json_parse :: "string \<Rightarrow> json option" where
  "json_parse s = (case json_value (Suc (length s)) s of
     Some (v, r) \<Rightarrow> if skip_ws r = [] then Some v else None
   | None \<Rightarrow> None)"

definition json_error :: error where
  "json_error = Failure ''invalid JSON''"

text \<open>
  Decoding into a struct: a member sets the field whose name it matches, ignoring case; null
  leaves it; a value of another type is an error, recorded while the decoding goes on.  The
  result is the field's text and whether an error was met.
\<close>

definition lower :: "string \<Rightarrow> string" where
  "lower = map (\<lambda>c. let n = of_char c :: nat in if 65 \<le> n \<and> n \<le> 90 then char_of (n + 32) else c)"

fun dec_string :: "string \<Rightarrow> (string \<times> json) list \<Rightarrow> string \<Rightarrow> string \<times> bool" where
  "dec_string name [] acc = (acc, False)"
| "dec_string name ((k, v) # kvs) acc =
     (if lower k = lower name then (case v of
          JStr t \<Rightarrow> dec_string name kvs t
        | JNull \<Rightarrow> dec_string name kvs acc
        | _ \<Rightarrow> (fst (dec_string name kvs acc), True))
      else dec_string name kvs acc)"

text \<open>A \<open>map[string]string\<close>: exact keys, the last member counts, and anything but a string reads
  as the zero value.\<close>

definition dec_map_entry :: "string \<Rightarrow> json option \<Rightarrow> string" where
  "dec_map_entry key j = (case j of
     Some (JObj kvs) \<Rightarrow> (case map_of (rev kvs) key of Some (JStr t) \<Rightarrow> t | _ \<Rightarrow> '''')
   | _ \<Rightarrow> '''')"

end
