(* ===== verification/Kubectl.thy ===== *)
theory Kubectl
  imports RequestProps Std
begin

text \<open>
  Commands run through a shell-like string, \<open>ExecCmd\<close> of \<open>lib/functions/kubectl.go\<close>, and the
  resource totals of \<open>lib/kresource/main.go\<close>, which parse what \<open>kubectl\<close> prints.  The labels of a
  selector are given in the order in which Go iterates over the map.
\<close>

section \<open>Running a command\<close>

definition ExecCmd :: "('sp, 'ev, 'z) kenv_scheme \<Rightarrow> string \<Rightarrow> ('sp, 'ev, 'lv, error + string) ract" where
  "ExecCmd E cmdString = (case csv_read cmdString of
     Inl e \<Rightarrow> ret (Inl e)
   | Inr cmdArr \<Rightarrow> andThen (ask (EExec cmdArr) (k_exec E)) (\<lambda>r. ret (case r of
         ExecOk out \<Rightarrow> Inr out
       | ExecExit code stderr \<Rightarrow> Inl (Failure (''exit status '' @ itoa code))
       | ExecFail m \<Rightarrow> Inl (Failure m))))"

text \<open>
  What the other wrappers report of a command that fails: its standard error, which is taken for
  a format and is supposed to have no verbs, and the reason.
\<close>

definition kubectl_error :: "exec_result \<Rightarrow> error + string" where
  "kubectl_error r = (case r of
     ExecOk out \<Rightarrow> Inr out
   | ExecExit code stderr \<Rightarrow> Inl (Failure (stderr @ '' as exit status '' @ itoa code))
   | ExecFail m \<Rightarrow> Inl (Failure ('' as '' @ m)))"

definition KubectlGet :: "('sp, 'ev, 'z) kenv_scheme \<Rightarrow> string \<Rightarrow> string \<Rightarrow> ('sp, 'ev, 'lv, error + string) ract" where
  "KubectlGet E namespace resourceRef = andThen
     (ask (EExec [''kubectl'', ''get'', ''-o'', ''json'', ''-n'', namespace, resourceRef]) (k_exec E)) (\<lambda>r. ret (kubectl_error r))"

definition KubectlDelete :: "('sp, 'ev, 'z) kenv_scheme \<Rightarrow> string \<Rightarrow> string \<Rightarrow> ('sp, 'ev, 'lv, error option) ract" where
  "KubectlDelete E namespace resourceRef = andThen
     (ask (EExec [''kubectl'', ''delete'', ''-n'', namespace, resourceRef]) (k_exec E)) (\<lambda>r. ret (case kubectl_error r of
       Inl e \<Rightarrow> Some e | Inr _ \<Rightarrow> None))"

lemma ExecCmd_total: "\<exists>r t. ExecCmd E cmd s = (Ret r, t) \<and> rs_obj t = rs_obj s \<and> rs_locals t = rs_locals s"
  by (auto simp: ExecCmd_def andThen_apply ask_def ret_def split: sum.split)

lemma keeps_emits_ExecCmd [keeps_intros]:
  assumes "exec_ok Q"
  shows "keeps (emits Q) (ExecCmd E cmd)"
proof -
  have Q: "Q (EExec x)" for x using assms by (simp add: exec_ok_def)
  show ?thesis unfolding ExecCmd_def by (auto intro!: keeps_intros Q split: sum.split)
qed

section \<open>Resource totals\<close>

record kres =
  res_Cpu :: int
  res_Memory :: int

definition label_selector :: "(string \<times> string) list \<Rightarrow> string" where
  "label_selector labels = '' -l '' @ joined '','' (map (\<lambda>(k, v). k @ ''='' @ v) labels)"

text \<open>An element of the decoded slice, its \<open>Cpu\<close> and \<open>Memory\<close>, and whether its decoding failed.\<close>

definition dec_resource :: "json \<Rightarrow> (string \<times> string) \<times> bool" where
  "dec_resource j = (case j of
     JObj kvs \<Rightarrow> (let (c, e1) = dec_string ''Cpu'' kvs ''''; (m, e2) = dec_string ''Memory'' kvs ''''
                  in ((c, m), e1 \<or> e2))
   | JNull \<Rightarrow> (('''', ''''), False)
   | _ \<Rightarrow> (('''', ''''), True))"

definition dec_resources :: "string \<Rightarrow> error + (string \<times> string) list" where
  "dec_resources out = (case json_parse out of
     Some (JArr vs) \<Rightarrow> if list_ex (\<lambda>v. snd (dec_resource v)) vs then Inl json_error
                      else Inr (map (\<lambda>v. fst (dec_resource v)) vs)
   | Some JNull \<Rightarrow> Inr []
   | _ \<Rightarrow> Inl json_error)"

fun sum_requests :: "(string \<times> string) list \<Rightarrow> kres \<Rightarrow> error + kres" where
  "sum_requests [] acc = Inr acc"
| "sum_requests ((cpu, memory) # rs) acc =
     (let m = ReplaceAll ''Mi'' '''' memory; c = ReplaceAll ''m'' '''' cpu in
      case (if TrimSpace m \<noteq> '''' then ParseInt32 m else Inr 0) of
        Inl e \<Rightarrow> Inl e
      | Inr mem \<Rightarrow> (case (if TrimSpace c \<noteq> '''' then ParseInt32 c else Inr 0) of
            Inl e \<Rightarrow> Inl e
          | Inr cp \<Rightarrow> sum_requests rs \<lparr>res_Cpu = w64 (res_Cpu acc + cp), res_Memory = w64 (res_Memory acc + mem)\<rparr>))"

definition pod_request_cmd :: "(string \<times> string) list \<Rightarrow> string \<Rightarrow> string" where
  "pod_request_cmd labels limitOrRequest =
     ''kubectl get pods -A -o jsonpath-as-json={.items[*].spec.containers[*].resources.'' @ limitOrRequest
     @ ''}'' @ label_selector labels"

definition GetTotalPodRequest :: "('sp, 'ev, 'z) kenv_scheme \<Rightarrow> (string \<times> string) list \<Rightarrow> string
    \<Rightarrow> ('sp, 'ev, 'lv, error + kres) ract" where
  "GetTotalPodRequest E labels limitOrRequest =
     andThen (ExecCmd E (pod_request_cmd labels limitOrRequest)) (\<lambda>r. case r of
       Inl e \<Rightarrow> ret (Inl e)
     | Inr out \<Rightarrow> ret (case dec_resources out of
           Inl e \<Rightarrow> Inl e
         | Inr rs \<Rightarrow> sum_requests rs \<lparr>res_Cpu = 0, res_Memory = 0\<rparr>))"

fun sum_allocatable :: "(string \<times> string) list \<Rightarrow> kres \<Rightarrow> error + kres" where
  "sum_allocatable [] acc = Inr acc"
| "sum_allocatable ((cpu, memory) # rs) acc =
     (let m = ReplaceAll ''Ki'' '''' memory; c = ReplaceAll ''m'' '''' cpu in
      case (if TrimSpace m \<noteq> '''' then ParseInt32 m else Inr 0) of
        Inl e \<Rightarrow> Inl e
      | Inr mem \<Rightarrow> (case (if TrimSpace cpu \<noteq> '''' then
              (case ParseInt32 c of Inl e \<Rightarrow> Inl e | Inr v \<Rightarrow> Inr (if c \<noteq> cpu then v else w64 (v * 1000)))
              else Inr 0) of
            Inl e \<Rightarrow> Inl e
          | Inr cp \<Rightarrow> sum_allocatable rs \<lparr>res_Cpu = w64 (res_Cpu acc + cp), res_Memory = w64 (res_Memory acc + mem)\<rparr>))"

definition GetTotalResource :: "('sp, 'ev, 'z) kenv_scheme \<Rightarrow> (string \<times> string) list
    \<Rightarrow> ('sp, 'ev, 'lv, error + kres) ract" where
  "GetTotalResource E labels =
     andThen (ExecCmd E (''kubectl get nodes -o jsonpath-as-json={.items[*].status.allocatable}''
         @ label_selector labels)) (\<lambda>r. case r of
       Inl e \<Rightarrow> ret (Inl e)
     | Inr out \<Rightarrow> ret (case dec_resources out of
           Inl e \<Rightarrow> Inl e
         | Inr rs \<Rightarrow> (case sum_allocatable rs \<lparr>res_Cpu = 0, res_Memory = 0\<rparr> of
               Inl e \<Rightarrow> Inl e
             | Inr acc \<Rightarrow> Inr (acc\<lparr>res_Memory := res_Memory acc sdiv 1024\<rparr>))))"

lemma keeps_emits_GetTotalPodRequest [keeps_intros]:
  "exec_ok Q \<Longrightarrow> keeps (emits Q) (GetTotalPodRequest E labels lr)"
  unfolding GetTotalPodRequest_def by (auto intro!: keeps_intros split: sum.split)

lemma GetTotalPodRequest_total:
  "\<exists>r t. GetTotalPodRequest E labels lr s = (Ret r, t) \<and> rs_obj t = rs_obj s \<and> rs_locals t = rs_locals s"
proof -
  obtain r t where "ExecCmd E (pod_request_cmd labels lr) s = (Ret r, t)"
    and "rs_obj t = rs_obj s" and "rs_locals t = rs_locals s" using ExecCmd_total by blast
  then show ?thesis by (auto simp: GetTotalPodRequest_def ret_def split: sum.split)
qed

section \<open>Units\<close>

lemma ReplaceAll_absent:
  "hd old \<notin> set s \<Longrightarrow> ReplaceAll old new s = s"
proof (induction s)
  case (Cons c cs)
  have "take (length old) (c # cs) \<noteq> old" if "old \<noteq> []"
    using that Cons.prems by (cases old) auto
  with Cons show ?case by auto
qed simp

lemma ReplaceAll_suffix:
  assumes "hd old \<notin> set s" and "old \<noteq> []"
  shows "ReplaceAll old new (s @ old) = s @ new"
  using assms(1)
proof (induction s)
  case Nil
  then show ?case using assms(2) by (cases old) auto
next
  case (Cons c cs)
  have "take (length old) ((c # cs) @ old) \<noteq> old"
    using Cons.prems assms(2) by (cases old) auto
  with Cons show ?case by simp
qed

lemma itoa_chars: "c \<in> set (itoa v) \<Longrightarrow> is_digit c \<or> c = CHR ''-''"
  using nat_digits_digits [of "nat v"] nat_digits_digits [of "nat (- v)"]
  by (auto simp: itoa_def list_all_iff split: if_splits)

lemma itoa_not_letter: "\<not> is_digit c \<Longrightarrow> c \<noteq> CHR ''-'' \<Longrightarrow> c \<notin> set (itoa v)"
  using itoa_chars by blast

lemma letters_not_digits [simp]:
  "\<not> is_digit (CHR ''M'')" "\<not> is_digit (CHR ''m'')" "\<not> is_digit (CHR ''K'')" "\<not> is_digit (CHR ''G'')"
  by (simp_all add: is_digit_def)

lemma itoa_not_blank: "TrimSpace (itoa v) \<noteq> ''''"
proof -
  obtain c cs where c: "nat_digits (nat \<bar>v\<bar>) = c # cs" "is_digit c" using nat_digits_Cons by blast
  then have "c \<in> set (itoa v)" by (cases "v < 0") (simp_all add: itoa_def)
  moreover have "\<not> is_space c" using c(2) by (auto simp: is_digit_def is_space_def)
  ultimately show ?thesis by (auto simp: TrimSpace_Nil_iff list_all_iff)
qed

lemma unit_Mi: "ReplaceAll ''Mi'' '''' (itoa v @ ''Mi'') = itoa v"
  using ReplaceAll_suffix [of "''Mi''" "itoa v" "''''"] by (simp add: itoa_not_letter)

lemma unit_m: "ReplaceAll ''m'' '''' (itoa v @ ''m'') = itoa v"
  using ReplaceAll_suffix [of "''m''" "itoa v" "''''"] by (simp add: itoa_not_letter)

lemma no_unit: "ReplaceAll ''m'' '''' (itoa v) = itoa v" "ReplaceAll ''Mi'' '''' (itoa v) = itoa v"
  by (intro ReplaceAll_absent; simp add: itoa_not_letter)+

definition in32 :: "int \<Rightarrow> bool" where
  "in32 v \<longleftrightarrow> - (2 ^ 31) \<le> v \<and> v < 2 ^ 31"

text \<open>A request written in the units the code expects: millicores and mebibytes.\<close>

definition plain_request :: "int \<times> int \<Rightarrow> string \<times> string" where
  "plain_request p = (itoa (fst p) @ ''m'', itoa (snd p) @ ''Mi'')"

lemma sum_requests_plain:
  assumes "\<forall>(c, m) \<in> set ps. 0 \<le> c \<and> in32 c \<and> 0 \<le> m \<and> in32 m"
    and "0 \<le> res_Cpu acc" and "0 \<le> res_Memory acc"
    and "res_Cpu acc + int (length ps) * 2 ^ 31 < 2 ^ 63" and "res_Memory acc + int (length ps) * 2 ^ 31 < 2 ^ 63"
  shows "sum_requests (map plain_request ps) acc
    = Inr \<lparr>res_Cpu = res_Cpu acc + sum_list (map fst ps), res_Memory = res_Memory acc + sum_list (map snd ps)\<rparr>"
  using assms
proof (induction ps arbitrary: acc)
  case (Cons p ps)
  obtain c m where p: "p = (c, m)" by fastforce
  have cm: "0 \<le> c" "in32 c" "0 \<le> m" "in32 m" using Cons.prems(1) p by auto
  then have b: "c < 2 ^ 31" "m < 2 ^ 31" by (simp_all add: in32_def)
  have "ParseInt32 (itoa c) = Inr c" "ParseInt32 (itoa m) = Inr m"
    using cm by (intro ParseInt32_itoa; simp add: in32_def)+
  moreover have "w64 (res_Cpu acc + c) = res_Cpu acc + c" "w64 (res_Memory acc + m) = res_Memory acc + m"
    using Cons.prems b cm by (intro w64_id; simp)+
  ultimately show ?case
    using Cons.IH [of "\<lparr>res_Cpu = res_Cpu acc + c, res_Memory = res_Memory acc + m\<rparr>"] Cons.prems p b cm
    by (simp add: plain_request_def unit_Mi unit_m itoa_not_blank algebra_simps)
qed simp

lemma sum_requests_fails:
  assumes "ParseInt32 (ReplaceAll ''Mi'' '''' mem) = Inl e" and "TrimSpace (ReplaceAll ''Mi'' '''' mem) \<noteq> ''''"
    and "(cpu, mem) \<in> set rs"
  shows "\<exists>e. sum_requests rs acc = Inl e"
  using assms(3)
proof (induction rs arbitrary: acc)
  case (Cons r rs)
  obtain c m where r: "r = (c, m)" by fastforce
  show ?case
  proof (cases "(cpu, mem) = (c, m)")
    case True
    then show ?thesis using r assms by (simp add: Let_def)
  next
    case False
    then have "(cpu, mem) \<in> set rs" using Cons.prems r by auto
    then show ?thesis using Cons.IH r by (auto simp: Let_def split: sum.split)
  qed
qed simp

lemma ParseInt32_unit:
  assumes "\<not> is_digit c" "c \<noteq> CHR ''-''" "c \<noteq> CHR ''+''"
  shows "\<exists>e. ParseInt32 (itoa v @ c # cs) = Inl e"
proof -
  have tail: "\<not> list_all is_digit (ds @ c # cs)" for ds using assms(1) by simp
  show ?thesis
  proof (cases "v < 0")
    case True
    then show ?thesis using tail by (auto simp: ParseInt32_def itoa_def Let_def)
  next
    case False
    obtain d ds where "nat_digits (nat v) = d # ds" "is_digit d" using nat_digits_Cons by blast
    then show ?thesis using False assms(1) by (auto simp: ParseInt32_def itoa_def Let_def is_digit_def)
  qed
qed

section \<open>Properties\<close>

text \<open>C20. The load of a pool is the sum of its containers' requests: when the command succeeds and
  every container asks in millicores and mebibytes, the totals returned are the sums, and the
  command run is the one for the given labels.\<close>

theorem GetTotalPodRequest_sums:
  assumes "csv_read (pod_request_cmd labels lr) = Inr argv"
    and "k_exec E (rs_hist s @ [EExec argv]) = ExecOk out"
    and "dec_resources out = Inr (map plain_request ps)"
    and "\<forall>(c, m) \<in> set ps. 0 \<le> c \<and> in32 c \<and> 0 \<le> m \<and> in32 m" and "int (length ps) < 2 ^ 31"
  shows "GetTotalPodRequest E labels lr s
    = (Ret (Inr \<lparr>res_Cpu = sum_list (map fst ps), res_Memory = sum_list (map snd ps)\<rparr>),
       s\<lparr>rs_hist := rs_hist s @ [EExec argv]\<rparr>)"
  using assms sum_requests_plain [OF assms(4), of "\<lparr>res_Cpu = 0, res_Memory = 0\<rparr>"]
  by (simp add: GetTotalPodRequest_def ExecCmd_def andThen_apply ask_def ret_def)

text \<open>A single container that asks for memory in another unit than \<open>Mi\<close>, for instance
  \<open>Gi\<close>, makes the total fail, so that the pool it runs in is not scaled at all.\<close>

theorem GetTotalPodRequest_rejects_other_units:
  assumes "csv_read (pod_request_cmd labels lr) = Inr argv"
    and "k_exec E (rs_hist s @ [EExec argv]) = ExecOk out"
    and "dec_resources out = Inr rs" and "(cpu, itoa v @ ''Gi'') \<in> set rs"
  shows "\<exists>e. fst (GetTotalPodRequest E labels lr s) = Ret (Inl e)"
proof -
  have keep: "ReplaceAll ''Mi'' '''' (itoa v @ ''Gi'') = itoa v @ ''Gi''"
    by (rule ReplaceAll_absent) (simp add: itoa_not_letter)
  obtain e where "ParseInt32 (itoa v @ ''Gi'') = Inl e" using ParseInt32_unit [of "CHR ''G''" v "''i''"] by auto
  moreover have "TrimSpace (itoa v @ ''Gi'') \<noteq> ''''"
    using itoa_not_blank [of v] by (simp add: TrimSpace_Nil_iff)
  ultimately obtain e' where "sum_requests rs \<lparr>res_Cpu = 0, res_Memory = 0\<rparr> = Inl e'"
    using sum_requests_fails [OF _ _ assms(4)] unfolding keep by metis
  with assms show ?thesis
    by (simp add: GetTotalPodRequest_def ExecCmd_def andThen_apply ask_def ret_def)
qed

text \<open>Whole cores are counted inconsistently: a request of \<open>v\<close> cores adds \<open>v\<close> to the total
  of the pods' millicores, while a node that offers \<open>v\<close> cores adds \<open>1000 * v\<close>.\<close>

theorem cores_are_counted_as_millicores:
  assumes "0 \<le> v" and "in32 v"
  shows "sum_requests [(itoa v, '''')] \<lparr>res_Cpu = 0, res_Memory = 0\<rparr> = Inr \<lparr>res_Cpu = v, res_Memory = 0\<rparr>
    \<and> sum_allocatable [(itoa v, '''')] \<lparr>res_Cpu = 0, res_Memory = 0\<rparr> = Inr \<lparr>res_Cpu = 1000 * v, res_Memory = 0\<rparr>"
proof -
  have "ParseInt32 (itoa v) = Inr v" using assms by (intro ParseInt32_itoa) (simp_all add: in32_def)
  moreover have "w64 v = v" "w64 (v * 1000) = v * 1000" using assms by (intro w64_id; simp add: in32_def)+
  moreover have "TrimSpace '''' = ''''" by (simp add: TrimSpace_Nil_iff)
  ultimately show ?thesis by (simp add: no_unit itoa_not_blank Let_def)
qed

section \<open>Witnesses\<close>

definition sample_output :: "string \<Rightarrow> string" where
  "sample_output mem = [CHR ''['', CHR ''{'', dquote] @ ''cpu'' @ [dquote, CHR '':'', dquote] @ ''250m'' @ [dquote, CHR '','', dquote]
     @ ''memory'' @ [dquote, CHR '':'', dquote] @ mem @ [dquote, CHR ''}'', CHR '']'']"

lemma sample_output_decodes:
  "dec_resources (sample_output ''128Mi'') = Inr (map plain_request [(250, 128)])"
  "dec_resources (sample_output ''2Gi'') = Inr [(''250m'', ''2Gi'')]"
  by code_simp+

definition sample_labels :: "(string \<times> string) list" where
  "sample_labels = [(''kloudlite.io/region'', ''edge'')]"

definition sample_argv :: "string list" where
  "sample_argv = [''kubectl'', ''get'', ''pods'', ''-A'', ''-o'',
     ''jsonpath-as-json={.items[*].spec.containers[*].resources.requests}'', ''-l'', ''kloudlite.io/region=edge'']"

lemma sample_cmd: "csv_read (pod_request_cmd sample_labels ''requests'') = Inr sample_argv"
  by code_simp

definition printing_env :: "string \<Rightarrow> (unit, unit) kenv" where
  "printing_env out = storing_env\<lparr>k_exec := (\<lambda>_. ExecOk out)\<rparr>"

lemma printing_env_exec: "k_exec (printing_env out) h = ExecOk out"
  by (simp add: printing_env_def)

lemma GetTotalPodRequest_sums_witness:
  "fst (GetTotalPodRequest (printing_env (sample_output ''128Mi'')) sample_labels ''requests''
      (sample_state () :: (unit, unit, unit) rstate)) = Ret (Inr \<lparr>res_Cpu = 250, res_Memory = 128\<rparr>)"
  using GetTotalPodRequest_sums [OF sample_cmd printing_env_exec sample_output_decodes(1),
      of "sample_state () :: (unit, unit, unit) rstate"]
  by (simp add: in32_def)

lemma GetTotalPodRequest_rejects_other_units_witness:
  "\<exists>e. fst (GetTotalPodRequest (printing_env (sample_output ''2Gi'')) sample_labels ''requests''
      (sample_state () :: (unit, unit, unit) rstate)) = Ret (Inl e)"
proof -
  have "(''250m'', itoa 2 @ ''Gi'') \<in> set [(''250m'', ''2Gi'')]" by code_simp
  then show ?thesis
    by (rule GetTotalPodRequest_rejects_other_units [OF sample_cmd printing_env_exec sample_output_decodes(2)])
qed

lemma cores_are_counted_as_millicores_witness:
  "sum_requests [(itoa 2, '''')] \<lparr>res_Cpu = 0, res_Memory = 0\<rparr> = Inr \<lparr>res_Cpu = 2, res_Memory = 0\<rparr>
    \<and> sum_allocatable [(itoa 2, '''')] \<lparr>res_Cpu = 0, res_Memory = 0\<rparr> = Inr \<lparr>res_Cpu = 2000, res_Memory = 0\<rparr>"
  using cores_are_counted_as_millicores [of 2] by (simp add: in32_def)

end
