(* ===== verification/ApiTypes.thy ===== *)
theory ApiTypes
  imports Kubectl
begin

text \<open>
  The custom resources: the specs of \<open>apis/infra/v1\<close> and \<open>apis/management/v1\<close> and the labels
  and annotations each kind ensures.  A map literal is listed in the order of the source; its
  keys are distinct, so the order has no meaning.
\<close>

section \<open>Keys\<close>

definition AccountNameKey :: string where "AccountNameKey = ''kloudlite.io/account.name''"
definition EdgeNameKey :: string where "EdgeNameKey = ''kloudlite.io/edge.name''"
definition DeviceWgKey :: string where "DeviceWgKey = ''kloudlite.io/is-wg-key''"
definition WgService :: string where "WgService = ''kloudlite.io/wg-service''"
definition WgDeploy :: string where "WgDeploy = ''kloudlite.io/wg-deployment''"
definition WgDomain :: string where "WgDomain = ''kloudlite.io/wg-domain''"
definition ProviderNameKey :: string where "ProviderNameKey = ''kloudlite.io/provider.name''"
definition NodePoolKey :: string where "NodePoolKey = ''kloudlite.io/node-pool''"
definition RegionKey :: string where "RegionKey = ''kloudlite.io/region''"
definition NodeIndex :: string where "NodeIndex = ''kloudlite.io/node-index''"
definition NodeIps :: string where "NodeIps = ''kloudlite.io/node-ips''"
definition GroupVersionKind :: string where "GroupVersionKind = ''kloudlite.io/group-version-kind''"
definition MainNs :: string where "MainNs = ''kl-core''"

lemmas key_defs = AccountNameKey_def EdgeNameKey_def DeviceWgKey_def WgService_def WgDeploy_def WgDomain_def
  ProviderNameKey_def NodePoolKey_def RegionKey_def NodeIndex_def NodeIps_def GroupVersionKind_def

section \<open>Node pools\<close>

record nodepool_spec =
  np_AccountName :: string
  np_ClusterName :: string
  np_EdgeName :: string
  np_Provider :: string
  np_ProviderName :: string
  np_Region :: string
  np_Config :: string
  np_Min :: int
  np_Max :: int

definition NodePool_annotations :: "nodepool_spec resource \<Rightarrow> (string \<times> string) list" where
  "NodePool_annotations a = [
     (''min-max'', itoa (np_Min (r_spec a)) @ ''/'' @ itoa (np_Max (r_spec a))),
     (''provider-region'', np_Provider (r_spec a) @ ''/'' @ np_Region (r_spec a))]"

definition NodePool_labels :: "nodepool_spec resource \<Rightarrow> (string \<times> string) list" where
  "NodePool_labels a = [
     (''kloudlite.io/node-pool'', om_Name (r_meta a)),
     (''kloudlite.io/provider.name'', np_ProviderName (r_spec a))]"

definition NodePool_methods :: "nodepool_spec methods" where
  "NodePool_methods = \<lparr>GetEnsuredLabels = NodePool_labels, GetEnsuredAnnotations = NodePool_annotations\<rparr>"

lemma NodePool_stable: "stable_methods NodePool_methods"
  by (simp add: stable_methods_def NodePool_methods_def NodePool_labels_def NodePool_annotations_def
      ClearStatusKey_def RestartKey_def)

section \<open>Worker nodes\<close>

record workernode_spec =
  wn_Stateful :: bool
  wn_ClusterName :: string
  wn_AccountName :: string
  wn_Region :: string
  wn_EdgeName :: string
  wn_Provider :: string
  wn_ProviderName :: string
  wn_Config :: string
  wn_Pool :: string
  wn_Index :: int

text \<open>The instance named by a node's configuration, a JSON object of strings; the error of the
  decoder is ignored.\<close>

definition config_entry :: "string \<Rightarrow> string \<Rightarrow> string" where
  "config_entry key config = dec_map_entry key (json_parse config)"

definition WorkerNode_annotations :: "workernode_spec resource \<Rightarrow> (string \<times> string) list" where
  "WorkerNode_annotations a =
     (let sp = r_spec a;
          instnce = (if wn_Provider sp = ''aws'' then config_entry ''instanceType'' (wn_Config sp)
                     else if wn_Provider sp = ''do'' then config_entry ''size'' (wn_Config sp) else '''')
      in [(''instanceType'', wn_Provider sp @ ''/'' @ wn_Region sp @ (if instnce \<noteq> '''' then ''/'' @ instnce else instnce))])"

definition WorkerNode_labels :: "workernode_spec resource \<Rightarrow> (string \<times> string) list" where
  "WorkerNode_labels a = [
     (''kloudlite.io/account-node.name'', om_Name (r_meta a)),
     (AccountNameKey, wn_AccountName (r_spec a)),
     (''kloudlite.io/region'', wn_EdgeName (r_spec a)),
     (NodePoolKey, wn_Pool (r_spec a)),
     (NodeIndex, itoa (wn_Index (r_spec a))),
     (''kloudlite.io/provider.name'', wn_ProviderName (r_spec a))]"

definition WorkerNode_methods :: "workernode_spec methods" where
  "WorkerNode_methods = \<lparr>GetEnsuredLabels = WorkerNode_labels, GetEnsuredAnnotations = WorkerNode_annotations\<rparr>"

lemma WorkerNode_stable: "stable_methods WorkerNode_methods"
  by (simp add: stable_methods_def WorkerNode_methods_def WorkerNode_labels_def WorkerNode_annotations_def
      ClearStatusKey_def RestartKey_def key_defs Let_def)

section \<open>Edges\<close>

record pool =
  pl_Name :: string
  pl_Config :: string
  pl_Min :: int
  pl_Max :: int

record edge_spec =
  eg_AccountName :: string
  eg_Provider :: string
  eg_Region :: string
  eg_ProviderName :: string
  eg_ClusterName :: string
  eg_Pools :: "pool list"

definition Edge_annotations :: "edge_spec resource \<Rightarrow> (string \<times> string) list" where
  "Edge_annotations a = [
     (GroupVersionKind, ''infra.kloudlite.io/v1, Kind=Edge''),
     (''node-pools-count'', itoa (int (length (eg_Pools (r_spec a)))))]"

definition Edge_labels :: "edge_spec resource \<Rightarrow> (string \<times> string) list" where
  "Edge_labels a = [
     (''kloudlite.io/provider'', eg_Provider (r_spec a)),
     (''kloudlite.io/account.name'', eg_AccountName (r_spec a)),
     (''kloudlite.io/edge.name'', om_Name (r_meta a)),
     (''kloudlite.io/provider.name'', eg_ProviderName (r_spec a))]"

definition Edge_methods :: "edge_spec methods" where
  "Edge_methods = \<lparr>GetEnsuredLabels = Edge_labels, GetEnsuredAnnotations = Edge_annotations\<rparr>"

lemma Edge_stable: "stable_methods Edge_methods"
  by (simp add: stable_methods_def Edge_methods_def Edge_labels_def Edge_annotations_def
      ClearStatusKey_def RestartKey_def key_defs)

section \<open>Cloud providers\<close>

type_synonym cloudprovider_spec = unit

definition CloudProvider_annotations :: "cloudprovider_spec resource \<Rightarrow> (string \<times> string) list" where
  "CloudProvider_annotations a = [(GroupVersionKind, ''infra.kloudlite.io/v1, Kind=CloudProvider'')]"

definition CloudProvider_labels :: "cloudprovider_spec resource \<Rightarrow> (string \<times> string) list" where
  "CloudProvider_labels a = [(''kloudlite.io/provider.name'', om_Name (r_meta a))]"

definition CloudProvider_methods :: "cloudprovider_spec methods" where
  "CloudProvider_methods = \<lparr>GetEnsuredLabels = CloudProvider_labels, GetEnsuredAnnotations = CloudProvider_annotations\<rparr>"

lemma CloudProvider_stable: "stable_methods CloudProvider_methods"
  by (simp add: stable_methods_def CloudProvider_methods_def CloudProvider_labels_def CloudProvider_annotations_def
      ClearStatusKey_def RestartKey_def key_defs)

section \<open>Domains and regions\<close>

record domain_spec =
  dm_Name :: string
  dm_Ips :: "string list"

definition Domain_annotations :: "domain_spec resource \<Rightarrow> (string \<times> string) list" where
  "Domain_annotations a = []"

definition Domain_labels :: "domain_spec resource \<Rightarrow> (string \<times> string) list" where
  "Domain_labels a = []"

definition Domain_methods :: "domain_spec methods" where
  "Domain_methods = \<lparr>GetEnsuredLabels = Domain_labels, GetEnsuredAnnotations = Domain_annotations\<rparr>"

lemma Domain_stable: "stable_methods Domain_methods"
  by (simp add: stable_methods_def Domain_methods_def Domain_labels_def Domain_annotations_def)

record region_spec =
  rg_AccountName :: string
  rg_IsMaster :: bool

definition Region_annotations :: "region_spec resource \<Rightarrow> (string \<times> string) list" where
  "Region_annotations a = []"

definition Region_labels :: "region_spec resource \<Rightarrow> (string \<times> string) list" where
  "Region_labels a = [
     (''kloudlite.io/region'', om_Name (r_meta a)),
     (''kloudlite.io/account.name'', rg_AccountName (r_spec a))]"

definition Region_methods :: "region_spec methods" where
  "Region_methods = \<lparr>GetEnsuredLabels = Region_labels, GetEnsuredAnnotations = Region_annotations\<rparr>"

lemma Region_stable: "stable_methods Region_methods"
  by (simp add: stable_methods_def Region_methods_def Region_labels_def Region_annotations_def)

section \<open>Devices and accounts\<close>

record port =
  pt_Port :: int
  pt_TargetPort :: int

record device_spec =
  dv_AccountName :: string
  dv_ActiveRegion :: string
  dv_Offset :: int
  dv_Ports :: "port list"

text \<open>\<open>ip\<close> is the address library's increment of \<open>10.13.0.0\<close>.\<close>

definition getRemoteDeviceIp :: "(int \<Rightarrow> error + string) \<Rightarrow> int \<Rightarrow> error + string" where
  "getRemoteDeviceIp ip deviceOffset = ip (w64 (deviceOffset + 2))"

definition Device_annotations :: "(int \<Rightarrow> error + string) \<Rightarrow> device_spec resource \<Rightarrow> (string \<times> string) list" where
  "Device_annotations ip d = [
     (GroupVersionKind, ''management.kloudlite.io/v1, Kind=Device''),
     (''ip'', case getRemoteDeviceIp ip (dv_Offset (r_spec d)) of Inl e \<Rightarrow> '''' | Inr a \<Rightarrow> a)]"

definition Device_labels :: "device_spec resource \<Rightarrow> (string \<times> string) list" where
  "Device_labels d = [
     (''kloudlite.io/device.name'', om_Name (r_meta d)),
     (''kloudlite.io/account.name'', dv_AccountName (r_spec d))]"

definition Device_methods :: "(int \<Rightarrow> error + string) \<Rightarrow> device_spec methods" where
  "Device_methods ip = \<lparr>GetEnsuredLabels = Device_labels, GetEnsuredAnnotations = Device_annotations ip\<rparr>"

lemma Device_stable: "stable_methods (Device_methods ip)"
  by (simp add: stable_methods_def Device_methods_def Device_labels_def Device_annotations_def
      ClearStatusKey_def RestartKey_def key_defs)

record account_spec =
  ac_OwnedDomains :: "string list"

definition Account_annotations :: "account_spec resource \<Rightarrow> (string \<times> string) list" where
  "Account_annotations a = []"

definition Account_labels :: "account_spec resource \<Rightarrow> (string \<times> string) list" where
  "Account_labels a = [(''kloudlite.io/account-name'', om_Name (r_meta a))]"

definition Account_methods :: "account_spec methods" where
  "Account_methods = \<lparr>GetEnsuredLabels = Account_labels, GetEnsuredAnnotations = Account_annotations\<rparr>"

lemma Account_stable: "stable_methods Account_methods"
  by (simp add: stable_methods_def Account_methods_def Account_labels_def Account_annotations_def)

end
