(* ===== verification/RCalculate.thy ===== *)
theory RCalculate
  imports Prelude
begin

text \<open>
  The autoscaler's decision: \<open>lib/rcalculate/main.go\<close>.  The input is the state of the
  computation, since two of its methods cache their result in it.  Logging is left out, but
  the calls made only to be logged are kept, because one of them can divide by zero.  The
  fields \<open>index\<close>, \<open>statefulThreshold\<close> and \<open>allocatable\<close>, which no method reads, are left out.

  \<open>scale_spec\<close> is the decision the code documents, on unbounded integers and without
  caches; \<open>Calculate\<close> refines it for every input in range.
\<close>

section \<open>Data\<close>

definition ADD_NODE :: int where "ADD_NODE = 1"
definition DEL_NODE :: int where "DEL_NODE = - 1"
definition ADD_STATEFUL :: int where "ADD_STATEFUL = 2"
definition DEL_STATEFUL :: int where "DEL_STATEFUL = - 2"
definition NEUTRAL :: int where "NEUTRAL = 0"

lemmas action_defs = ADD_NODE_def DEL_NODE_def ADD_STATEFUL_def DEL_STATEFUL_def NEUTRAL_def

lemma action_distinct [simp]:
  "ADD_NODE \<noteq> DEL_NODE" "ADD_NODE \<noteq> ADD_STATEFUL" "ADD_NODE \<noteq> NEUTRAL" "DEL_NODE \<noteq> ADD_NODE"
  "DEL_NODE \<noteq> ADD_STATEFUL" "DEL_NODE \<noteq> NEUTRAL" "ADD_STATEFUL \<noteq> ADD_NODE" "ADD_STATEFUL \<noteq> DEL_NODE"
  "ADD_STATEFUL \<noteq> NEUTRAL" "NEUTRAL \<noteq> ADD_NODE" "NEUTRAL \<noteq> DEL_NODE" "NEUTRAL \<noteq> ADD_STATEFUL"
  by (simp_all add: action_defs)

record rsize =
  sz_Memory :: int
  sz_Cpu :: int

record rnode =
  rn_Name :: string
  rn_Stateful :: bool
  rn_Size :: rsize

record input =
  in_MinNode :: int
  in_MaxNode :: int
  in_Nodes :: "rnode list"
  in_StatefulUsed :: int
  in_TotalUsed :: int
  in_Threshold :: int
  in_Buffer :: int
  in_statefulCount :: int
  in_statefulAllocatable :: "rsize option"

abbreviation len :: "input \<Rightarrow> int" where
  "len i \<equiv> int (length (in_Nodes i))"

section \<open>The methods\<close>

fun count_stateful :: "rnode list \<Rightarrow> int" where
  "count_stateful [] = 0"
| "count_stateful (n # ns) = (if rn_Stateful n then 1 else 0) + count_stateful ns"

definition GetStatefulCount :: "(input, int) act" where
  "GetStatefulCount = andThen (gets id) (\<lambda>i.
     if in_statefulCount i \<noteq> 0 then ret (in_statefulCount i)
     else let count = count_stateful (in_Nodes i) in
       andThen (modify (\<lambda>i. i\<lparr>in_statefulCount := count\<rparr>)) (\<lambda>_. ret count))"

fun add_sizes :: "rnode list \<Rightarrow> rsize \<Rightarrow> rsize" where
  "add_sizes [] sz = sz"
| "add_sizes (n # ns) sz = add_sizes ns
     \<lparr>sz_Memory = w64 (sz_Memory sz + sz_Memory (rn_Size n)), sz_Cpu = w64 (sz_Cpu sz + sz_Cpu (rn_Size n))\<rparr>"

definition getStatefulAllocatable :: "(input, error + rsize) act" where
  "getStatefulAllocatable = andThen (gets id) (\<lambda>i. case in_statefulAllocatable i of
     Some sz \<Rightarrow> ret (Inr sz)
   | None \<Rightarrow> let sz = add_sizes (filter rn_Stateful (in_Nodes i)) \<lparr>sz_Memory = 0, sz_Cpu = 0\<rparr> in
       andThen (modify (\<lambda>i. i\<lparr>in_statefulAllocatable := Some sz\<rparr>)) (\<lambda>_. ret (Inr sz)))"

definition getAllocatable :: "(input, error + rsize) act" where
  "getAllocatable = gets (\<lambda>i. Inr (add_sizes (in_Nodes i) \<lparr>sz_Memory = 0, sz_Cpu = 0\<rparr>))"

definition getStatefulFilled :: "(input, error + int) act" where
  "getStatefulFilled = andThen (gets id) (\<lambda>i.
     if in_StatefulUsed i = 0 then ret (Inr 0)
     else andThen getStatefulAllocatable (\<lambda>r. case r of
       Inl err \<Rightarrow> ret (Inl err)
     | Inr allocatable \<Rightarrow>
         if sz_Memory allocatable = 0 \<and> in_TotalUsed i > 0 then ret (Inr 200)
         else if sz_Memory allocatable = 0 then ret (Inr 0)
         else andThen (div64 (w64 (in_StatefulUsed i * 100)) (sz_Memory allocatable))
           (\<lambda>threshold. ret (Inr threshold))))"

definition getTotalFilled :: "(input, error + int) act" where
  "getTotalFilled = andThen (gets id) (\<lambda>i.
     if in_TotalUsed i = 0 then ret (Inr 0)
     else andThen getAllocatable (\<lambda>r. case r of
       Inl err \<Rightarrow> ret (Inl err)
     | Inr allocatable \<Rightarrow>
         if sz_Memory allocatable = 0 \<and> in_TotalUsed i > 0 then ret (Inr 200)
         else if sz_Memory allocatable = 0 then ret (Inr 0)
         else andThen (div64 (w64 (w64 (in_TotalUsed i + in_Buffer i) * 100)) (sz_Memory allocatable))
           (\<lambda>threshold. ret (Inr threshold))))"

definition getFilledByAssumingLess :: "(input, error + int) act" where
  "getFilledByAssumingLess = andThen (gets id) (\<lambda>i.
     if in_TotalUsed i = 0 then ret (Inr 0)
     else (case in_Nodes i of
       [] \<Rightarrow> ret (Inr 200)
     | n # _ \<Rightarrow> andThen getAllocatable (\<lambda>r. case r of
         Inl err \<Rightarrow> ret (Inl err)
       | Inr allocatable \<Rightarrow>
           let s = sz_Memory (rn_Size n) in
           if w64 (sz_Memory allocatable - s) = 0 \<and> in_TotalUsed i > 0 then ret (Inr 200)
           else andThen (div64 (w64 (w64 (in_TotalUsed i + in_Buffer i) * 100)) (w64 (sz_Memory allocatable - s)))
             (\<lambda>threshold. ret (Inr threshold)))))"

type_synonym decision = "int \<times> string option \<times> error option"

definition nothing_to_do :: decision where
  "nothing_to_do = (NEUTRAL, Some ''we can't find any actions needs to be perfomed'', None)"

definition down_scaling :: "(input, decision) act" where
  "down_scaling = andThen (gets id) (\<lambda>i.
     if len i > in_MinNode i then
       andThen getFilledByAssumingLess (\<lambda>r. case r of
         Inl err \<Rightarrow> ret (NEUTRAL, None, Some err)
       | Inr filled \<Rightarrow>
           if filled < w64 (in_Threshold i - 5) then
             andThen GetStatefulCount (\<lambda>cnt.
             if cnt < len i then
               ret (DEL_NODE, Some (''Node usage is less than '' @ itoa (w64 (in_Threshold i - 5))
                 @ ''% if node will be deleted, deleting last node''), None)
             else ret nothing_to_do)
           else ret nothing_to_do)
     else ret nothing_to_do)"

definition stateful_scaling :: "(input, decision) act" where
  "stateful_scaling = andThen (gets id) (\<lambda>i.
     andThen (if len i > 0 then andThen GetStatefulCount (\<lambda>cnt. ret (cnt = 0)) else ret False) (\<lambda>none.
     if none then
       ret (ADD_STATEFUL, Some ''no stateful nodes present, convert one node to stateful'', None)
     else andThen getStatefulFilled (\<lambda>r. case r of
       Inl err \<Rightarrow> ret (NEUTRAL, None, Some err)
     | Inr filled \<Rightarrow>
         andThen (if filled \<ge> in_Threshold i then andThen GetStatefulCount (\<lambda>cnt. ret (len i > cnt)) else ret False) (\<lambda>full.
         if full then
           ret (ADD_STATEFUL, Some (''stateful app is filled '' @ itoa (in_Threshold i)
             @ ''%s, convert one node to stateful''), None)
         else down_scaling))))"

definition up_scaling :: "(input, decision) act" where
  "up_scaling = andThen (gets id) (\<lambda>i.
     if len i < in_MaxNode i then
       if len i < in_MinNode i then
         ret (ADD_NODE, Some ''nodes are less than minimum requirement, adding one'', None)
       else andThen getTotalFilled (\<lambda>r. case r of
         Inl err \<Rightarrow> ret (NEUTRAL, None, Some err)
       | Inr filled \<Rightarrow>
           if filled \<ge> in_Threshold i \<and> len i < in_MaxNode i then
             ret (ADD_NODE, Some (''nodes are filled '' @ itoa (in_Threshold i)
               @ ''% and node can be added, adding one''), None)
           else stateful_scaling)
     else stateful_scaling)"

text \<open>The first three calls are made for the log only.\<close>

definition Calculate :: "(input, decision) act" where
  "Calculate = andThen getTotalFilled (\<lambda>_. andThen getFilledByAssumingLess (\<lambda>_.
     andThen getAllocatable (\<lambda>_. up_scaling)))"

section \<open>The decision, specified\<close>

text \<open>The memory of a list of nodes, and the percentage of it that a load fills.\<close>

definition memory :: "rnode list \<Rightarrow> int" where
  "memory ns = sum_list (map (\<lambda>n. sz_Memory (rn_Size n)) ns)"

definition filled_spec :: "int \<Rightarrow> int \<Rightarrow> int \<Rightarrow> int" where
  "filled_spec used buffer mem =
     (if used = 0 then 0 else if mem = 0 then 200 else (used + buffer) * 100 div mem)"

definition stateful_count :: "rnode list \<Rightarrow> int" where
  "stateful_count ns = int (length (filter rn_Stateful ns))"

text \<open>The load of the stateful nodes; a load on no stateful memory counts as overfull
  only when there is any load at all.\<close>

definition stateful_filled_spec :: "input \<Rightarrow> int" where
  "stateful_filled_spec i = (let mem = memory (filter rn_Stateful (in_Nodes i)) in
     if in_StatefulUsed i = 0 then 0
     else if mem = 0 then (if in_TotalUsed i > 0 then 200 else 0)
     else in_StatefulUsed i * 100 div mem)"

definition less_filled_spec :: "input \<Rightarrow> int" where
  "less_filled_spec i =
     (if in_TotalUsed i = 0 then 0
      else case in_Nodes i of [] \<Rightarrow> 200
        | n # _ \<Rightarrow> filled_spec (in_TotalUsed i) (in_Buffer i) (memory (in_Nodes i) - sz_Memory (rn_Size n)))"

definition scale_spec :: "input \<Rightarrow> int" where
  "scale_spec i =
    (if len i < in_MaxNode i \<and> (len i < in_MinNode i
         \<or> filled_spec (in_TotalUsed i) (in_Buffer i) (memory (in_Nodes i)) \<ge> in_Threshold i) then ADD_NODE
     else if len i > 0 \<and> stateful_count (in_Nodes i) = 0 then ADD_STATEFUL
     else if stateful_filled_spec i \<ge> in_Threshold i \<and> len i > stateful_count (in_Nodes i) then ADD_STATEFUL
     else if len i > in_MinNode i \<and> less_filled_spec i < in_Threshold i - 5
         \<and> stateful_count (in_Nodes i) < len i then DEL_NODE
     else NEUTRAL)"

text \<open>Inputs whose arithmetic stays within 64 bits, with caches that are empty or right.\<close>

definition input_ok :: "input \<Rightarrow> bool" where
  "input_ok i \<longleftrightarrow> (\<forall>n \<in> set (in_Nodes i). 0 \<le> sz_Memory (rn_Size n))
     \<and> memory (in_Nodes i) < 2 ^ 63
     \<and> 0 \<le> in_TotalUsed i \<and> 0 \<le> in_Buffer i \<and> (in_TotalUsed i + in_Buffer i) * 100 < 2 ^ 63
     \<and> 0 \<le> in_StatefulUsed i \<and> in_StatefulUsed i * 100 < 2 ^ 63
     \<and> 5 - 2 ^ 63 \<le> in_Threshold i \<and> in_Threshold i < 2 ^ 63"

definition caches_ok :: "input \<Rightarrow> bool" where
  "caches_ok i \<longleftrightarrow> (in_statefulCount i = 0 \<or> in_statefulCount i = stateful_count (in_Nodes i))
     \<and> (\<forall>sz. in_statefulAllocatable i = Some sz \<longrightarrow>
          sz_Memory sz = memory (filter rn_Stateful (in_Nodes i)))"

text \<open>What a run leaves: the same input up to its caches.\<close>

definition same_input :: "input \<Rightarrow> input \<Rightarrow> bool" where
  "same_input i j \<longleftrightarrow> (\<exists>c a. j = i\<lparr>in_statefulCount := c, in_statefulAllocatable := a\<rparr>)"

section \<open>The methods compute what is specified\<close>

lemma count_stateful_eq [simp]: "count_stateful ns = stateful_count ns"
  by (induction ns) (auto simp: stateful_count_def)

lemma memory_simps [simp]: "memory [] = 0" "memory (n # ns) = sz_Memory (rn_Size n) + memory ns"
  by (simp_all add: memory_def)

lemma memory_nonneg: "\<forall>n \<in> set ns. 0 \<le> sz_Memory (rn_Size n) \<Longrightarrow> 0 \<le> memory ns"
  by (induction ns) auto

lemma memory_filter_le:
  "\<forall>n \<in> set ns. 0 \<le> sz_Memory (rn_Size n) \<Longrightarrow> memory (filter P ns) \<le> memory ns"
  by (induction ns) auto

lemma add_sizes_memory:
  assumes "\<forall>n \<in> set ns. 0 \<le> sz_Memory (rn_Size n)" and "0 \<le> sz_Memory acc"
    and "sz_Memory acc + memory ns < 2 ^ 63"
  shows "sz_Memory (add_sizes ns acc) = sz_Memory acc + memory ns"
  using assms
proof (induction ns arbitrary: acc)
  case (Cons n ns)
  then have "0 \<le> memory ns" by (intro memory_nonneg) auto
  with Cons show ?case by simp
qed simp

lemma input_okD:
  assumes "input_ok i"
  shows "0 \<le> memory (in_Nodes i)"
    and "sz_Memory (add_sizes (in_Nodes i) \<lparr>sz_Memory = 0, sz_Cpu = 0\<rparr>) = memory (in_Nodes i)"
    and "sz_Memory (add_sizes (filter rn_Stateful (in_Nodes i)) \<lparr>sz_Memory = 0, sz_Cpu = 0\<rparr>)
      = memory (filter rn_Stateful (in_Nodes i))"
    and "0 \<le> memory (filter rn_Stateful (in_Nodes i))"
proof -
  have nn: "\<forall>n \<in> set (in_Nodes i). 0 \<le> sz_Memory (rn_Size n)" and m: "memory (in_Nodes i) < 2 ^ 63"
    using assms by (auto simp: input_ok_def)
  show "0 \<le> memory (in_Nodes i)" using nn by (rule memory_nonneg)
  show "sz_Memory (add_sizes (in_Nodes i) \<lparr>sz_Memory = 0, sz_Cpu = 0\<rparr>) = memory (in_Nodes i)"
    using add_sizes_memory [OF nn] m by simp
  have nf: "\<forall>n \<in> set (filter rn_Stateful (in_Nodes i)). 0 \<le> sz_Memory (rn_Size n)" using nn by auto
  then show "0 \<le> memory (filter rn_Stateful (in_Nodes i))" by (rule memory_nonneg)
  show "sz_Memory (add_sizes (filter rn_Stateful (in_Nodes i)) \<lparr>sz_Memory = 0, sz_Cpu = 0\<rparr>)
      = memory (filter rn_Stateful (in_Nodes i))"
    using add_sizes_memory [OF nf, of "\<lparr>sz_Memory = 0, sz_Cpu = 0\<rparr>"]
      memory_filter_le [OF nn, of rn_Stateful] m by simp
qed

text \<open>A lookup of the stateful count leaves it in the cache.\<close>

definition counted :: "input \<Rightarrow> input" where
  "counted i = i\<lparr>in_statefulCount := stateful_count (in_Nodes i)\<rparr>"

lemma GetStatefulCount_run:
  "caches_ok i \<Longrightarrow> GetStatefulCount i = (Ret (stateful_count (in_Nodes i)), counted i)"
  by (auto simp: GetStatefulCount_def caches_ok_def counted_def ret_def Let_def andThen_apply)

lemma counted_sel [simp]:
  "in_Nodes (counted i) = in_Nodes i" "in_MinNode (counted i) = in_MinNode i"
  "in_MaxNode (counted i) = in_MaxNode i" "in_TotalUsed (counted i) = in_TotalUsed i"
  "in_StatefulUsed (counted i) = in_StatefulUsed i" "in_Threshold (counted i) = in_Threshold i"
  "in_Buffer (counted i) = in_Buffer i"
  by (simp_all add: counted_def)

lemma caches_ok_counted [simp]: "caches_ok i \<Longrightarrow> caches_ok (counted i)"
  by (simp add: caches_ok_def counted_def)

lemma input_ok_counted [simp]: "input_ok (counted i) = input_ok i"
  by (simp add: input_ok_def)

lemma same_input_refl [simp]: "same_input i i"
  by (auto simp: same_input_def intro!: exI [of _ "in_statefulCount i"] exI [of _ "in_statefulAllocatable i"])

lemma same_input_trans: "same_input i j \<Longrightarrow> same_input j k \<Longrightarrow> same_input i k"
  by (auto simp: same_input_def) metis

lemma same_input_counted [simp]: "same_input i (counted i)"
  by (auto simp: same_input_def counted_def intro!: exI [of _ "in_statefulAllocatable i"])

lemma same_input_sel:
  assumes "same_input i j"
  shows "in_Nodes j = in_Nodes i" "in_MinNode j = in_MinNode i" "in_MaxNode j = in_MaxNode i"
    "in_TotalUsed j = in_TotalUsed i" "in_StatefulUsed j = in_StatefulUsed i"
    "in_Threshold j = in_Threshold i" "in_Buffer j = in_Buffer i"
  using assms by (auto simp: same_input_def)

lemma same_input_ok: "same_input i j \<Longrightarrow> input_ok j = input_ok i"
  by (auto simp: input_ok_def same_input_sel)

lemma getTotalFilled_run:
  assumes "input_ok i"
  shows "getTotalFilled i = (Ret (Inr (filled_spec (in_TotalUsed i) (in_Buffer i) (memory (in_Nodes i)))), i)"
proof -
  have t: "0 \<le> in_TotalUsed i" "0 \<le> in_Buffer i" "(in_TotalUsed i + in_Buffer i) * 100 < 2 ^ 63"
    using assms by (auto simp: input_ok_def)
  then have w: "w64 (w64 (in_TotalUsed i + in_Buffer i) * 100) = (in_TotalUsed i + in_Buffer i) * 100"
    by simp
  have d: "(div64 ((in_TotalUsed i + in_Buffer i) * 100) (memory (in_Nodes i)) :: (input, int) act)
        = ret ((in_TotalUsed i + in_Buffer i) * 100 div memory (in_Nodes i))"
    if "memory (in_Nodes i) \<noteq> 0"
    using t that input_okD(1) [OF assms] by (intro div64_run) auto
  note al = input_okD(2) [OF assms]
  consider "in_TotalUsed i = 0" | "in_TotalUsed i > 0" "memory (in_Nodes i) = 0"
    | "in_TotalUsed i > 0" "memory (in_Nodes i) \<noteq> 0" using t by linarith
  then show ?thesis
    by cases (simp_all add: getTotalFilled_def getAllocatable_def filled_spec_def ret_def andThen_apply
        al w d del: distrib_right_numeral)
qed

lemma getFilledByAssumingLess_run:
  assumes "input_ok i"
  shows "getFilledByAssumingLess i = (Ret (Inr (less_filled_spec i)), i)"
proof (cases "in_Nodes i")
  case Nil
  then show ?thesis
    by (simp add: getFilledByAssumingLess_def less_filled_spec_def ret_def)
next
  case (Cons n ns)
  let ?m = "memory (in_Nodes i) - sz_Memory (rn_Size n)"
  have t: "0 \<le> in_TotalUsed i" "0 \<le> in_Buffer i" "(in_TotalUsed i + in_Buffer i) * 100 < 2 ^ 63"
    and n: "0 \<le> sz_Memory (rn_Size n)" "memory (in_Nodes i) < 2 ^ 63"
    using assms Cons by (auto simp: input_ok_def)
  have "0 \<le> memory ns" using assms Cons by (intro memory_nonneg) (auto simp: input_ok_def)
  then have m: "0 \<le> ?m" using Cons by simp
  have w: "w64 ?m = ?m" "w64 (w64 (in_TotalUsed i + in_Buffer i) * 100) = (in_TotalUsed i + in_Buffer i) * 100"
    using m n t by simp_all
  have d: "(div64 ((in_TotalUsed i + in_Buffer i) * 100) ?m :: (input, int) act)
        = ret ((in_TotalUsed i + in_Buffer i) * 100 div ?m)" if "?m \<noteq> 0"
    using t m that by (intro div64_run) auto
  have al: "sz_Memory (add_sizes (in_Nodes i) \<lparr>sz_Memory = 0, sz_Cpu = 0\<rparr>) = memory (in_Nodes i)"
    by (rule input_okD(2) [OF assms])
  define mem where "mem = memory (in_Nodes i)"
  define ns' where "ns' = in_Nodes i"
  consider "in_TotalUsed i = 0" | "in_TotalUsed i > 0" "?m = 0"
    | "in_TotalUsed i > 0" "?m \<noteq> 0" using t by linarith
  then show ?thesis
    using al w d Cons unfolding getFilledByAssumingLess_def getAllocatable_def less_filled_spec_def
      filled_spec_def mem_def [symmetric]
    by cases (simp_all add: ret_def andThen_apply Let_def del: distrib_right_numeral)
qed

lemma getStatefulAllocatable_run:
  assumes "input_ok i" and "caches_ok i"
  obtains sz i' where "getStatefulAllocatable i = (Ret (Inr sz), i')"
    and "sz_Memory sz = memory (filter rn_Stateful (in_Nodes i))" and "same_input i i'" and "caches_ok i'"
proof (cases "in_statefulAllocatable i")
  case None
  let ?sz = "add_sizes (filter rn_Stateful (in_Nodes i)) \<lparr>sz_Memory = 0, sz_Cpu = 0\<rparr>"
  have "getStatefulAllocatable i = (Ret (Inr ?sz), i\<lparr>in_statefulAllocatable := Some ?sz\<rparr>)"
    using None by (simp add: getStatefulAllocatable_def Let_def ret_def)
  moreover have "same_input i (i\<lparr>in_statefulAllocatable := Some ?sz\<rparr>)"
    unfolding same_input_def by (intro exI [of _ "in_statefulCount i"] exI [of _ "Some ?sz"]) simp
  moreover have "caches_ok (i\<lparr>in_statefulAllocatable := Some ?sz\<rparr>)"
    using assms input_okD(3) [OF assms(1)] by (simp add: caches_ok_def)
  ultimately show ?thesis using input_okD(3) [OF assms(1)] that by blast
next
  case (Some sz)
  then have "getStatefulAllocatable i = (Ret (Inr sz), i)"
    by (simp add: getStatefulAllocatable_def ret_def)
  with Some assms(2) that show ?thesis by (auto simp: caches_ok_def)
qed

lemma getStatefulFilled_run:
  assumes "input_ok i" and "caches_ok i"
  obtains i' where "getStatefulFilled i = (Ret (Inr (stateful_filled_spec i)), i')"
    and "same_input i i'" and "caches_ok i'"
proof (cases "in_StatefulUsed i = 0")
  case True
  then have "getStatefulFilled i = (Ret (Inr (stateful_filled_spec i)), i)"
    by (simp add: getStatefulFilled_def stateful_filled_spec_def ret_def)
  with assms that show ?thesis by simp
next
  case False
  obtain sz i' where g: "getStatefulAllocatable i = (Ret (Inr sz), i')"
    and sz: "sz_Memory sz = memory (filter rn_Stateful (in_Nodes i))"
    and i': "same_input i i'" "caches_ok i'"
    using getStatefulAllocatable_run [OF assms] by blast
  have s: "0 \<le> in_StatefulUsed i" "in_StatefulUsed i * 100 < 2 ^ 63"
    using assms by (auto simp: input_ok_def)
  have "(div64 (in_StatefulUsed i * 100) (sz_Memory sz) :: (input, int) act)
      = ret (in_StatefulUsed i * 100 div sz_Memory sz)" if "sz_Memory sz \<noteq> 0"
    using s sz that input_okD(4) [OF assms(1)] by (intro div64_run) auto
  moreover have "w64 (in_StatefulUsed i * 100) = in_StatefulUsed i * 100" using s by simp
  ultimately have "getStatefulFilled i = (Ret (Inr (stateful_filled_spec i)), i')"
    using False g sz
    by (auto simp: getStatefulFilled_def stateful_filled_spec_def ret_def andThen_apply Let_def)
  with i' that show ?thesis by blast
qed

section \<open>Refinement\<close>

text \<open>\<open>run_to i m a\<close>: \<open>m\<close> decides action \<open>a\<close> on input \<open>i\<close>, with a message and no error.\<close>

definition decides :: "input \<Rightarrow> decision res \<times> input \<Rightarrow> int \<Rightarrow> bool" where
  "decides i out a \<longleftrightarrow> (\<exists>msg i'. out = (Ret (a, Some msg, None), i') \<and> same_input i i' \<and> caches_ok i')"

lemma decidesI: "out = (Ret (a, Some msg, None), i') \<Longrightarrow> same_input i i' \<Longrightarrow> caches_ok i' \<Longrightarrow> decides i out a"
  by (auto simp: decides_def)

lemma decides_from: "same_input i j \<Longrightarrow> decides j out a \<Longrightarrow> decides i out a"
  by (auto simp: decides_def intro: same_input_trans)

definition down_spec :: "input \<Rightarrow> int" where
  "down_spec i = (if len i > in_MinNode i \<and> less_filled_spec i < in_Threshold i - 5
     \<and> stateful_count (in_Nodes i) < len i then DEL_NODE else NEUTRAL)"

definition stateful_spec :: "input \<Rightarrow> int" where
  "stateful_spec i = (if len i > 0 \<and> stateful_count (in_Nodes i) = 0 then ADD_STATEFUL
     else if stateful_filled_spec i \<ge> in_Threshold i \<and> len i > stateful_count (in_Nodes i) then ADD_STATEFUL
     else down_spec i)"

lemma scale_spec_split: "scale_spec i =
    (if len i < in_MaxNode i \<and> (len i < in_MinNode i
         \<or> filled_spec (in_TotalUsed i) (in_Buffer i) (memory (in_Nodes i)) \<ge> in_Threshold i) then ADD_NODE
     else stateful_spec i)"
  by (simp only: scale_spec_def stateful_spec_def down_spec_def)

lemma down_scaling_decides:
  assumes "input_ok i" and "caches_ok i"
  shows "decides i (down_scaling i) (down_spec i)"
proof -
  have "w64 (in_Threshold i - 5) = in_Threshold i - 5"
    using assms(1) by (simp add: input_ok_def)
  then show ?thesis
    using assms getFilledByAssumingLess_run [OF assms(1)] GetStatefulCount_run [OF assms(2)]
    by (auto simp: down_scaling_def down_spec_def nothing_to_do_def ret_def intro!: decidesI)
qed

lemma same_input_specs:
  assumes "same_input i j"
  shows "down_spec j = down_spec i" and "stateful_filled_spec j = stateful_filled_spec i"
  by (simp_all add: down_spec_def less_filled_spec_def stateful_filled_spec_def
      same_input_sel [OF assms] Let_def cong: list.case_cong)

lemma stateful_scaling_decides:
  assumes "input_ok i" and "caches_ok i"
  shows "decides i (stateful_scaling i) (stateful_spec i)"
proof (cases "len i > 0 \<and> stateful_count (in_Nodes i) = 0")
  case True
  then have "stateful_scaling i = (Ret (stateful_spec i,
      Some ''no stateful nodes present, convert one node to stateful'', None), counted i)"
    using GetStatefulCount_run [OF assms(2)]
    by (simp add: stateful_scaling_def stateful_spec_def ret_def andThen_apply)
  then show ?thesis using assms by (auto intro: decidesI)
next
  case no: False
  obtain j where j: "same_input i j" "caches_ok j"
    and start: "(if len i > 0 then andThen GetStatefulCount (\<lambda>cnt. ret (cnt = 0)) else ret False) i
      = (Ret False, j)"
    using no GetStatefulCount_run [OF assms(2)] assms(2)
    by (cases "len i > 0") (auto simp: ret_def andThen_apply)
  have ok_j: "input_ok j" using j(1) assms(1) by (simp add: same_input_ok)
  obtain k where k: "same_input j k" "caches_ok k"
    and filled: "getStatefulFilled j = (Ret (Inr (stateful_filled_spec i)), k)"
    using getStatefulFilled_run [OF ok_j j(2)] same_input_specs(2) [OF j(1)] by metis
  have ik: "same_input i k" using j(1) k(1) by (rule same_input_trans)
  have ok_k: "input_ok k" using ik assms(1) by (simp add: same_input_ok)
  note sel = same_input_sel [OF ik]
  show ?thesis
  proof (cases "stateful_filled_spec i \<ge> in_Threshold i \<and> len i > stateful_count (in_Nodes i)")
    case True
    have spec: "stateful_spec i = ADD_STATEFUL" unfolding stateful_spec_def by (simp only: no True if_True if_False simp_thms)
    have "stateful_scaling i = (Ret (ADD_STATEFUL, Some (''stateful app is filled ''
        @ itoa (in_Threshold i) @ ''%s, convert one node to stateful''), None), counted k)"
      using True start filled GetStatefulCount_run [OF k(2)] sel
      by (simp add: stateful_scaling_def ret_def andThen_apply)
    then show ?thesis unfolding spec
      by (rule decidesI) (simp_all add: same_input_trans [OF ik same_input_counted] k(2))
  next
    case False
    have spec: "stateful_spec i = down_spec i" unfolding stateful_spec_def by (simp only: no False if_True if_False simp_thms)
    define l where "l = (if stateful_filled_spec i \<ge> in_Threshold i then counted k else k)"
    have l: "same_input k l" "caches_ok l" using k(2) by (simp_all add: l_def)
    have cont: "stateful_scaling i = down_scaling l"
      using False start filled GetStatefulCount_run [OF k(2)] sel
      by (auto simp: l_def stateful_scaling_def ret_def andThen_apply)
    have il: "same_input i l" using ik l(1) by (rule same_input_trans)
    have "decides l (down_scaling l) (down_spec l)"
      using il assms(1) l(2) by (intro down_scaling_decides) (simp_all add: same_input_ok)
    then show ?thesis unfolding cont spec using same_input_specs(1) [OF il] il by (auto intro: decides_from)
  qed
qed

lemma Calculate_decides:
  assumes "input_ok i" and "caches_ok i"
  shows "decides i (Calculate i) (scale_spec i)"
proof -
  have first: "Calculate i = up_scaling i"
    using getTotalFilled_run [OF assms(1)] getFilledByAssumingLess_run [OF assms(1)]
    by (simp add: Calculate_def getAllocatable_def)
  consider (min) "len i < in_MaxNode i" "len i < in_MinNode i"
    | (load) "len i < in_MaxNode i" "\<not> len i < in_MinNode i"
        "filled_spec (in_TotalUsed i) (in_Buffer i) (memory (in_Nodes i)) \<ge> in_Threshold i"
    | (rest) "\<not> (len i < in_MaxNode i \<and> (len i < in_MinNode i
         \<or> filled_spec (in_TotalUsed i) (in_Buffer i) (memory (in_Nodes i)) \<ge> in_Threshold i))"
    by blast
  then show ?thesis
  proof cases
    case min
    then show ?thesis using assms unfolding first
      by (auto simp: up_scaling_def scale_spec_split ret_def intro: decidesI)
  next
    case load
    then show ?thesis using assms getTotalFilled_run [OF assms(1)] unfolding first
      by (auto simp: up_scaling_def scale_spec_split ret_def intro: decidesI)
  next
    case rest
    then have "up_scaling i = stateful_scaling i" and "scale_spec i = stateful_spec i"
      using getTotalFilled_run [OF assms(1)]
      by (auto simp: up_scaling_def scale_spec_split)
    then show ?thesis unfolding first using stateful_scaling_decides [OF assms] by simp
  qed
qed

section \<open>Pools of equal nodes\<close>

text \<open>
  What the node pool controller builds are pools whose nodes have the size of one plan.
  \<open>rescaled i ns\<close> is the input of the next round, on nodes \<open>ns\<close> under the same load: every
  round starts with empty caches.
\<close>

definition uniform :: "int \<Rightarrow> rnode list \<Rightarrow> bool" where
  "uniform m ns \<longleftrightarrow> (\<forall>n \<in> set ns. sz_Memory (rn_Size n) = m)"

definition rescaled :: "input \<Rightarrow> rnode list \<Rightarrow> input" where
  "rescaled i ns = i\<lparr>in_Nodes := ns, in_statefulCount := 0, in_statefulAllocatable := None\<rparr>"

definition action_of :: "input \<Rightarrow> int option" where
  "action_of i = (case fst (Calculate i) of Ret (a, _, _) \<Rightarrow> Some a | Panic _ \<Rightarrow> None)"

lemma action_of_spec: "input_ok i \<Longrightarrow> caches_ok i \<Longrightarrow> action_of i = Some (scale_spec i)"
  using Calculate_decides [of i] by (auto simp: decides_def action_of_def)

lemma rescaled_sel [simp]:
  "in_Nodes (rescaled i ns) = ns" "in_MinNode (rescaled i ns) = in_MinNode i"
  "in_MaxNode (rescaled i ns) = in_MaxNode i" "in_TotalUsed (rescaled i ns) = in_TotalUsed i"
  "in_StatefulUsed (rescaled i ns) = in_StatefulUsed i" "in_Threshold (rescaled i ns) = in_Threshold i"
  "in_Buffer (rescaled i ns) = in_Buffer i" "in_statefulCount (rescaled i ns) = 0"
  "in_statefulAllocatable (rescaled i ns) = None" "rescaled (rescaled i ms) ns = rescaled i ns"
  by (simp_all add: rescaled_def)

lemma caches_ok_rescaled [simp]: "caches_ok (rescaled i ns)"
  by (simp add: caches_ok_def)

lemma uniform_memory: "uniform m ns \<Longrightarrow> memory ns = int (length ns) * m"
  by (induction ns) (auto simp: uniform_def algebra_simps)

lemma uniform_append [simp]: "uniform m (xs @ ys) \<longleftrightarrow> uniform m xs \<and> uniform m ys"
  by (auto simp: uniform_def)

lemma uniform_butlast: "uniform m ns \<Longrightarrow> uniform m (butlast ns)"
  by (auto simp: uniform_def dest: in_set_butlastD)

text \<open>How full a pool of \<open>k\<close> equal nodes is.\<close>

definition fill :: "input \<Rightarrow> int \<Rightarrow> int \<Rightarrow> int" where
  "fill i m k = filled_spec (in_TotalUsed i) (in_Buffer i) (k * m)"

lemma fill_rescaled [simp]: "fill (rescaled i ns) m k = fill i m k"
  by (simp add: fill_def)

lemma uniform_total: "uniform m (in_Nodes i) \<Longrightarrow>
    filled_spec (in_TotalUsed i) (in_Buffer i) (memory (in_Nodes i)) = fill i m (len i)"
  by (simp add: fill_def uniform_memory)

lemma uniform_less:
  assumes "uniform m (in_Nodes i)" and "in_Nodes i \<noteq> []"
  shows "less_filled_spec i = fill i m (len i - 1)"
proof -
  obtain n ns where ns: "in_Nodes i = n # ns" using assms(2) by (cases "in_Nodes i") auto
  then have "memory (in_Nodes i) - sz_Memory (rn_Size n) = (len i - 1) * m"
    using assms(1) uniform_memory [of m ns] by (simp add: uniform_def)
  then show ?thesis using ns by (simp add: less_filled_spec_def fill_def filled_spec_def)
qed

lemma stateful_count_le: "stateful_count ns \<le> int (length ns)"
  by (simp add: stateful_count_def)

lemma stateful_count_nonneg [simp]: "0 \<le> stateful_count ns"
  by (simp add: stateful_count_def)

lemma scale_spec_ADD_iff: "scale_spec i = ADD_NODE \<longleftrightarrow> len i < in_MaxNode i \<and> (len i < in_MinNode i
    \<or> filled_spec (in_TotalUsed i) (in_Buffer i) (memory (in_Nodes i)) \<ge> in_Threshold i)"
  by (simp add: scale_spec_split stateful_spec_def down_spec_def)

lemma scale_spec_DEL_imp:
  assumes "scale_spec i = DEL_NODE"
  shows "len i > in_MinNode i" and "less_filled_spec i < in_Threshold i - 5"
    and "stateful_count (in_Nodes i) < len i" and "in_Nodes i \<noteq> []"
proof -
  have d: "len i > in_MinNode i \<and> less_filled_spec i < in_Threshold i - 5 \<and> stateful_count (in_Nodes i) < len i"
    using assms by (simp add: scale_spec_def split: if_splits)
  then show "len i > in_MinNode i" and "less_filled_spec i < in_Threshold i - 5"
    and "stateful_count (in_Nodes i) < len i" by auto
  from d have "0 < len i" using stateful_count_nonneg [of "in_Nodes i"] by linarith
  then show "in_Nodes i \<noteq> []" by simp
qed

lemma scale_spec_STATEFUL_imp:
  assumes "scale_spec i = ADD_STATEFUL"
  shows "stateful_count (in_Nodes i) < len i"
proof -
  have "(len i > 0 \<and> stateful_count (in_Nodes i) = 0) \<or> len i > stateful_count (in_Nodes i)"
    using assms by (simp add: scale_spec_def split: if_splits)
  then show ?thesis by linarith
qed

lemma scale_spec_cases: "scale_spec i \<in> {ADD_NODE, DEL_NODE, ADD_STATEFUL, NEUTRAL}"
  by (simp add: scale_spec_def)

text \<open>
  What the controller does with a decision: a node \<open>new\<close> is appended, the last one is
  deleted, or the first stateless node is marked.
\<close>

fun mark_stateful :: "rnode list \<Rightarrow> rnode list" where
  "mark_stateful [] = []"
| "mark_stateful (n # ns) =
     (if rn_Stateful n then n # mark_stateful ns else n\<lparr>rn_Stateful := True\<rparr> # ns)"

definition apply_action :: "rnode \<Rightarrow> int \<Rightarrow> rnode list \<Rightarrow> rnode list" where
  "apply_action new a ns =
     (if a = ADD_NODE then ns @ [new]
      else if a = DEL_NODE then butlast ns
      else if a = ADD_STATEFUL then mark_stateful ns
      else ns)"

definition scale_round :: "rnode \<Rightarrow> input \<Rightarrow> input" where
  "scale_round new i = (case action_of i of
     Some a \<Rightarrow> rescaled i (apply_action new a (in_Nodes i)) | None \<Rightarrow> i)"

lemma mark_stateful_length [simp]: "length (mark_stateful ns) = length ns"
  by (induction ns) auto

lemma mark_stateful_uniform: "uniform m ns \<Longrightarrow> uniform m (mark_stateful ns)"
  by (induction ns) (auto simp: uniform_def)

lemma mark_stateful_count:
  "stateful_count ns < int (length ns) \<Longrightarrow> stateful_count (mark_stateful ns) = stateful_count ns + 1"
  by (induction ns) (auto simp: stateful_count_def)

text \<open>Pools of at most \<open>b\<close> nodes of memory \<open>m\<close> under a load that fits in 64 bits.\<close>

definition pool_ok :: "int \<Rightarrow> int \<Rightarrow> input \<Rightarrow> bool" where
  "pool_ok m b i \<longleftrightarrow> uniform m (in_Nodes i) \<and> 0 \<le> m \<and> len i \<le> b \<and> in_MaxNode i \<le> b \<and> b * m < 2 ^ 63
     \<and> 0 \<le> in_TotalUsed i \<and> 0 \<le> in_Buffer i \<and> (in_TotalUsed i + in_Buffer i) * 100 < 2 ^ 63
     \<and> 0 \<le> in_StatefulUsed i \<and> in_StatefulUsed i * 100 < 2 ^ 63
     \<and> 5 - 2 ^ 63 \<le> in_Threshold i \<and> in_Threshold i < 2 ^ 63 \<and> caches_ok i"

lemma pool_ok_input:
  assumes "pool_ok m b i"
  shows "input_ok i" and "caches_ok i"
proof -
  have u: "uniform m (in_Nodes i)" and m: "0 \<le> m" and b: "len i \<le> b" "b * m < 2 ^ 63"
    using assms by (auto simp: pool_ok_def)
  have "memory (in_Nodes i) \<le> b * m" using b m by (simp add: uniform_memory [OF u] mult_right_mono)
  with b have "memory (in_Nodes i) < 2 ^ 63" by linarith
  then show "input_ok i" using assms u by (simp add: pool_ok_def input_ok_def uniform_def)
  show "caches_ok i" using assms by (simp add: pool_ok_def)
qed

lemma pool_ok_round:
  assumes "pool_ok m b i" and "sz_Memory (rn_Size new) = m"
  shows "scale_round new i = rescaled i (apply_action new (scale_spec i) (in_Nodes i))"
    and "pool_ok m b (scale_round new i)"
proof -
  note ok = pool_ok_input [OF assms(1)]
  show eq: "scale_round new i = rescaled i (apply_action new (scale_spec i) (in_Nodes i))"
    using ok by (simp add: scale_round_def action_of_spec)
  have u: "uniform m (in_Nodes i)" using assms(1) by (simp add: pool_ok_def)
  have "uniform m (apply_action new (scale_spec i) (in_Nodes i))"
    using u assms(2)
    by (auto simp: apply_action_def mark_stateful_uniform uniform_butlast) (simp add: uniform_def)
  moreover have "int (length (apply_action new (scale_spec i) (in_Nodes i))) \<le> b"
    using assms(1) scale_spec_ADD_iff [of i] by (auto simp: apply_action_def pool_ok_def)
  ultimately show "pool_ok m b (scale_round new i)"
    using assms(1) unfolding eq by (simp add: pool_ok_def)
qed

text \<open>
  The measure that falls with every round: nodes still to be added, or nodes still to be
  deleted, then stateless nodes.
\<close>

definition rounds_left :: "int \<Rightarrow> input \<Rightarrow> nat" where
  "rounds_left b i = nat (if scale_spec i = ADD_NODE then 2 * b + 1 - len i else len i)"

definition stateless_left :: "input \<Rightarrow> nat" where
  "stateless_left i = nat (len i - stateful_count (in_Nodes i))"

lemma add_then_no_del:
  assumes u: "uniform m (in_Nodes i)" "sz_Memory (rn_Size n) = m" and a: "scale_spec i = ADD_NODE"
  shows "scale_spec (rescaled i (in_Nodes i @ [n])) \<noteq> DEL_NODE"
proof
  let ?j = "rescaled i (in_Nodes i @ [n])"
  assume d: "scale_spec ?j = DEL_NODE"
  have "uniform m (in_Nodes ?j)" using u by (simp add: uniform_def)
  then have "less_filled_spec ?j = fill i m (len i)" using uniform_less [of m ?j] by simp
  with scale_spec_DEL_imp(1,2) [OF d] a uniform_total [OF u(1)] show False
    by (auto simp: scale_spec_ADD_iff)
qed

lemma del_then_no_add:
  assumes u: "uniform m (in_Nodes i)" and d: "scale_spec i = DEL_NODE"
  shows "scale_spec (rescaled i (butlast (in_Nodes i))) \<noteq> ADD_NODE"
proof
  let ?j = "rescaled i (butlast (in_Nodes i))"
  assume a: "scale_spec ?j = ADD_NODE"
  note del = scale_spec_DEL_imp [OF d]
  have l: "len ?j = len i - 1" using del(4) by (cases "in_Nodes i") auto
  have "uniform m (in_Nodes ?j)" using u by (simp add: uniform_butlast)
  then have "filled_spec (in_TotalUsed i) (in_Buffer i) (memory (in_Nodes ?j)) = fill i m (len i - 1)"
    using uniform_total [of m ?j] l by simp
  with uniform_less [OF u del(4)] del(1,2) a l show False
    by (auto simp: scale_spec_ADD_iff)
qed

lemma round_decreases:
  assumes "pool_ok m b i" and "sz_Memory (rn_Size new) = m" and "scale_spec i \<noteq> NEUTRAL"
  shows "(scale_round new i, i) \<in> measures [rounds_left b, stateless_left]"
proof -
  let ?j = "rescaled i (apply_action new (scale_spec i) (in_Nodes i))"
  have u: "uniform m (in_Nodes i)" and b: "len i \<le> b" "in_MaxNode i \<le> b"
    using assms(1) by (auto simp: pool_ok_def)
  have eq: "scale_round new i = ?j" by (rule pool_ok_round(1) [OF assms(1,2)])
  consider (add) "scale_spec i = ADD_NODE" | (del) "scale_spec i = DEL_NODE"
    | (mark) "scale_spec i = ADD_STATEFUL" using scale_spec_cases [of i] assms(3) by auto
  then show ?thesis
  proof cases
    case add
    then have lt: "len i < in_MaxNode i" by (simp add: scale_spec_ADD_iff)
    have len: "len ?j = len i + 1" using add by (simp add: apply_action_def)
    have "rounds_left b ?j < rounds_left b i" unfolding rounds_left_def len using add lt b by auto
    then show ?thesis unfolding eq by simp
  next
    case del
    then have j: "?j = rescaled i (butlast (in_Nodes i))" by (simp add: apply_action_def)
    have "scale_spec ?j \<noteq> ADD_NODE" unfolding j by (rule del_then_no_add [OF u del])
    moreover have "len ?j = len i - 1" "0 < len i"
      unfolding j using scale_spec_DEL_imp(4) [OF del] by (cases "in_Nodes i"; simp)+
    ultimately have "rounds_left b ?j < rounds_left b i" using del by (simp add: rounds_left_def)
    then show ?thesis unfolding eq by simp
  next
    case mark
    note lt = scale_spec_STATEFUL_imp [OF mark]
    have j: "in_Nodes ?j = mark_stateful (in_Nodes i)" using mark by (simp add: apply_action_def)
    then have "uniform m (in_Nodes ?j)" using u by (simp add: mark_stateful_uniform)
    then have "memory (in_Nodes ?j) = memory (in_Nodes i)" using u j by (simp add: uniform_memory)
    then have "scale_spec ?j = ADD_NODE \<longleftrightarrow> scale_spec i = ADD_NODE"
      using j by (simp add: scale_spec_ADD_iff)
    then have "rounds_left b ?j = rounds_left b i" using j by (simp add: rounds_left_def)
    moreover have "stateless_left ?j < stateless_left i"
      using lt j mark_stateful_count [OF lt] by (simp add: stateless_left_def)
    ultimately show ?thesis unfolding eq by simp
  qed
qed

lemma rounds_reach_neutral:
  assumes "pool_ok m b i" and "sz_Memory (rn_Size new) = m"
  shows "\<exists>k. scale_spec ((scale_round new ^^ k) i) = NEUTRAL"
  using assms(1)
proof (induction i rule: wf_induct_rule [OF wf_measures [of "[rounds_left b, stateless_left]"]])
  case (1 i)
  show ?case
  proof (cases "scale_spec i = NEUTRAL")
    case True
    then show ?thesis by (intro exI [of _ 0]) simp
  next
    case False
    obtain k where "scale_spec ((scale_round new ^^ k) (scale_round new i)) = NEUTRAL"
      using 1 round_decreases [OF 1(2) assms(2) False] pool_ok_round(2) [OF 1(2) assms(2)] by blast
    then have "scale_spec ((scale_round new ^^ Suc k) i) = NEUTRAL" by (simp add: funpow_swap1)
    then show ?thesis by blast
  qed
qed

lemma pool_ok_rounds:
  assumes "pool_ok m b i" and "sz_Memory (rn_Size new) = m"
  shows "pool_ok m b ((scale_round new ^^ k) i)"
  by (induction k) (use assms pool_ok_round(2) in auto)

lemma zero_pool_adds:
  assumes "pool_ok 0 b i" and "0 < in_TotalUsed i" and "in_Threshold i \<le> 200" and "len i < in_MaxNode i"
  shows "scale_spec i = ADD_NODE"
proof -
  have "memory (in_Nodes i) = 0" using assms(1) uniform_memory [of 0] by (simp add: pool_ok_def)
  then show ?thesis using assms by (simp add: scale_spec_ADD_iff filled_spec_def)
qed

lemma zero_pool_rounds:
  assumes "pool_ok 0 b i" and "0 < in_TotalUsed i" and "in_Threshold i \<le> 200"
    and "sz_Memory (rn_Size new) = 0" and "len i + int k \<le> in_MaxNode i"
  shows "len ((scale_round new ^^ k) i) = len i + int k
    \<and> in_TotalUsed ((scale_round new ^^ k) i) = in_TotalUsed i
    \<and> in_Threshold ((scale_round new ^^ k) i) = in_Threshold i
    \<and> in_MaxNode ((scale_round new ^^ k) i) = in_MaxNode i"
  using assms(5)
proof (induction k)
  case (Suc k)
  let ?j = "(scale_round new ^^ k) i"
  have ih: "len ?j = len i + int k" "in_TotalUsed ?j = in_TotalUsed i" "in_Threshold ?j = in_Threshold i"
      "in_MaxNode ?j = in_MaxNode i" using Suc by auto
  have ok: "pool_ok 0 b ?j" by (rule pool_ok_rounds [OF assms(1,4)])
  have "scale_spec ?j = ADD_NODE" using ok ih assms(2,3) Suc.prems by (intro zero_pool_adds [of b]) auto
  then show ?case using pool_ok_round(1) [OF ok assms(4)] ih by (simp add: apply_action_def)
qed simp

section \<open>What holds without a range\<close>

text \<open>
  Some facts do not need the arithmetic to fit: the bounds on the number of nodes, and what a
  run leaves of its input.
\<close>

definition count_cached :: "input \<Rightarrow> bool" where
  "count_cached i \<longleftrightarrow> in_statefulCount i = 0 \<or> in_statefulCount i = stateful_count (in_Nodes i)"

lemma same_input_cached:
  "same_input i j \<Longrightarrow> (in_statefulCount j = in_statefulCount i \<or> in_statefulCount j = stateful_count (in_Nodes i))
    \<Longrightarrow> count_cached i \<Longrightarrow> count_cached j"
  by (auto simp: count_cached_def same_input_sel)

text \<open>Runs of the parts: the same input up to the caches, and a right count.\<close>

definition run_ok :: "input \<Rightarrow> input \<Rightarrow> bool" where
  "run_ok i j \<longleftrightarrow> same_input i j \<and> (count_cached i \<longrightarrow> count_cached j)"

interpretation rc: frame run_ok
  by unfold_locales (auto simp: run_ok_def intro: same_input_trans)

lemma keeps_run_GetStatefulCount: "keeps run_ok GetStatefulCount"
proof (rule keepsI)
  fix i
  have "same_input i (counted i)" by simp
  moreover have "count_cached (counted i)" by (simp add: count_cached_def counted_def)
  ultimately show "run_ok i (snd (GetStatefulCount i))"
    by (simp add: GetStatefulCount_def Let_def run_ok_def counted_def)
qed

lemma keeps_run_getStatefulAllocatable: "keeps run_ok getStatefulAllocatable"
proof (rule keepsI)
  fix i
  have "same_input i (i\<lparr>in_statefulAllocatable := a\<rparr>)" for a
    unfolding same_input_def by (intro exI [of _ "in_statefulCount i"] exI [of _ a]) simp
  then show "run_ok i (snd (getStatefulAllocatable i))"
    by (simp add: getStatefulAllocatable_def Let_def run_ok_def count_cached_def split: option.split)
qed

lemma keeps_run_div64: "keeps run_ok (div64 a b)"
  by (simp add: div64_def rc.keeps_ret rc.keeps_crash)

lemmas keeps_run = rc.keeps_ret rc.keeps_Pair rc.keeps_crash rc.keeps_gets rc.keeps_andThen
  keeps_run_GetStatefulCount keeps_run_getStatefulAllocatable keeps_run_div64

lemma keeps_run_methods:
  "keeps run_ok getAllocatable" "keeps run_ok getTotalFilled" "keeps run_ok getFilledByAssumingLess"
  "keeps run_ok getStatefulFilled"
  unfolding getTotalFilled_def getFilledByAssumingLess_def getStatefulFilled_def getAllocatable_def
  by (auto intro!: keeps_run split: sum.split list.split simp: Let_def)

lemma keeps_run_Calculate: "keeps run_ok down_scaling" "keeps run_ok stateful_scaling" "keeps run_ok Calculate"
proof -
  note defs = down_scaling_def stateful_scaling_def up_scaling_def Calculate_def
  show down: "keeps run_ok down_scaling"
    unfolding defs by (auto intro!: keeps_run keeps_run_methods split: sum.split)
  show st: "keeps run_ok stateful_scaling"
    unfolding stateful_scaling_def by (auto intro!: keeps_run keeps_run_methods down split: sum.split)
  show "keeps run_ok Calculate"
    unfolding Calculate_def up_scaling_def by (auto intro!: keeps_run keeps_run_methods st split: sum.split)
qed

lemma GetStatefulCount_counts:
  "count_cached i \<Longrightarrow> GetStatefulCount i = (Ret (stateful_count (in_Nodes i)), counted i)"
  by (auto simp: GetStatefulCount_def count_cached_def counted_def ret_def Let_def andThen_apply)

text \<open>What a decision tells of the number of nodes.\<close>

definition decision_ok :: "input \<Rightarrow> int \<Rightarrow> bool" where
  "decision_ok i a \<longleftrightarrow> a \<in> {ADD_NODE, DEL_NODE, ADD_STATEFUL, NEUTRAL}
     \<and> (a = ADD_NODE \<longrightarrow> len i < in_MaxNode i)
     \<and> (a = DEL_NODE \<longrightarrow> in_MinNode i < len i \<and> stateful_count (in_Nodes i) < len i)
     \<and> (a = ADD_STATEFUL \<longrightarrow> stateful_count (in_Nodes i) < len i)"

lemma decision_ok_same: "same_input i j \<Longrightarrow> decision_ok j a = decision_ok i a"
  by (simp add: decision_ok_def same_input_sel)

lemma run_okD: "keeps run_ok m \<Longrightarrow> m i = (r, j) \<Longrightarrow> count_cached i \<Longrightarrow> same_input i j \<and> count_cached j"
  using keepsE [of run_ok m i r j] by (auto simp: run_ok_def)

lemma nothing_decision [simp]: "decision_ok i NEUTRAL"
  by (simp add: decision_ok_def)

lemma down_scaling_bounds:
  assumes "count_cached i" and "down_scaling i = (Ret (a, msg, err), j)"
  shows "decision_ok i a"
proof (cases "len i > in_MinNode i")
  case True
  obtain r k where k: "getFilledByAssumingLess i = (r, k)" by fastforce
  note sk = run_okD [OF keeps_run_methods(3) k assms(1)]
  have c: "GetStatefulCount k = (Ret (stateful_count (in_Nodes i)), counted k)"
    using GetStatefulCount_counts [of k] sk same_input_sel(1) [OF conjunct1 [OF sk]] by simp
  show ?thesis
    using True assms(2) k c
    by (cases r) (auto simp: down_scaling_def nothing_to_do_def andThen_apply ret_def decision_ok_def
        split: sum.splits if_splits)
next
  case False
  then show ?thesis using assms(2) by (auto simp: down_scaling_def nothing_to_do_def ret_def)
qed

lemma stateful_scaling_bounds:
  assumes "count_cached i" and "stateful_scaling i = (Ret (a, msg, err), j)"
  shows "decision_ok i a"
proof (cases "len i > 0 \<and> stateful_count (in_Nodes i) = 0")
  case True
  then show ?thesis
    using assms GetStatefulCount_counts [OF assms(1)]
    by (auto simp: stateful_scaling_def andThen_apply ret_def decision_ok_def)
next
  case no: False
  define k where "k = (if len i > 0 then counted i else i)"
  have "count_cached (counted i)" by (simp add: count_cached_def counted_def)
  then have k: "same_input i k" "count_cached k" using assms(1) by (auto simp: k_def)
  have start: "(if len i > 0 then andThen GetStatefulCount (\<lambda>cnt. ret (cnt = 0)) else ret False) i = (Ret False, k)"
    using no GetStatefulCount_counts [OF assms(1)] by (auto simp: k_def andThen_apply ret_def)
  obtain r l where l: "getStatefulFilled k = (r, l)" by fastforce
  note sl = run_okD [OF keeps_run_methods(4) l k(2)]
  have il: "same_input i l" using k(1) sl by (blast intro: same_input_trans)
  have c: "GetStatefulCount l = (Ret (stateful_count (in_Nodes i)), counted l)"
    using GetStatefulCount_counts [of l] sl same_input_sel(1) [OF il] by simp
  have cl: "same_input i (counted l)" "count_cached (counted l)"
    using same_input_trans [OF il same_input_counted] by (simp_all add: count_cached_def counted_def)
  have down: "decision_ok i a" if "down_scaling l = (Ret (a, msg, err), j) \<or> down_scaling (counted l) = (Ret (a, msg, err), j)"
    using that sl cl il down_scaling_bounds decision_ok_same by blast
  show ?thesis
    using assms(2) start l c down
    by (cases r) (auto simp: stateful_scaling_def andThen_apply ret_def decision_ok_def
        split: sum.splits if_splits)
qed

lemma Calculate_bounds:
  assumes "count_cached i" and "Calculate i = (Ret (a, msg, err), j)"
  shows "decision_ok i a \<and> same_input i j \<and> count_cached j"
proof -
  obtain r1 k where k: "getTotalFilled i = (r1, k)" by fastforce
  note sk = run_okD [OF keeps_run_methods(2) k assms(1)]
  obtain r2 l where l: "getFilledByAssumingLess k = (r2, l)" by fastforce
  note sl = run_okD [OF keeps_run_methods(3) l conjunct2 [OF sk]]
  have il: "same_input i l" using sk sl by (blast intro: same_input_trans)
  have up: "up_scaling l = (Ret (a, msg, err), j)"
    using assms(2) k l by (cases r1; cases r2) (auto simp: Calculate_def getAllocatable_def andThen_apply)
  obtain r3 m where m: "getTotalFilled l = (r3, m)" by fastforce
  note sm = run_okD [OF keeps_run_methods(2) m conjunct2 [OF sl]]
  have "decision_ok l a"
  proof (cases "len l < in_MaxNode l")
    case True
    have st: "stateful_scaling m = (Ret (a, msg, err), j) \<Longrightarrow> decision_ok l a"
      using stateful_scaling_bounds [of m] sm decision_ok_same by blast
    show ?thesis
      using True up m st
      by (cases r3) (auto simp: up_scaling_def andThen_apply ret_def decision_ok_def
          split: sum.splits if_splits)
  next
    case False
    then have "stateful_scaling l = (Ret (a, msg, err), j)" using up by (simp add: up_scaling_def)
    then show ?thesis using stateful_scaling_bounds sl by blast
  qed
  then show ?thesis
    using run_okD [OF keeps_run_Calculate(3) assms(2,1)] decision_ok_same [OF il] by simp
qed

section \<open>Properties\<close>

definition sample_node :: "int \<Rightarrow> bool \<Rightarrow> rnode" where
  "sample_node m st = \<lparr>rn_Name = ''worker'', rn_Stateful = st, rn_Size = \<lparr>sz_Memory = m, sz_Cpu = 0\<rparr>\<rparr>"

definition sample_input :: "rnode list \<Rightarrow> int \<Rightarrow> input" where
  "sample_input ns used = \<lparr>in_MinNode = 1, in_MaxNode = 4, in_Nodes = ns, in_StatefulUsed = 0,
     in_TotalUsed = used, in_Threshold = 75, in_Buffer = 0, in_statefulCount = 0, in_statefulAllocatable = None\<rparr>"

lemmas sample_defs = sample_node_def sample_input_def

text \<open>C9. For every input whose arithmetic fits in 64 bits, and whose caches are empty or right,
  the autoscaler returns without panic, without error and with a message exactly the action that
  \<open>scale_spec\<close> prescribes on unbounded integers, and it leaves the input as it was up to its
  caches, which are still right.\<close>

theorem Calculate_refines_spec:
  assumes "input_ok i" and "caches_ok i"
  shows "\<exists>msg i'. Calculate i = (Ret (scale_spec i, Some msg, None), i') \<and> same_input i i' \<and> caches_ok i'"
  using Calculate_decides [OF assms] by (simp add: decides_def)

lemma Calculate_refines_spec_witness:
  "\<exists>msg i'. Calculate (sample_input [sample_node 1000 True, sample_node 1000 False] 1600)
      = (Ret (ADD_NODE, Some msg, None), i')"
proof -
  let ?i = "sample_input [sample_node 1000 True, sample_node 1000 False] 1600"
  have "input_ok ?i" "caches_ok ?i" "scale_spec ?i = ADD_NODE"
    by (simp_all add: sample_defs input_ok_def caches_ok_def scale_spec_def filled_spec_def memory_def)
  then show ?thesis using Calculate_refines_spec [of ?i] by auto
qed

text \<open>C16. The autoscaler keeps the pool within its bounds: it adds a node only below the maximum
  and (when the minimum is reached) only at the threshold; it deletes one only above the minimum,
  only while a stateless node is left, and only if the remaining nodes stay five percent below
  the threshold; it marks a node stateful only while a stateless one is left.\<close>

theorem Calculate_respects_bounds:
  assumes "input_ok i" and "caches_ok i" and "Calculate i = (Ret (a, msg, err), i')"
  shows "(a = ADD_NODE \<longrightarrow> len i < in_MaxNode i \<and> (len i < in_MinNode i
            \<or> in_Threshold i \<le> filled_spec (in_TotalUsed i) (in_Buffer i) (memory (in_Nodes i))))
    \<and> (a = DEL_NODE \<longrightarrow> in_MinNode i < len i \<and> stateful_count (in_Nodes i) < len i
            \<and> less_filled_spec i < in_Threshold i - 5)
    \<and> (a = ADD_STATEFUL \<longrightarrow> stateful_count (in_Nodes i) < len i)
    \<and> a \<noteq> DEL_STATEFUL"
proof -
  have a: "a = scale_spec i" using Calculate_decides [OF assms(1,2)] assms(3) by (auto simp: decides_def)
  have "scale_spec i \<noteq> DEL_STATEFUL" using scale_spec_cases [of i] by (auto simp: action_defs)
  then show ?thesis unfolding a
    using scale_spec_ADD_iff [of i] scale_spec_DEL_imp [of i] scale_spec_STATEFUL_imp [of i] by blast
qed

lemma Calculate_respects_bounds_witness:
  "\<exists>msg err i'. Calculate (sample_input [sample_node 1000 True, sample_node 1000 False] 100) = (Ret (DEL_NODE, msg, err), i')
    \<and> in_MinNode (sample_input [sample_node 1000 True, sample_node 1000 False] 100) < 2"
proof -
  let ?i = "sample_input [sample_node 1000 True, sample_node 1000 False] 100"
  have ok: "input_ok ?i" "caches_ok ?i"
    by (simp_all add: sample_defs input_ok_def caches_ok_def memory_def)
  have "scale_spec ?i = DEL_NODE"
    by (simp add: sample_defs scale_spec_def filled_spec_def less_filled_spec_def memory_def
        stateful_count_def stateful_filled_spec_def)
  then obtain msg i' where r: "Calculate ?i = (Ret (DEL_NODE, Some msg, None), i')"
    using Calculate_decides [OF ok] by (auto simp: decides_def)
  show ?thesis using r Calculate_respects_bounds [OF ok r] by (auto simp: sample_defs)
qed

text \<open>C11. The autoscaler does not flap: on a pool of equal nodes under an unchanged load, a
  decision to add a node is never followed by one to delete it, and a decision to delete the last
  node is never followed by one to add a node.\<close>

theorem Calculate_does_not_flap:
  assumes "pool_ok m b i" and "sz_Memory (rn_Size new) = m"
  shows "(action_of i = Some ADD_NODE \<longrightarrow> action_of (scale_round new i) \<noteq> Some DEL_NODE)
    \<and> (action_of i = Some DEL_NODE \<longrightarrow> action_of (scale_round new i) \<noteq> Some ADD_NODE)"
proof -
  have u: "uniform m (in_Nodes i)" using assms(1) by (simp add: pool_ok_def)
  note now = action_of_spec [OF pool_ok_input [OF assms(1)]]
  note next_round = action_of_spec [OF pool_ok_input [OF pool_ok_round(2) [OF assms]]]
  show ?thesis
    unfolding now next_round unfolding pool_ok_round(1) [OF assms]
    using add_then_no_del [OF u assms(2)] del_then_no_add [OF u]
    by (auto simp: apply_action_def)
qed

lemma Calculate_does_not_flap_witness:
  "action_of (sample_input [sample_node 1000 True] 900) = Some ADD_NODE
    \<and> action_of (scale_round (sample_node 1000 False) (sample_input [sample_node 1000 True] 900)) \<noteq> Some DEL_NODE"
proof -
  let ?i = "sample_input [sample_node 1000 True] 900"
  have ok: "pool_ok 1000 4 ?i" by (simp add: sample_defs pool_ok_def uniform_def caches_ok_def)
  have "scale_spec ?i = ADD_NODE" by (simp add: sample_defs scale_spec_def filled_spec_def memory_def)
  then have "action_of ?i = Some ADD_NODE" by (simp add: action_of_spec [OF pool_ok_input [OF ok]])
  then show ?thesis using Calculate_does_not_flap [OF ok, of "sample_node 1000 False"]
    by (simp add: sample_node_def)
qed

text \<open>C10. Repeated scaling ends: on a pool of equal nodes under an unchanged load, finitely many
  rounds of deciding and carrying the decision out reach a pool on which the autoscaler decides
  to do nothing.\<close>

theorem Calculate_converges:
  assumes "pool_ok m b i" and "sz_Memory (rn_Size new) = m"
  shows "\<exists>k. action_of ((scale_round new ^^ k) i) = Some NEUTRAL"
  using rounds_reach_neutral [OF assms] action_of_spec [OF pool_ok_input [OF pool_ok_rounds [OF assms]]]
  by metis

lemma Calculate_converges_witness:
  "\<exists>k. action_of ((scale_round (sample_node 1000 False) ^^ k) (sample_input [] 2500)) = Some NEUTRAL"
proof -
  have "pool_ok 1000 4 (sample_input [] 2500)"
    by (simp add: sample_defs pool_ok_def uniform_def caches_ok_def)
  then show ?thesis using Calculate_converges [of 1000 4 "sample_input [] 2500" "sample_node 1000 False"]
    by (simp add: sample_node_def)
qed

text \<open>A pool whose nodes report no memory (the sizes the controller computes for the provider
  \<open>do\<close>) grows to its maximum under any load, however small, when the threshold is at most 200.\<close>

theorem Calculate_grows_without_sizes:
  assumes "pool_ok 0 b i" and "0 < in_TotalUsed i" and "in_Threshold i \<le> 200"
    and "sz_Memory (rn_Size new) = 0" and "len i \<le> in_MaxNode i"
  shows "len ((scale_round new ^^ nat (in_MaxNode i - len i)) i) = in_MaxNode i"
  using zero_pool_rounds [OF assms(1-4), of "nat (in_MaxNode i - len i)"] assms(5) by simp

lemma Calculate_grows_without_sizes_witness:
  "len ((scale_round (sample_node 0 False) ^^ 3) (sample_input [sample_node 0 True] 1)) = 4"
proof -
  let ?i = "sample_input [sample_node 0 True] 1"
  have "pool_ok 0 4 ?i" by (simp add: sample_defs pool_ok_def uniform_def caches_ok_def)
  then show ?thesis using Calculate_grows_without_sizes [of 4 ?i "sample_node 0 False"]
    by (simp add: sample_defs)
qed

end
