(* ===== verification/NodePool.thy ===== *)
theory NodePool
  imports ApiTypes RCalculate
begin

text \<open>
  The node pool controller, \<open>controllers/infra/nodepool_controller.go\<close>: it lists the worker
  nodes of the pool's edge, asks the autoscaler, and creates, deletes or marks one node.  The
  worker nodes, the instance table, the YAML decoder and the unique names are the
  environment's.
\<close>

section \<open>Calls and environment\<close>

type_synonym workernode = "workernode_spec resource"

record idetail =
  id_Cpu :: int
  id_Memory :: int

record idetails =
  id_Aws :: "(string \<times> idetail) list"
  id_Do :: "(string \<times> idetail) list"

datatype np_call =
    NPList "(string \<times> string) list"
  | NPGetConfigMap string string
  | NPCreate workernode
  | NPDelete string
  | NPMark string

datatype np_local = LDetails idetails

type_synonym np_hist = "(nodepool_spec, np_call) hist"

text \<open>\<open>np_iter\<close> is the order in which a map literal is iterated; \<open>NPMark\<close> is the
  \<open>CreateOrUpdate\<close> that sets \<open>Stateful\<close>, whose error the code drops.\<close>

record np_env = "(nodepool_spec, np_call) kenv" +
  np_list :: "np_hist \<Rightarrow> error + workernode list"
  np_configmap :: "np_hist \<Rightarrow> error + string gomap"
  np_yaml :: "string \<Rightarrow> error + idetails"
  np_uuid :: "np_hist \<Rightarrow> string"
  np_create :: "np_hist \<Rightarrow> error option"
  np_delete :: "np_hist \<Rightarrow> error option"
  np_mark :: "np_hist \<Rightarrow> error option"
  np_iter :: "(string \<times> string) list \<Rightarrow> (string \<times> string) list"

type_synonym 'a np_act = "((nodepool_spec, np_call, np_local) rstate, 'a) act"

definition WorkerNodesReady :: string where "WorkerNodesReady = ''worker-nodes-ready''"
definition WorkerNodesDeleted :: string where "WorkerNodesDeleted = ''worker-nodes-deleted''"

section \<open>Fetching the instance table\<close>

definition NodePool_fetchRequired :: "np_env \<Rightarrow> step_result np_act" where
  "NodePool_fetchRequired E =
     andThen (ask (ECall (NPGetConfigMap ''default'' ''instance-details'')) (np_configmap E)) (\<lambda>r. case r of
       Inl e \<Rightarrow> Next
     | Inr dat \<Rightarrow> (case np_yaml E (gm_str dat ''details'') of
         Inl e \<Rightarrow> Next
       | Inr det \<Rightarrow> andThen (SetLocal ''instance-details'' (LDetails det)) (\<lambda>_. Next)))"

section \<open>The input of the autoscaler\<close>

text \<open>\<open>json.Unmarshal\<close> into the node's struct: its instance type is read even when an error was met.\<close>

definition instance_type :: "string \<Rightarrow> string" where
  "instance_type config = (case json_parse config of
     Some (JObj kvs) \<Rightarrow> fst (dec_string ''instanceType'' kvs '''') | _ \<Rightarrow> '''')"

definition getResourceSize :: "idetails \<Rightarrow> workernode \<Rightarrow> rsize" where
  "getResourceSize det n =
     (let d = (if wn_Provider (r_spec n) = ''aws'' then
                 (case map_of (id_Aws det) (instance_type (wn_Config (r_spec n))) of
                    Some d \<Rightarrow> d | None \<Rightarrow> \<lparr>id_Cpu = 0, id_Memory = 0\<rparr>)
               else \<lparr>id_Cpu = 0, id_Memory = 0\<rparr>)
      in \<lparr>sz_Memory = w64 (id_Memory d * 1000), sz_Cpu = w64 (id_Cpu d * 1000)\<rparr>)"

definition pool_input :: "idetails \<Rightarrow> nodepool_spec resource \<Rightarrow> workernode list \<Rightarrow> int \<Rightarrow> int \<Rightarrow> input" where
  "pool_input det obj workers used statefulUsed = \<lparr>in_MinNode = np_Min (r_spec obj), in_MaxNode = np_Max (r_spec obj),
     in_Nodes = map (\<lambda>n. \<lparr>rn_Name = om_Name (r_meta n), rn_Stateful = wn_Stateful (r_spec n),
                          rn_Size = getResourceSize det n\<rparr>) workers,
     in_StatefulUsed = statefulUsed, in_TotalUsed = used, in_Threshold = 80, in_Buffer = 0,
     in_statefulCount = 0, in_statefulAllocatable = None\<rparr>"

section \<open>Carrying out a decision\<close>

text \<open>The lowest index that no node has.\<close>

definition free_index :: "workernode list \<Rightarrow> int" where
  "free_index workers = (case List.find (\<lambda>i. \<not> list_ex (\<lambda>n. wn_Index (r_spec n) = i) workers)
        (map int [0..<length workers]) of
     Some i \<Rightarrow> i | None \<Rightarrow> int (length workers))"

definition last_index :: "workernode list \<Rightarrow> int" where
  "last_index workers = fold (\<lambda>n last. if last < wn_Index (r_spec n) then wn_Index (r_spec n) else last) workers 0"

definition new_worker :: "nodepool_spec resource \<Rightarrow> string \<Rightarrow> workernode list \<Rightarrow> workernode" where
  "new_worker obj uuid workers = \<lparr>
     r_meta = \<lparr>om_APIVersion = '''', om_Kind = '''', om_Name = uuid, om_Namespace = '''', om_UID = '''',
       om_Labels = Some [(RegionKey, np_EdgeName (r_spec obj))], om_Annotations = None, om_Finalizers = [],
       om_Owners = [AsOwner (r_meta obj) [True]], om_Generation = 0, om_Deleting = False\<rparr>,
     r_spec = \<lparr>wn_Stateful = False, wn_ClusterName = np_ClusterName (r_spec obj),
       wn_AccountName = np_AccountName (r_spec obj), wn_Region = np_Region (r_spec obj),
       wn_EdgeName = np_EdgeName (r_spec obj), wn_Provider = np_Provider (r_spec obj),
       wn_ProviderName = np_ProviderName (r_spec obj), wn_Config = np_Config (r_spec obj),
       wn_Pool = om_Name (r_meta obj), wn_Index = free_index workers\<rparr>,
     r_status = status0\<rparr>"

definition add_node :: "np_env \<Rightarrow> check \<Rightarrow> workernode list \<Rightarrow> step_result np_act" where
  "add_node E check workers = andThen (gets (\<lambda>s. (rs_obj s, np_uuid E (rs_hist s)))) (\<lambda>(obj, uuid).
     andThen (ask (ECall (NPCreate (new_worker obj uuid workers))) (np_create E)) (\<lambda>err. case err of
       Some e \<Rightarrow> CheckFailed E WorkerNodesReady check (errmsg e)
     | None \<Rightarrow> Done E []))"

definition del_node :: "np_env \<Rightarrow> check \<Rightarrow> workernode list \<Rightarrow> step_result np_act" where
  "del_node E check workers = (case List.find (\<lambda>n. wn_Index (r_spec n) = last_index workers) workers of
     None \<Rightarrow> Done E []
   | Some n \<Rightarrow> andThen (ask (ECall (NPDelete (om_Name (r_meta n)))) (np_delete E)) (\<lambda>err. case err of
         Some e \<Rightarrow> CheckFailed E WorkerNodesReady check (errmsg e)
       | None \<Rightarrow> Done E []))"

definition mark_node :: "np_env \<Rightarrow> workernode list \<Rightarrow> int \<Rightarrow> unit np_act" where
  "mark_node E workers cnt = (case List.find (\<lambda>n. wn_Index (r_spec n) = cnt) workers of
     None \<Rightarrow> ret ()
   | Some n \<Rightarrow> andThen (ask (ECall (NPMark (om_Name (r_meta n)))) (np_mark E)) (\<lambda>_. ret ()))"

definition carry_out :: "np_env \<Rightarrow> check \<Rightarrow> workernode list \<Rightarrow> input \<Rightarrow> int \<Rightarrow> step_result np_act" where
  "carry_out E check workers i action =
     (if action = ADD_NODE then add_node E check workers
      else if action = DEL_NODE \<and> workers \<noteq> [] then del_node E check workers
      else if action = ADD_STATEFUL then
        (case fst (GetStatefulCount i) of
           Panic m \<Rightarrow> crash m
         | Ret cnt \<Rightarrow> andThen (mark_node E workers cnt) (\<lambda>_. settleCheck E WorkerNodesReady check))
      else settleCheck E WorkerNodesReady check)"

definition scale_pool :: "np_env \<Rightarrow> check \<Rightarrow> workernode list \<Rightarrow> idetails \<Rightarrow> step_result np_act" where
  "scale_pool E check workers det = andThen (gets rs_obj) (\<lambda>obj.
     andThen (GetTotalPodRequest E (np_iter E [(RegionKey, np_EdgeName (r_spec obj))]) ''requests'') (\<lambda>r. case r of
       Inl e \<Rightarrow> CheckFailed E WorkerNodesReady check (errmsg e)
     | Inr totalUsed \<Rightarrow>
     andThen (GetTotalPodRequest E (np_iter E [(RegionKey, np_EdgeName (r_spec obj)),
         (''kloudlite.io/stateful-node'', ''true'')]) ''requests'') (\<lambda>r. case r of
       Inl e \<Rightarrow> CheckFailed E WorkerNodesReady check (errmsg e)
     | Inr statefulUsed \<Rightarrow>
         (case Calculate (pool_input det obj workers (res_Memory totalUsed) (res_Memory statefulUsed)) of
            (Panic m, _) \<Rightarrow> crash m
          | (Ret (action, msg, Some e), _) \<Rightarrow> CheckFailed E WorkerNodesReady check (errmsg e)
          | (Ret (action, None, None), _) \<Rightarrow> crash ''nil pointer dereference''
          | (Ret (action, Some msg, None), i) \<Rightarrow> carry_out E check workers i action))))"

definition reconWorkerNodes :: "np_env \<Rightarrow> step_result np_act" where
  "reconWorkerNodes E = andThen (gets rs_obj) (\<lambda>obj.
     let check = CheckGen (om_Generation (r_meta obj));
         go = (\<lambda>workers. andThen (GetLocal (\<lambda>l. case l of LDetails d \<Rightarrow> Some d) ''instance-details'') (\<lambda>det. case det of
             None \<Rightarrow> CheckFailed E WorkerNodesReady check ''instance-details not found to make decision''
           | Some det \<Rightarrow> scale_pool E check workers det))
     in andThen (ask (ECall (NPList [(RegionKey, np_EdgeName (r_spec obj))])) (np_list E)) (\<lambda>r. case r of
          Inl e \<Rightarrow> if \<not> IsNotFound e then CheckFailed E WorkerNodesReady check (errmsg e) else go []
        | Inr workers \<Rightarrow> go workers))"

section \<open>Deletion and the reconcile\<close>

definition NodePool_finalize :: "np_env \<Rightarrow> step_result np_act" where
  "NodePool_finalize E = andThen (gets rs_obj) (\<lambda>obj.
     andThen (ask (ECall (NPList [(RegionKey, np_EdgeName (r_spec obj))])) (np_list E)) (\<lambda>r. case r of
       Inl e \<Rightarrow> CheckFailed E WorkerNodesDeleted (CheckGen (om_Generation (r_meta obj))) (errmsg e)
     | Inr workers \<Rightarrow> if workers \<noteq> [] then Done E [] else Finalize E))"

definition NodePool_steps :: "np_env \<Rightarrow> (nodepool_spec, np_call, np_local) reconcile" where
  "NodePool_steps E = andStep (NodePool_fetchRequired E) (andStep (reconWorkerNodes E) (complete E))"

definition NodePool_Reconcile :: "np_env \<Rightarrow> (nodepool_spec, np_call, np_local) reconcile" where
  "NodePool_Reconcile E = reconcile_frame E NodePool_methods [WorkerNodesReady, WorkerNodesDeleted]
     (NodePool_finalize E) (NodePool_steps E)"

text \<open>The watch on nodes and pods: the request named by an object's region label.\<close>

definition NodePool_watch :: "objmeta \<Rightarrow> string list" where
  "NodePool_watch ob = (case gm_get (om_Labels ob) RegionKey of None \<Rightarrow> [] | Some l \<Rightarrow> [l])"

end
