(* ===== verification/NodePoolProps.thy ===== *)
theory NodePoolProps
  imports NodePool
begin

text \<open>
  What a pass of the node pool controller does to the cluster: it makes at most one change to
  the worker nodes, within the bounds of the pool, and over all passes the nodes keep
  consecutive indices with the stateful nodes first, so that scaling down never deletes a
  stateful node.
\<close>

section \<open>Changes to the worker nodes\<close>

fun mutating :: "np_call \<Rightarrow> bool" where
  "mutating (NPCreate _) = True"
| "mutating (NPDelete _) = True"
| "mutating (NPMark _) = True"
| "mutating (NPList _) = False"
| "mutating (NPGetConfigMap _ _) = False"

fun np_calls :: "('sp, np_call) hist \<Rightarrow> np_call list" where
  "np_calls [] = []"
| "np_calls (ECall c # es) = (if mutating c then c # np_calls es else np_calls es)"
| "np_calls (e # es) = np_calls es"

lemma np_calls_append [simp]: "np_calls (xs @ ys) = np_calls xs @ np_calls ys"
  by (induction xs rule: np_calls.induct) auto

definition quiet :: "('sp, np_call) event \<Rightarrow> bool" where
  "quiet e \<longleftrightarrow> np_calls [e] = []"

lemma quiet_simps [simp]:
  "quiet (EGet ns n)" "quiet (EUpdate x)" "quiet (EStatusUpdate x)" "quiet (EExec a)"
  "quiet (ECall c) \<longleftrightarrow> \<not> mutating c"
  by (simp_all add: quiet_def)

lemma quiet_ok [simp]: "status_ok quiet" "update_ok quiet" "exec_ok quiet"
  by (simp_all add: status_ok_def update_ok_def exec_ok_def)

lemma quiet_list: "\<forall>e \<in> set es. quiet e \<Longrightarrow> np_calls es = []"
  by (induction es rule: np_calls.induct) (auto simp: quiet_def)

text \<open>The changes an action makes, as a relation between states.\<close>

definition changes :: "np_call list \<Rightarrow> ('sp, np_call, 'lv) rstate \<Rightarrow> ('sp, np_call, 'lv) rstate \<Rightarrow> bool" where
  "changes cs s t \<longleftrightarrow> (\<exists>es. rs_hist t = rs_hist s @ es \<and> np_calls es = cs)"

lemma emits_quiet_changes: "emits quiet s t \<Longrightarrow> changes [] s t"
  by (auto simp: emits_def changes_def quiet_list)

lemma keeps_quiet_changes: "keeps (emits quiet) m \<Longrightarrow> m s = (r, t) \<Longrightarrow> changes [] s t"
  by (rule emits_quiet_changes) (rule keepsE)

lemma changes_trans: "changes as s t \<Longrightarrow> changes bs t u \<Longrightarrow> changes (as @ bs) s u"
  by (auto simp: changes_def)

lemma changes_refl [simp]: "changes [] s s"
  by (simp add: changes_def)

lemma changes_unique: "changes as s t \<Longrightarrow> changes bs s t \<Longrightarrow> as = bs"
  by (auto simp: changes_def)

text \<open>The change that fits a decision.\<close>

inductive fits :: "np_env \<Rightarrow> nodepool_spec resource \<Rightarrow> workernode list \<Rightarrow> int \<Rightarrow> np_call \<Rightarrow> bool"
  for E obj workers where
  create: "fits E obj workers ADD_NODE (NPCreate (new_worker obj (np_uuid E h) workers))"
| delete: "List.find (\<lambda>n. wn_Index (r_spec n) = last_index workers) workers = Some n \<Longrightarrow>
    fits E obj workers DEL_NODE (NPDelete (om_Name (r_meta n)))"
| mark: "List.find (\<lambda>n. wn_Index (r_spec n) = int (length (filter (\<lambda>n. wn_Stateful (r_spec n)) workers))) workers
      = Some n \<Longrightarrow>
    fits E obj workers ADD_STATEFUL (NPMark (om_Name (r_meta n)))"

inductive_cases fits_create: "fits E obj workers a (NPCreate n)"
inductive_cases fits_delete: "fits E obj workers a (NPDelete nm)"
inductive_cases fits_mark: "fits E obj workers a (NPMark nm)"

section \<open>Runs\<close>

lemma quiet_steps:
  "Done E rs s = (r, t) \<Longrightarrow> changes [] s t"
  "settleCheck E n c s = (r, t) \<Longrightarrow> changes [] s t"
  "CheckFailed E n c m s = (r, t) \<Longrightarrow> changes [] s t"
  by (erule keeps_quiet_changes [rotated], intro keeps_intros, simp)+

lemma ask_changes:
  "mutating c \<Longrightarrow> keeps (emits quiet) (k (f (rs_hist s @ [ECall c]))) \<Longrightarrow>
   andThen (ask (ECall c) f) k s = (r, t) \<Longrightarrow> changes [c] s t"
  using changes_trans [of "[c]" s "s\<lparr>rs_hist := rs_hist s @ [ECall c]\<rparr>" "[]" t]
    keeps_quiet_changes [of "k (f (rs_hist s @ [ECall c]))" "s\<lparr>rs_hist := rs_hist s @ [ECall c]\<rparr>" r t]
  by (auto simp: ask_def andThen_apply changes_def)

lemma add_node_changes:
  assumes "add_node E check workers s = (r, t)"
  shows "changes [NPCreate (new_worker (rs_obj s) (np_uuid E (rs_hist s)) workers)] s t"
proof (rule ask_changes)
  show "andThen (ask (ECall (NPCreate (new_worker (rs_obj s) (np_uuid E (rs_hist s)) workers))) (np_create E))
      (\<lambda>err. case err of Some e \<Rightarrow> CheckFailed E WorkerNodesReady check (errmsg e) | None \<Rightarrow> Done E []) s = (r, t)"
    using assms by (simp add: add_node_def)
qed (auto intro!: keeps_intros split: option.split)

lemma del_node_changes:
  assumes "del_node E check workers s = (r, t)"
  shows "changes [] s t \<or> (\<exists>n. List.find (\<lambda>n. wn_Index (r_spec n) = last_index workers) workers = Some n
    \<and> changes [NPDelete (om_Name (r_meta n))] s t)"
proof (cases "List.find (\<lambda>n. wn_Index (r_spec n) = last_index workers) workers")
  case None
  then have "Done E [] s = (r, t)" using assms by (simp add: del_node_def)
  then show ?thesis by (blast intro: quiet_steps)
next
  case (Some n)
  have "changes [NPDelete (om_Name (r_meta n))] s t"
  proof (rule ask_changes)
    show "andThen (ask (ECall (NPDelete (om_Name (r_meta n)))) (np_delete E))
      (\<lambda>err. case err of Some e \<Rightarrow> CheckFailed E WorkerNodesReady check (errmsg e) | None \<Rightarrow> Done E []) s = (r, t)"
      using assms Some by (simp add: del_node_def)
  qed (auto intro!: keeps_intros split: option.split)
  with Some show ?thesis by blast
qed

lemma mark_node_changes:
  assumes "andThen (mark_node E workers cnt) (\<lambda>_. settleCheck E WorkerNodesReady check) s = (r, t)"
  shows "changes [] s t \<or> (\<exists>n. List.find (\<lambda>n. wn_Index (r_spec n) = cnt) workers = Some n
    \<and> changes [NPMark (om_Name (r_meta n))] s t)"
proof (cases "List.find (\<lambda>n. wn_Index (r_spec n) = cnt) workers")
  case None
  then have "settleCheck E WorkerNodesReady check s = (r, t)" using assms by (simp add: mark_node_def)
  then show ?thesis by (blast intro: quiet_steps)
next
  case (Some n)
  have "changes [NPMark (om_Name (r_meta n))] s t"
  proof (rule ask_changes)
    show "andThen (ask (ECall (NPMark (om_Name (r_meta n)))) (np_mark E))
      (\<lambda>_. settleCheck E WorkerNodesReady check) s = (r, t)"
      using assms Some by (simp add: mark_node_def andThen_assoc)
  qed (auto intro!: keeps_intros)
  with Some show ?thesis by blast
qed

lemma carry_out_changes:
  assumes run: "carry_out E check workers i a s = (r, t)"
    and cnt: "GetStatefulCount i = (Ret (int (length (filter (\<lambda>n. wn_Stateful (r_spec n)) workers))), j)"
  shows "changes [] s t \<or> (\<exists>c. changes [c] s t \<and> fits E (rs_obj s) workers a c)"
proof -
  consider (add) "a = ADD_NODE" | (del) "a = DEL_NODE" "workers \<noteq> []" | (mark) "a = ADD_STATEFUL"
    | (rest) "a \<noteq> ADD_NODE" "\<not> (a = DEL_NODE \<and> workers \<noteq> [])" "a \<noteq> ADD_STATEFUL" by blast
  then show ?thesis
  proof cases
    case add
    then have "add_node E check workers s = (r, t)" using run by (simp add: carry_out_def)
    from add_node_changes [OF this] show ?thesis using add by (blast intro: fits.create)
  next
    case del
    then have "del_node E check workers s = (r, t)" using run by (simp add: carry_out_def)
    from del_node_changes [OF this] show ?thesis using del by (blast intro: fits.delete)
  next
    case mark
    then have "andThen (mark_node E workers (int (length (filter (\<lambda>n. wn_Stateful (r_spec n)) workers))))
        (\<lambda>_. settleCheck E WorkerNodesReady check) s = (r, t)"
      using run cnt by (simp add: carry_out_def)
    from mark_node_changes [OF this] show ?thesis using mark by (blast intro: fits.mark)
  next
    case rest
    then have "settleCheck E WorkerNodesReady check s = (r, t)" using run by (auto simp: carry_out_def)
    then show ?thesis by (blast intro: quiet_steps)
  qed
qed

lemma pool_input_sel [simp]:
  "in_Nodes (pool_input det obj ws u v) = map (\<lambda>n. \<lparr>rn_Name = om_Name (r_meta n), rn_Stateful = wn_Stateful (r_spec n),
      rn_Size = getResourceSize det n\<rparr>) ws"
  "in_MinNode (pool_input det obj ws u v) = np_Min (r_spec obj)"
  "in_MaxNode (pool_input det obj ws u v) = np_Max (r_spec obj)"
  "in_statefulCount (pool_input det obj ws u v) = 0"
  by (simp_all add: pool_input_def)

definition marked :: "workernode list \<Rightarrow> int" where
  "marked ws = int (length (filter (\<lambda>n. wn_Stateful (r_spec n)) ws))"

lemma pool_input_stateful [simp]:
  "stateful_count (map (\<lambda>n. \<lparr>rn_Name = om_Name (r_meta n), rn_Stateful = wn_Stateful (r_spec n),
      rn_Size = getResourceSize det n\<rparr>) ws) = marked ws"
  by (induction ws) (simp_all add: stateful_count_def marked_def)

text \<open>A change is within the bounds of the pool.\<close>

definition bounded_change :: "np_env \<Rightarrow> nodepool_spec resource \<Rightarrow> workernode list \<Rightarrow> np_call \<Rightarrow> bool" where
  "bounded_change E obj ws c \<longleftrightarrow> (\<exists>a. fits E obj ws a c
     \<and> (a = ADD_NODE \<longrightarrow> int (length ws) < np_Max (r_spec obj))
     \<and> (a = DEL_NODE \<longrightarrow> np_Min (r_spec obj) < int (length ws) \<and> marked ws < int (length ws))
     \<and> (a = ADD_STATEFUL \<longrightarrow> marked ws < int (length ws)))"

lemma scale_pool_changes:
  assumes run: "scale_pool E check ws det s = (r, t)"
  shows "changes [] s t \<or> (\<exists>c. changes [c] s t \<and> bounded_change E (rs_obj s) ws c)"
proof -
  let ?l1 = "np_iter E [(RegionKey, np_EdgeName (r_spec (rs_obj s)))]"
  let ?l2 = "np_iter E [(RegionKey, np_EdgeName (r_spec (rs_obj s))), (''kloudlite.io/stateful-node'', ''true'')]"
  have failed: "CheckFailed E WorkerNodesReady check m u = (r, t) \<Longrightarrow> changes [] u t" for m u
    by (rule quiet_steps)
  obtain x u where u: "GetTotalPodRequest E ?l1 ''requests'' s = (Ret x, u)" "rs_obj u = rs_obj s"
    using GetTotalPodRequest_total by blast
  have su: "changes [] s u" by (rule keeps_quiet_changes [OF keeps_emits_GetTotalPodRequest u(1)]) simp
  show ?thesis
  proof (cases x)
    case (Inl e)
    then have "CheckFailed E WorkerNodesReady check (errmsg e) u = (r, t)"
      using run u by (simp add: scale_pool_def)
    then show ?thesis using failed changes_trans [OF su] by fastforce
  next
    case (Inr used)
    obtain y v where v: "GetTotalPodRequest E ?l2 ''requests'' u = (Ret y, v)" "rs_obj v = rs_obj u"
      using GetTotalPodRequest_total by blast
    have "changes [] u v" by (rule keeps_quiet_changes [OF keeps_emits_GetTotalPodRequest v(1)]) simp
    then have sv: "changes [] s v" using changes_trans [OF su] by fastforce
    show ?thesis
    proof (cases y)
      case (Inl e)
      then have "CheckFailed E WorkerNodesReady check (errmsg e) v = (r, t)"
        using run u v Inr by (simp add: scale_pool_def)
      then show ?thesis using failed changes_trans [OF sv] by fastforce
    next
      case y: (Inr sused)
      let ?i = "pool_input det (rs_obj s) ws (res_Memory used) (res_Memory sused)"
      have rest: "(case Calculate ?i of
            (Panic m, _) \<Rightarrow> crash m
          | (Ret (action, msg, Some e), _) \<Rightarrow> CheckFailed E WorkerNodesReady check (errmsg e)
          | (Ret (action, None, None), _) \<Rightarrow> crash ''nil pointer dereference''
          | (Ret (action, Some msg, None), i) \<Rightarrow> carry_out E check ws i action) v = (r, t)"
        using run u v Inr y by (simp add: scale_pool_def)
      obtain d j where d: "Calculate ?i = (d, j)" by fastforce
      show ?thesis
      proof (cases "\<exists>a msg. d = Ret (a, Some msg, None)")
        case False
        then have "changes [] v t"
          using rest d failed by (cases d) (auto split: prod.splits option.splits)
        then show ?thesis using changes_trans [OF sv] by fastforce
      next
        case True
        then obtain a msg where a: "d = Ret (a, Some msg, None)" by blast
        have cc: "count_cached ?i" by (simp add: count_cached_def)
        note b = Calculate_bounds [OF cc d [unfolded a]]
        have "GetStatefulCount j = (Ret (marked ws), counted j)"
          using GetStatefulCount_counts [of j] b same_input_sel(1) [of ?i j] by simp
        moreover have "carry_out E check ws j a v = (r, t)" using rest d a by simp
        ultimately have "changes [] v t \<or> (\<exists>c. changes [c] v t \<and> fits E (rs_obj s) ws a c)"
          using carry_out_changes u(2) v(2) unfolding marked_def by metis
        then show ?thesis
        proof
          assume "changes [] v t"
          then show ?thesis using changes_trans [OF sv] by fastforce
        next
          assume "\<exists>c. changes [c] v t \<and> fits E (rs_obj s) ws a c"
          then obtain c where c: "changes [c] v t" "fits E (rs_obj s) ws a c" by blast
          have "bounded_change E (rs_obj s) ws c"
            unfolding bounded_change_def using c(2) b
            by (intro exI [of _ a]) (simp add: decision_ok_def)
          then show ?thesis using changes_trans [OF sv c(1)] by auto
        qed
      qed
    qed
  qed
qed

lemma reconWorkerNodes_changes:
  assumes run: "reconWorkerNodes E s = (r, t)" and list: "\<forall>h. np_list E h = Inr ws"
  shows "changes [] s t \<or> (\<exists>c. changes [c] s t \<and> bounded_change E (rs_obj s) ws c)"
proof -
  let ?e = "ECall (NPList [(RegionKey, np_EdgeName (r_spec (rs_obj s)))])"
  let ?u = "s\<lparr>rs_hist := rs_hist s @ [?e]\<rparr>"
  let ?check = "CheckGen (om_Generation (r_meta (rs_obj s)))"
  have su: "changes [] s ?u" by (simp add: changes_def)
  have rest: "(case map_of (rs_locals s) ''instance-details'' of
       None \<Rightarrow> CheckFailed E WorkerNodesReady ?check ''instance-details not found to make decision''
     | Some (LDetails det) \<Rightarrow> scale_pool E ?check ws det) ?u = (r, t)"
    using run list
    by (simp add: reconWorkerNodes_def Let_def ask_def andThen_apply GetLocal_def
        split: option.splits np_local.splits)
  show ?thesis
  proof (cases "map_of (rs_locals s) ''instance-details''")
    case None
    then have "changes [] ?u t" using rest quiet_steps(3) by fastforce
    then show ?thesis using changes_trans [OF su] by fastforce
  next
    case (Some l)
    obtain det where "l = LDetails det" by (cases l)
    then have "scale_pool E ?check ws det ?u = (r, t)" using rest Some by simp
    from scale_pool_changes [OF this] have "changes [] ?u t \<or> (\<exists>c. changes [c] ?u t \<and> bounded_change E (rs_obj s) ws c)"
      by simp
    then show ?thesis using changes_trans [OF su] by fastforce
  qed
qed

lemma fetchRequired_run:
  "\<exists>t. NodePool_fetchRequired E s = (Ret (Continue New True), t) \<and> rs_obj t = rs_obj s \<and> changes [] s t"
  by (auto simp: NodePool_fetchRequired_def ask_def andThen_apply Next_def ret_def SetLocal_def changes_def
      split: sum.split)

lemma NodePool_finalize_quiet: "keeps (emits quiet) (NodePool_finalize E)"
  unfolding NodePool_finalize_def by (auto intro!: keeps_intros split: sum.split)

lemma NodePool_steps_changes:
  assumes run: "NodePool_steps E s = (r, t)" and list: "\<forall>h. np_list E h = Inr ws"
  shows "changes [] s t \<or> (\<exists>c. changes [c] s t \<and> bounded_change E (rs_obj s) ws c)"
proof -
  obtain u where u: "NodePool_fetchRequired E s = (Ret (Continue New True), u)" "rs_obj u = rs_obj s" "changes [] s u"
    using fetchRequired_run by blast
  obtain x v where v: "reconWorkerNodes E u = (x, v)" by fastforce
  have rest: "(case x of Panic e \<Rightarrow> (Panic e, v)
      | Ret q \<Rightarrow> (if ShouldProceed q then complete E else ret (ReconcilerResponse q)) v) = (r, t)"
    using run u(1) v by (simp add: NodePool_steps_def andStep_def andThen_apply split: res.splits)
  have "changes [] v t"
  proof (cases x)
    case (Ret q)
    have "keeps (emits quiet) (complete E)" by (intro keeps_intros) simp
    then show ?thesis using Ret rest keeps_quiet_changes [of "complete E" v r t]
      by (cases "ShouldProceed q") (auto simp: ret_def)
  next
    case (Panic e)
    then show ?thesis using rest by simp
  qed
  then have end_of: "changes cs s t" if "changes cs u v" for cs
    using changes_trans [OF changes_trans [OF u(3) that], of "[]" t] by simp
  show ?thesis
    using reconWorkerNodes_changes [OF v list] u(2) end_of by metis
qed

lemma NodePool_Reconcile_changes:
  assumes run: "NodePool_Reconcile E s = (r, t)" and list: "\<forall>h. np_list E h = Inr ws"
  shows "changes [] s t \<or> (\<exists>c. changes [c] s t \<and> bounded_change E (rs_obj s) ws c)"
  using run unfolding NodePool_Reconcile_def
proof (rule frame_run_cases [where Q = quiet])
  assume "NodePool_steps E s = (r, t)"
  then show ?thesis by (rule NodePool_steps_changes [OF _ list])
qed (use NodePool_finalize_quiet emits_quiet_changes in auto)

section \<open>The worker nodes over time\<close>

text \<open>What a change does to the nodes of the edge.\<close>

fun pool_effect :: "np_call \<Rightarrow> workernode list \<Rightarrow> workernode list" where
  "pool_effect (NPCreate n) ws = ws @ [n]"
| "pool_effect (NPDelete nm) ws = filter (\<lambda>n. om_Name (r_meta n) \<noteq> nm) ws"
| "pool_effect (NPMark nm) ws =
     map (\<lambda>n. if om_Name (r_meta n) = nm then n\<lparr>r_spec := (r_spec n)\<lparr>wn_Stateful := True\<rparr>\<rparr> else n) ws"
| "pool_effect _ ws = ws"

abbreviation wname :: "workernode \<Rightarrow> string" where "wname n \<equiv> om_Name (r_meta n)"
abbreviation windex :: "workernode \<Rightarrow> int" where "windex n \<equiv> wn_Index (r_spec n)"

text \<open>A pass over a pool of the edge, with the listing up to date and names that are fresh.\<close>

definition pass_on :: "np_env \<Rightarrow> (nodepool_spec, np_call, np_local) rstate \<Rightarrow> workernode list \<Rightarrow> np_call list \<Rightarrow> bool" where
  "pass_on E s ws cs \<longleftrightarrow> (\<forall>h. np_list E h = Inr ws) \<and> (\<forall>h. np_uuid E h \<notin> wname ` set ws)
     \<and> changes cs s (snd (NodePool_Reconcile E s))"

inductive reachable :: "workernode list \<Rightarrow> bool" where
  start: "reachable []"
| pass: "reachable ws \<Longrightarrow> pass_on E s ws cs \<Longrightarrow> reachable (fold pool_effect cs ws)"

lemma pass_on_change:
  assumes "pass_on E s ws cs"
  shows "cs = [] \<or> (\<exists>c. cs = [c] \<and> bounded_change E (rs_obj s) ws c)"
proof -
  obtain r t where t: "NodePool_Reconcile E s = (r, t)" by fastforce
  have cs: "changes cs s t" and list: "\<forall>h. np_list E h = Inr ws" using assms t by (auto simp: pass_on_def)
  from NodePool_Reconcile_changes [OF t list] show ?thesis using cs changes_unique by blast
qed

text \<open>Consecutive indices, distinct names, and the stateful nodes first.\<close>

definition pool_inv :: "workernode list \<Rightarrow> bool" where
  "pool_inv ws \<longleftrightarrow> distinct (map wname ws) \<and> distinct (map windex ws)
     \<and> windex ` set ws = {0..<int (length ws)}
     \<and> (\<forall>n \<in> set ws. wn_Stateful (r_spec n) \<longleftrightarrow> windex n < marked ws)"

lemma free_index_inv:
  assumes "windex ` set ws = {0..<int (length ws)}"
  shows "free_index ws = int (length ws)"
proof -
  have "list_ex (\<lambda>n. windex n = i) ws" if "i \<in> set (map int [0..<length ws])" for i
  proof -
    from that have "i \<in> windex ` set ws" using assms by auto
    then show ?thesis by (auto simp: list_ex_iff)
  qed
  then have "List.find (\<lambda>i. \<not> list_ex (\<lambda>n. windex n = i) ws) (map int [0..<length ws]) = None"
    by (auto simp: find_None_iff)
  then show ?thesis by (simp add: free_index_def)
qed

lemma fold_max: "fold (\<lambda>n last. if last < f n then f n else last) ws (a :: int) = fold max (map f ws) a"
  by (induction ws arbitrary: a) (auto simp: max_def)

lemma last_index_inv:
  assumes "windex ` set ws = {0..<int (length ws)}" and "ws \<noteq> []"
  shows "last_index ws = int (length ws) - 1"
proof -
  have "fold max (map windex ws) 0 = Max (set (0 # map windex ws))" by (rule Max.set_eq_fold [symmetric])
  also have "\<dots> = int (length ws) - 1" using assms by (intro Max_eqI) auto
  finally show ?thesis by (simp add: last_index_def fold_max)
qed

lemma find_prop: "List.find P xs = Some x \<Longrightarrow> P x \<and> x \<in> set xs"
  using find_SomeD [of P xs x] by auto

lemma free_index_fresh: "free_index ws \<notin> windex ` set ws"
proof (cases "List.find (\<lambda>i. \<not> list_ex (\<lambda>n. windex n = i) ws) (map int [0..<length ws])")
  case (Some i)
  then show ?thesis using find_prop [OF Some] by (auto simp: free_index_def list_ex_iff)
next
  case None
  then have all: "i \<in> windex ` set ws" if "i \<in> set (map int [0..<length ws])" for i
    using that unfolding find_None_iff list_ex_iff by blast
  have "set (map int [0..<length ws]) = {0..<int (length ws)}" by (simp add: image_int_atLeastLessThan)
  then have sub: "{0..<int (length ws)} \<subseteq> windex ` set ws" using all by blast
  have "card (windex ` set ws) \<le> length ws" by (metis card_length length_map set_map)
  moreover have "card {0..<int (length ws)} = length ws" by simp
  ultimately have "windex ` set ws = {0..<int (length ws)}"
    using sub card_seteq [of "windex ` set ws" "{0..<int (length ws)}"] by auto
  then show ?thesis using None by (simp add: free_index_def)
qed

lemma last_index_max: "k \<in> set ws \<Longrightarrow> windex k \<le> last_index ws"
proof -
  assume "k \<in> set ws"
  moreover have "fold max (map windex ws) 0 = Max (set (0 # map windex ws))" by (rule Max.set_eq_fold [symmetric])
  ultimately show ?thesis by (simp add: last_index_def fold_max)
qed

lemma filter_other:
  assumes "distinct (map f xs)" and "x \<in> set xs"
  shows "filter (\<lambda>y. f y \<noteq> f x) xs = remove1 x xs"
  using assms
proof (induction xs)
  case (Cons y ys)
  show ?case
  proof (cases "x = y")
    case True
    then have "f z \<noteq> f x" if "z \<in> set ys" for z
      using Cons.prems(1) that by (metis distinct.simps(2) image_eqI list.simps(9) set_map)
    then show ?thesis using True by (simp add: filter_True)
  next
    case False
    then have "f y \<noteq> f x" using Cons.prems by force
    then show ?thesis using False Cons by simp
  qed
qed simp

lemma marked_filter: "marked ws = int (card {n \<in> set ws. wn_Stateful (r_spec n)})" if "distinct (map wname ws)"
proof -
  have "distinct ws" using that by (simp add: distinct_map)
  then show ?thesis by (simp add: marked_def distinct_length_filter Collect_conj_eq Int_commute)
qed

lemma create_inv:
  assumes inv: "pool_inv ws" and n: "wname n \<notin> wname ` set ws" "windex n = free_index ws" "\<not> wn_Stateful (r_spec n)"
  shows "pool_inv (ws @ [n])"
proof -
  have idx: "windex ` set ws = {0..<int (length ws)}" using inv by (simp add: pool_inv_def)
  have ni: "windex n = int (length ws)" using n(2) free_index_inv [OF idx] by simp
  have m: "marked (ws @ [n]) = marked ws" using n(3) by (simp add: marked_def)
  have "marked ws \<le> int (length ws)" by (simp add: marked_def)
  then have "wn_Stateful (r_spec k) \<longleftrightarrow> windex k < marked (ws @ [n])" if "k \<in> set (ws @ [n])" for k
    using that inv n(3) ni m by (auto simp: pool_inv_def)
  moreover have "windex ` set (ws @ [n]) = {0..<int (length (ws @ [n]))}" using idx ni by auto
  moreover have "windex n \<notin> windex ` set ws" using idx ni by auto
  ultimately show ?thesis using inv n(1) by (simp add: pool_inv_def)
qed

lemma delete_inv:
  assumes inv: "pool_inv ws" and n: "n \<in> set ws" "windex n = int (length ws) - 1" and m: "marked ws < int (length ws)"
  shows "\<not> wn_Stateful (r_spec n)" and "pool_inv (filter (\<lambda>k. wname k \<noteq> wname n) ws)"
proof -
  have d: "distinct (map wname ws)" "distinct (map windex ws)" and idx: "windex ` set ws = {0..<int (length ws)}"
    using inv by (auto simp: pool_inv_def)
  show st: "\<not> wn_Stateful (r_spec n)" using inv n m by (auto simp: pool_inv_def)
  let ?ws = "filter (\<lambda>k. wname k \<noteq> wname n) ws"
  have len: "length ?ws = length ws - 1" using filter_other [OF d(1) n(1)] n(1) by (simp add: length_remove1)
  have pos: "0 < length ws" using n(1) by (cases ws) auto
  have len: "int (length ?ws) = int (length ws) - 1"
    unfolding len using pos by (simp add: of_nat_diff Suc_leI)
  have same: "k \<in> set ?ws \<longleftrightarrow> k \<in> set ws \<and> windex k \<noteq> windex n" for k
    using d n(1) by (auto simp: distinct_map inj_on_def)
  have "windex ` set ?ws = {0..<int (length ws)} - {windex n}" using idx same by fastforce
  also have "\<dots> = {0..<int (length ws) - 1}" using n(2) by auto
  finally have idx': "windex ` set ?ws = {0..<int (length ?ws)}" unfolding len .
  have "{k \<in> set ?ws. wn_Stateful (r_spec k)} = {k \<in> set ws. wn_Stateful (r_spec k)}"
    using st same d n(1) by (auto simp: distinct_map inj_on_def)
  then have "marked ?ws = marked ws"
    using marked_filter [OF d(1)] marked_filter [of ?ws] d(1) by (simp add: distinct_map_filter)
  then show "pool_inv ?ws"
    using inv idx' d by (auto simp: pool_inv_def distinct_map_filter)
qed

lemma mark_inv:
  assumes inv: "pool_inv ws" and n: "n \<in> set ws" "windex n = marked ws"
  shows "pool_inv (map (\<lambda>k. if wname k = wname n then k\<lparr>r_spec := (r_spec k)\<lparr>wn_Stateful := True\<rparr>\<rparr> else k) ws)"
proof -
  let ?f = "\<lambda>k. if wname k = wname n then k\<lparr>r_spec := (r_spec k)\<lparr>wn_Stateful := True\<rparr>\<rparr> else k"
  have d: "distinct (map wname ws)" "distinct (map windex ws)" using inv by (auto simp: pool_inv_def)
  have names: "map wname (map ?f ws) = map wname ws" "map windex (map ?f ws) = map windex ws" by simp_all
  have only: "wname k = wname n \<longleftrightarrow> k = n" "windex k = windex n \<longleftrightarrow> k = n" if "k \<in> set ws" for k
    using d n(1) that by (auto simp: distinct_map inj_on_def)
  have st: "\<not> wn_Stateful (r_spec n)" using inv n by (auto simp: pool_inv_def)
  have dw: "distinct ws" using d(1) by (simp add: distinct_map)
  have cnt: "length (filter (\<lambda>k. wn_Stateful (r_spec k)) (map ?f xs))
      = length (filter (\<lambda>k. wn_Stateful (r_spec k)) xs) + (if n \<in> set xs then 1 else 0)"
    if "set xs \<subseteq> set ws" "distinct xs" for xs
    using that by (induction xs) (auto simp: only st)
  then have m: "marked (map ?f ws) = marked ws + 1" using n(1) dw by (simp add: marked_def)
  have "wn_Stateful (r_spec (?f k)) \<longleftrightarrow> windex (?f k) < marked (map ?f ws)" if "k \<in> set ws" for k
    unfolding m using inv n only [OF that] that by (auto simp: pool_inv_def)
  then have first: "\<forall>k \<in> set (map ?f ws). wn_Stateful (r_spec k) \<longleftrightarrow> windex k < marked (map ?f ws)"
    by (simp only: set_map ball_simps)  blast
  have idx: "windex ` set (map ?f ws) = windex ` set ws" using names(2) by (metis set_map)
  show ?thesis
    unfolding pool_inv_def names idx length_map using inv first by (simp only: pool_inv_def simp_thms)
qed

lemma change_inv:
  assumes inv: "pool_inv ws" and b: "bounded_change E obj ws c" and fresh: "\<forall>h. np_uuid E h \<notin> wname ` set ws"
  shows "pool_inv (pool_effect c ws) \<and> (\<forall>nm. c = NPDelete nm \<longrightarrow> (\<forall>n \<in> set ws. wname n = nm \<longrightarrow> \<not> wn_Stateful (r_spec n)))"
proof -
  obtain a where f: "fits E obj ws a c"
    and del: "a = DEL_NODE \<longrightarrow> marked ws < int (length ws)" using b by (auto simp: bounded_change_def)
  have names: "distinct (map wname ws)" and idx: "windex ` set ws = {0..<int (length ws)}"
    using inv by (auto simp: pool_inv_def)
  from f show ?thesis
  proof cases
    case (create h)
    then show ?thesis using create_inv [OF inv, of "new_worker obj (np_uuid E h) ws"] fresh
      by (simp add: new_worker_def)
  next
    case (delete n)
    have n: "n \<in> set ws" "windex n = last_index ws" using find_prop [OF delete(3)] by auto
    then have ne: "ws \<noteq> []" by auto
    note d = delete_inv [OF inv n(1)] 
    have only: "k = n" if "k \<in> set ws" "wname k = wname n" for k
      using names that n(1) by (auto simp: distinct_map inj_on_def)
    show ?thesis
      using d n last_index_inv [OF idx ne] del delete only by auto
  next
    case (mark n)
    have "n \<in> set ws" "windex n = marked ws" using find_prop [OF mark(3)] by (auto simp: marked_def)
    then show ?thesis using mark_inv [OF inv] mark by simp
  qed
qed

lemma reachable_inv: "reachable ws \<Longrightarrow> pool_inv ws"
proof (induction rule: reachable.induct)
  case start
  then show ?case by (simp add: pool_inv_def)
next
  case (pass ws E s cs)
  have "\<forall>h. np_uuid E h \<notin> wname ` set ws" using pass(2) by (simp add: pass_on_def)
  then show ?case using pass_on_change [OF pass(2)] change_inv [OF pass(3)] pass(3) by auto
qed

section \<open>Properties\<close>

text \<open>C3. A pass of the node pool controller changes at most one worker node, within the bounds of
  the pool: it creates one, with an index no listed node has, only below the maximum; it deletes
  one, of the highest index, only above the minimum and while a stateless node is left; it marks
  one only while a stateless node is left.\<close>

theorem NodePool_pass_is_bounded:
  assumes "pass_on E s ws cs"
  shows "length cs \<le> 1
    \<and> (\<forall>n. NPCreate n \<in> set cs \<longrightarrow> int (length ws) < np_Max (r_spec (rs_obj s)) \<and> windex n \<notin> windex ` set ws
         \<and> wn_Pool (r_spec n) = om_Name (r_meta (rs_obj s)))
    \<and> (\<forall>nm. NPDelete nm \<in> set cs \<longrightarrow> np_Min (r_spec (rs_obj s)) < int (length ws) \<and> marked ws < int (length ws)
         \<and> (\<exists>n \<in> set ws. wname n = nm \<and> (\<forall>k \<in> set ws. windex k \<le> windex n)))
    \<and> (\<forall>nm. NPMark nm \<in> set cs \<longrightarrow> marked ws < int (length ws))"
proof -
  have bound: "length cs \<le> 1" using pass_on_change [OF assms] by auto
  have each: "bounded_change E (rs_obj s) ws c" if "c \<in> set cs" for c
    using pass_on_change [OF assms] that by auto
  have create: "int (length ws) < np_Max (r_spec (rs_obj s)) \<and> windex n \<notin> windex ` set ws
      \<and> wn_Pool (r_spec n) = om_Name (r_meta (rs_obj s))" if "NPCreate n \<in> set cs" for n
    using each [OF that] free_index_fresh [of ws]
    by (auto simp: bounded_change_def new_worker_def elim!: fits_create)
  have del: "np_Min (r_spec (rs_obj s)) < int (length ws) \<and> marked ws < int (length ws)
      \<and> (\<exists>n \<in> set ws. wname n = nm \<and> (\<forall>k \<in> set ws. windex k \<le> windex n))" if nm: "NPDelete nm \<in> set cs" for nm
  proof -
    obtain a where f: "fits E (rs_obj s) ws a (NPDelete nm)"
      and b: "a = DEL_NODE \<longrightarrow> np_Min (r_spec (rs_obj s)) < int (length ws) \<and> marked ws < int (length ws)"
      using each [OF nm] by (auto simp: bounded_change_def)
    from f obtain n where n: "List.find (\<lambda>n. windex n = last_index ws) ws = Some n"
      and "nm = wname n" "a = DEL_NODE" by (auto elim!: fits_delete)
    moreover have "n \<in> set ws" "windex n = last_index ws" using find_prop [OF n] by auto
    ultimately show ?thesis using b last_index_max [of _ ws] by auto
  qed
  have mark: "marked ws < int (length ws)" if "NPMark nm \<in> set cs" for nm
    using each [OF that] by (auto simp: bounded_change_def elim!: fits_mark)
  show ?thesis using bound create del mark by blast
qed



section \<open>Witnesses\<close>

definition sample_np_env :: "workernode list \<Rightarrow> string \<Rightarrow> np_env" where
  "sample_np_env ws uuid = \<lparr>k_now = (\<lambda>_. 0), k_get = (\<lambda>_. Inl (NotFound ''not found'')),
     k_update = stored_update, k_status_update = stored_update, k_exec = (\<lambda>_. ExecOk ''[]''),
     k_find = (\<lambda>cs t. List.find (\<lambda>c. cType c = t) cs),
     k_add_finalizer = (\<lambda>fs f. if f \<in> set fs then fs else fs @ [f]),
     k_remove_finalizer = (\<lambda>fs f. filter (\<lambda>g. g \<noteq> f) fs),
     np_list = (\<lambda>_. Inr ws), np_configmap = (\<lambda>_. Inr (Some [(''details'', ''aws'')])),
     np_yaml = (\<lambda>_. Inr \<lparr>id_Aws = [(''t3.small'', \<lparr>id_Cpu = 2, id_Memory = 2\<rparr>)], id_Do = []\<rparr>),
     np_uuid = (\<lambda>_. uuid), np_create = (\<lambda>_. None), np_delete = (\<lambda>_. None), np_mark = (\<lambda>_. None),
     np_iter = id\<rparr>"

definition sample_pool_spec :: "int \<Rightarrow> nodepool_spec" where
  "sample_pool_spec m = \<lparr>np_AccountName = ''acc'', np_ClusterName = ''c'', np_EdgeName = ''edge'', np_Provider = ''aws'',
     np_ProviderName = ''prov'', np_Region = ''r'', np_Config = '''', np_Min = m, np_Max = 3\<rparr>"

definition sample_pool :: "int \<Rightarrow> (nodepool_spec, np_call, np_local) rstate" where
  "sample_pool m = (let ob = \<lparr>r_meta = sample_meta, r_spec = sample_pool_spec m, r_status = status0\<rparr> in
     \<lparr>rs_obj = redo (Some (NodePool_labels ob)) (Some (NodePool_annotations ob)) frame_finalizers
        (status0\<lparr>st_Checks := Some [(WorkerNodesReady, Check0), (WorkerNodesDeleted, Check0)]\<rparr>) ob,
      rs_hist = [], rs_locals = []\<rparr>)"

definition sample_w0 :: workernode where
  "sample_w0 = new_worker (rs_obj (sample_pool 2)) ''u0'' []"

definition sample_w1 :: workernode where
  "sample_w1 = new_worker (rs_obj (sample_pool 2)) ''u1'' [sample_w0]"

definition sample_marked :: "workernode list" where
  "sample_marked = pool_effect (NPMark ''u0'') [sample_w0, sample_w1]"

lemma sample_pass_on:
  assumes "np_calls (rs_hist (snd (NodePool_Reconcile (sample_np_env ws u) (sample_pool m)))) = cs"
    and "u \<notin> wname ` set ws"
  shows "pass_on (sample_np_env ws u) (sample_pool m) ws cs"
  using assms by (simp add: pass_on_def changes_def sample_np_env_def sample_pool_def Let_def)

lemma sample_create: "pass_on (sample_np_env [] ''u0'') (sample_pool 2) [] [NPCreate sample_w0]"
  by (rule sample_pass_on, code_simp, simp)

lemma sample_create2: "pass_on (sample_np_env [sample_w0] ''u1'') (sample_pool 2) [sample_w0] [NPCreate sample_w1]"
  by (rule sample_pass_on, code_simp, code_simp)

lemma sample_mark:
  "pass_on (sample_np_env [sample_w0, sample_w1] ''u2'') (sample_pool 0) [sample_w0, sample_w1] [NPMark ''u0'']"
  by (rule sample_pass_on, code_simp, code_simp)

lemma sample_delete: "pass_on (sample_np_env sample_marked ''u2'') (sample_pool 0) sample_marked [NPDelete ''u1'']"
  by (rule sample_pass_on, code_simp, code_simp)

lemma sample_reachable: "reachable sample_marked"
proof -
  have "reachable [sample_w0]" using reachable.pass [OF reachable.start sample_create] by simp
  from reachable.pass [OF this sample_create2] have "reachable [sample_w0, sample_w1]" by simp
  from reachable.pass [OF this sample_mark] show ?thesis by (simp add: sample_marked_def)
qed

lemma NodePool_pass_is_bounded_witness:
  "np_Min (r_spec (rs_obj (sample_pool 0))) < int (length sample_marked) \<and> marked sample_marked < int (length sample_marked)"
  using NodePool_pass_is_bounded [OF sample_delete] by auto



text \<open>C21. The nodes of an edge are shared by its pools: a pass over a pool, which lists by edge, can
  delete a worker node that another pool of the edge created, although none of its own is listed.\<close>

theorem NodePool_deletes_nodes_of_other_pools:
  "\<exists>E s ws n. pass_on E s ws [NPDelete (wname n)] \<and> n \<in> set ws
     \<and> filter (\<lambda>k. wn_Pool (r_spec k) = om_Name (r_meta (rs_obj s))) ws = []"
proof -
  define ws where "ws = map (\<lambda>k. k\<lparr>r_spec := (r_spec k)\<lparr>wn_Pool := ''other''\<rparr>\<rparr>) sample_marked"
  have "pass_on (sample_np_env ws ''u2'') (sample_pool 0) ws [NPDelete ''u1'']"
    unfolding ws_def by (rule sample_pass_on, code_simp, code_simp)
  then have pass: "n \<in> set ws \<Longrightarrow> wname n = ''u1'' \<Longrightarrow> pass_on (sample_np_env ws ''u2'') (sample_pool 0) ws [NPDelete (wname n)]" for n
    by simp
  have "\<exists>n \<in> set ws. wname n = ''u1''" unfolding ws_def by code_simp
  then obtain n where n: "n \<in> set ws" "wname n = ''u1''" by (rule bexE)
  have "filter (\<lambda>k. wn_Pool (r_spec k) = om_Name (r_meta (rs_obj (sample_pool 0)))) ws = []"
    unfolding ws_def by code_simp
  then show ?thesis
    by (intro exI [of _ "sample_np_env ws ''u2''"] exI [of _ "sample_pool 0"] exI [of _ ws] exI [of _ n] conjI)
      (rule pass [OF n], rule n(1), assumption)
qed

end
