(* ===== verification/CloudProvider.thy ===== *)
theory CloudProvider
  imports ApiTypes
begin

text \<open>
  The cloud provider controller, \<open>controllers/infra/cloudprovider_controller.go\<close>: it has no
  steps of its own, and on deletion waits for the provider's edges, then deletes its secret.
\<close>

section \<open>Calls and steps\<close>

datatype cp_call =
    CPListEdges "(string \<times> string) list"
  | CPGetSecret string string
  | CPDeleteSecret string string

record cp_env = "(cloudprovider_spec, cp_call) kenv" +
  cp_edges :: "(cloudprovider_spec, cp_call) hist \<Rightarrow> error + string list"
  cp_secret :: "(cloudprovider_spec, cp_call) hist \<Rightarrow> error option"
  cp_delete :: "(cloudprovider_spec, cp_call) hist \<Rightarrow> error option"

type_synonym 'a cp_act = "((cloudprovider_spec, cp_call, unit) rstate, 'a) act"

definition EdgesDeleted :: string where "EdgesDeleted = ''edges-deleted''"
definition KloudliteNS :: string where "KloudliteNS = ''kl-core''"
definition RegionReady :: string where "RegionReady = ''region-ready''"
definition PoolReady :: string where "PoolReady = ''pool-ready''"

text \<open>The edges are listed by name; a list that fails because nothing is found is empty.\<close>

definition CloudProvider_release :: "cp_env \<Rightarrow> string \<Rightarrow> check \<Rightarrow> step_result cp_act" where
  "CloudProvider_release E name check =
     andThen (ask (ECall (CPGetSecret KloudliteNS name)) (cp_secret E)) (\<lambda>err. case err of
       Some e \<Rightarrow> if IsNotFound e then Finalize E else CheckFailed E EdgesDeleted check (errmsg e)
     | None \<Rightarrow> andThen (ask (ECall (CPDeleteSecret KloudliteNS name)) (cp_delete E)) (\<lambda>err. case err of
           Some e \<Rightarrow> CheckFailed E EdgesDeleted check (errmsg e)
         | None \<Rightarrow> Finalize E))"

definition CloudProvider_finalize :: "cp_env \<Rightarrow> step_result cp_act" where
  "CloudProvider_finalize E = andThen (gets rs_obj) (\<lambda>obj.
     let check = CheckGen (om_Generation (r_meta obj)); name = om_Name (r_meta obj)
     in andThen (ask (ECall (CPListEdges [(ProviderNameKey, name)])) (cp_edges E)) (\<lambda>r. case r of
          Inl e \<Rightarrow> if \<not> IsNotFound e then CheckFailed E EdgesDeleted check (errmsg e)
                   else CloudProvider_release E name check
        | Inr edges \<Rightarrow> if edges \<noteq> [] then Done E [] else CloudProvider_release E name check))"

definition CloudProvider_Reconcile :: "cp_env \<Rightarrow> (cloudprovider_spec, cp_call, unit) reconcile" where
  "CloudProvider_Reconcile E = reconcile_frame E CloudProvider_methods [RegionReady, PoolReady]
     (CloudProvider_finalize E) (complete E)"

section \<open>Releasing the provider\<close>

lemma CloudProvider_release_runs:
  assumes "CloudProvider_release E n c u = (r, t)"
  defines "h \<equiv> rs_hist u @ [ECall (CPGetSecret KloudliteNS n)]"
  shows "(\<exists>e x. cp_secret E h = Some e \<and> IsNotFound e \<and> rs_hist t = h @ [EUpdate x])
    \<or> (\<exists>ds. cp_secret E h \<noteq> None \<and> rs_hist t = h @ ds \<and> (\<forall>e \<in> set ds. status_event e))
    \<or> (cp_secret E h = None \<and> (\<exists>ds. rs_hist t = h @ ECall (CPDeleteSecret KloudliteNS n) # ds \<and>
         ((\<forall>e \<in> set ds. status_event e)
          \<or> (cp_delete E (h @ [ECall (CPDeleteSecret KloudliteNS n)]) = None \<and> (\<exists>x. ds = [EUpdate x])))))"
proof -
  let ?u = "u\<lparr>rs_hist := h\<rparr>" and ?d = "h @ [ECall (CPDeleteSecret KloudliteNS n)]"
  have status: "\<exists>ds. rs_hist t = rs_hist v @ ds \<and> (\<forall>e \<in> set ds. status_event e)"
    if "CheckFailed E EdgesDeleted c m v = (r, t)" for m v
    using status_runs(2) [OF that] by (simp add: emits_def)
  show ?thesis
  proof (cases "cp_secret E h")
    case (Some e)
    then have "(if IsNotFound e then Finalize E else CheckFailed E EdgesDeleted c (errmsg e)) ?u = (r, t)"
      using assms(1) by (simp add: CloudProvider_release_def ask_def andThen_apply h_def)
    then show ?thesis using Some status [of _ ?u] Finalize_hist [of E ?u r t] by (auto split: if_splits)
  next
    case None
    then have "(case cp_delete E ?d of Some e \<Rightarrow> CheckFailed E EdgesDeleted c (errmsg e) | None \<Rightarrow> Finalize E)
        (u\<lparr>rs_hist := ?d\<rparr>) = (r, t)"
      using assms(1) by (simp add: CloudProvider_release_def ask_def andThen_apply h_def)
    then show ?thesis
      using None status [of _ "u\<lparr>rs_hist := ?d\<rparr>"] Finalize_hist [of E "u\<lparr>rs_hist := ?d\<rparr>" r t]
      by (auto split: option.splits)
  qed
qed

text \<open>C22. A cloud provider is only released after its edges and its secret: when the finalizer sends
  the object itself, the edges listed were none, and the secret was absent or its deletion had
  just been accepted; the secret is deleted only when no edges were listed.\<close>

theorem CloudProvider_released_last:
  assumes "CloudProvider_finalize E s = (r, t)" and "rs_hist t = rs_hist s @ es"
  defines "h \<equiv> rs_hist s @ [ECall (CPListEdges [(ProviderNameKey, om_Name (r_meta (rs_obj s)))])]"
  defines "h' \<equiv> h @ [ECall (CPGetSecret KloudliteNS (om_Name (r_meta (rs_obj s))))]"
  defines "no_edges \<equiv> cp_edges E h = Inr [] \<or> (\<exists>e. cp_edges E h = Inl e \<and> IsNotFound e)"
  shows "(\<forall>x. EUpdate x \<in> set es \<longrightarrow> no_edges \<and> ((\<exists>e. cp_secret E h' = Some e \<and> IsNotFound e)
      \<or> (cp_secret E h' = None
          \<and> cp_delete E (h' @ [ECall (CPDeleteSecret KloudliteNS (om_Name (r_meta (rs_obj s))))]) = None)))
    \<and> (\<forall>ns n. ECall (CPDeleteSecret ns n) \<in> set es \<longrightarrow> no_edges \<and> cp_secret E h' = None)"
proof -
  let ?n = "om_Name (r_meta (rs_obj s))" and ?c = "CheckGen (om_Generation (r_meta (rs_obj s)))"
  have status: "\<exists>ds. rs_hist t = rs_hist u @ ds \<and> (\<forall>e \<in> set ds. status_event e)"
    if "Done E rs u = (r, t) \<or> CheckFailed E n c m u = (r, t)" for rs n c m u
    using that status_runs [of E] unfolding emits_def by blast
  show ?thesis
  proof (cases no_edges)
    case False
    then obtain u where "rs_hist u = h" "Done E [] u = (r, t) \<or> (\<exists>c m. CheckFailed E EdgesDeleted c m u = (r, t))"
      using assms(1) unfolding no_edges_def h_def
      by (force simp: CloudProvider_finalize_def Let_def ask_def andThen_apply split: sum.splits if_splits)
    with status obtain ds where "rs_hist t = h @ ds" "\<forall>e \<in> set ds. status_event e" by metis
    then show ?thesis using assms(2) by (auto simp: h_def status_list)
  next
    case True
    then have "CloudProvider_release E ?n ?c (s\<lparr>rs_hist := h\<rparr>) = (r, t)"
      using assms(1) unfolding no_edges_def h_def
      by (auto simp: CloudProvider_finalize_def Let_def ask_def andThen_apply)
    from CloudProvider_release_runs [OF this] True show ?thesis
      using assms(2) unfolding h'_def by (auto simp: h_def status_list)
  qed
qed

definition sample_cp_env :: cp_env where
  "sample_cp_env = kenv.extend storing_env \<lparr>cp_edges = (\<lambda>_. Inr []),
     cp_secret = (\<lambda>_. Some (NotFound ''no secret'')), cp_delete = (\<lambda>_. None)\<rparr>"

lemma CloudProvider_released_last_witness:
  "\<forall>ns n. ECall (CPDeleteSecret ns n) \<notin> set (rs_hist (snd (CloudProvider_finalize sample_cp_env (sample_state ()))))"
proof -
  obtain r t where run: "CloudProvider_finalize sample_cp_env (sample_state ()) = (r, t)" by fastforce
  have "rs_hist t = rs_hist (sample_state () :: (unit, cp_call, unit) rstate) @ rs_hist t"
    by (simp add: sample_state_def)
  from CloudProvider_released_last [OF run this] show ?thesis
    using run by (simp add: sample_cp_env_def kenv.extend_def)
qed

end
