(* ===== verification/Edge.thy ===== *)
theory Edge
  imports ApiTypes CloudProvider
begin

text \<open>
  The edge controller, \<open>controllers/infra/edge_controller.go\<close>: an edge is owned by its cloud
  provider, has a region of its name, and one node pool for every pool of its spec, written by
  \<open>kubectl apply\<close>.  The templates and \<open>kubectl\<close> are the environment's; an applied document is
  represented by the values given to its template.
\<close>

section \<open>Calls and environment\<close>

type_synonym nodepool = "nodepool_spec resource"

datatype eg_call =
    EGProvider string
  | EGRegion string
  | EGListPools "(string \<times> string) list"
  | EGApplyRegion string string string
  | EGApplyPools "nodepool list"

type_synonym eg_hist = "(edge_spec, eg_call) hist"

record eg_env = "(edge_spec, eg_call) kenv" +
  eg_provider :: "eg_hist \<Rightarrow> error + cloudprovider_spec resource"
  eg_region :: "eg_hist \<Rightarrow> error + region_spec resource"
  eg_pools :: "eg_hist \<Rightarrow> error + nodepool list"
  eg_render_region :: "string \<Rightarrow> string \<Rightarrow> string \<Rightarrow> error option"
  eg_render_pools :: "nodepool list \<Rightarrow> error option"
  eg_apply :: "eg_hist \<Rightarrow> error option"

type_synonym 'a eg_act = "((edge_spec, eg_call, unit) rstate, 'a) act"

definition DefaultsPatched :: string where "DefaultsPatched = ''defaults-patched''"
definition NodePoolsDeleted :: string where "NodePoolsDeleted = ''NodePoolsDeleted''"

section \<open>The steps\<close>

definition Edge_PatchDefaults :: "eg_env \<Rightarrow> step_result eg_act" where
  "Edge_PatchDefaults E = andThen (gets rs_obj) (\<lambda>obj.
     let check = CheckGen (om_Generation (r_meta obj)) in
     andThen (ask (ECall (EGProvider (eg_ProviderName (r_spec obj)))) (eg_provider E)) (\<lambda>r. case r of
       Inl e \<Rightarrow> andThen (CheckFailed E DefaultsPatched check (errmsg e)) (\<lambda>r. ret (Err r None))
     | Inr cp \<Rightarrow>
         if \<not> IsOwner (r_meta obj) (AsOwner (r_meta cp) []) then
           andThen (modMeta (\<lambda>m. m\<lparr>om_Owners := om_Owners m @ [AsOwner (r_meta cp) [True]]\<rparr>)) (\<lambda>_.
           andThen (client_Update E) (\<lambda>err. case err of
             Some e \<Rightarrow> CheckFailed E DefaultsPatched check (errmsg e)
           | None \<Rightarrow> andThen (Done E []) (\<lambda>r. ret (RequeueAfter r (1 * Second)))))
         else settleCheck E DefaultsPatched check))"

definition applyRegion :: "eg_env \<Rightarrow> error option eg_act" where
  "applyRegion E = andThen (gets rs_obj) (\<lambda>obj.
     let name = om_Name (r_meta obj); account = eg_AccountName (r_spec obj); provider = eg_Provider (r_spec obj)
     in case eg_render_region E name account provider of
          Some e \<Rightarrow> ret (Some e)
        | None \<Rightarrow> ask (ECall (EGApplyRegion name account provider)) (eg_apply E))"

definition Edge_reconRegion :: "eg_env \<Rightarrow> step_result eg_act" where
  "Edge_reconRegion E = andThen (gets rs_obj) (\<lambda>obj.
     let check = CheckGen (om_Generation (r_meta obj));
         apply_then = andThen (applyRegion E) (\<lambda>err. case err of
             Some e \<Rightarrow> CheckFailed E RegionReady check (errmsg e)
           | None \<Rightarrow> settleCheck E RegionReady check)
     in andThen (ask (ECall (EGRegion (om_Name (r_meta obj)))) (eg_region E)) (\<lambda>r. case r of
          Inl e \<Rightarrow> if \<not> IsNotFound e then CheckFailed E RegionReady check (errmsg e) else apply_then
        | Inr reg \<Rightarrow> if rg_AccountName (r_spec reg) \<noteq> eg_AccountName (r_spec obj) then apply_then
                     else settleCheck E RegionReady check))"

definition pool_name :: "string \<Rightarrow> string \<Rightarrow> string" where
  "pool_name edge p = edge @ ''-'' @ p"

definition edge_pools :: "edge_spec resource \<Rightarrow> nodepool list" where
  "edge_pools obj = map (\<lambda>p. \<lparr>
     r_meta = \<lparr>om_APIVersion = '''', om_Kind = '''', om_Name = pool_name (om_Name (r_meta obj)) (pl_Name p),
       om_Namespace = '''', om_UID = '''', om_Labels = Some (Edge_labels obj), om_Annotations = None,
       om_Finalizers = [], om_Owners = [AsOwner (r_meta obj) [True]], om_Generation = 0, om_Deleting = False\<rparr>,
     r_spec = \<lparr>np_AccountName = eg_AccountName (r_spec obj), np_ClusterName = eg_ClusterName (r_spec obj),
       np_EdgeName = om_Name (r_meta obj), np_Provider = eg_Provider (r_spec obj),
       np_ProviderName = eg_ProviderName (r_spec obj), np_Region = eg_Region (r_spec obj),
       np_Config = pl_Config p, np_Min = pl_Min p, np_Max = pl_Max p\<rparr>,
     r_status = status0\<rparr>) (eg_Pools (r_spec obj))"

definition UpdatePool :: "eg_env \<Rightarrow> error option eg_act" where
  "UpdatePool E = andThen (gets rs_obj) (\<lambda>obj. case eg_render_pools E (edge_pools obj) of
     Some e \<Rightarrow> ret (Some e)
   | None \<Rightarrow> ask (ECall (EGApplyPools (edge_pools obj))) (eg_apply E))"

definition pool_matches :: "string \<Rightarrow> pool \<Rightarrow> nodepool \<Rightarrow> bool" where
  "pool_matches edge p np \<longleftrightarrow> pool_name edge (pl_Name p) = om_Name (r_meta np) \<and> pl_Min p = np_Min (r_spec np)
     \<and> pl_Max p = np_Max (r_spec np) \<and> pl_Config p = np_Config (r_spec np)"

text \<open>The pools of the spec in turn: all are applied again for each one that does not match.\<close>

fun match_pools :: "eg_env \<Rightarrow> string \<Rightarrow> nodepool list \<Rightarrow> pool list \<Rightarrow> error option eg_act" where
  "match_pools E edge nps [] = ret None"
| "match_pools E edge nps (p # ps) =
     (if list_ex (pool_matches edge p) nps then match_pools E edge nps ps
      else andThen (UpdatePool E) (\<lambda>err. case err of
          Some e \<Rightarrow> ret (Some e)
        | None \<Rightarrow> match_pools E edge nps ps))"

definition Edge_reconPool :: "eg_env \<Rightarrow> step_result eg_act" where
  "Edge_reconPool E = andThen (gets rs_obj) (\<lambda>obj.
     let check = CheckGen (om_Generation (r_meta obj));
         finish = (\<lambda>m. andThen m (\<lambda>err. case err of
             Some e \<Rightarrow> CheckFailed E PoolReady check (errmsg e)
           | None \<Rightarrow> settleCheck E PoolReady check))
     in andThen (ask (ECall (EGListPools [(''kloudlite.io/edge.name'', om_Name (r_meta obj))])) (eg_pools E)) (\<lambda>r. case r of
          Inl e \<Rightarrow> if \<not> IsNotFound e then CheckFailed E RegionReady check (errmsg e) else finish (UpdatePool E)
        | Inr nps \<Rightarrow> if length nps \<noteq> length (eg_Pools (r_spec obj)) then finish (UpdatePool E)
                     else finish (match_pools E (om_Name (r_meta obj)) nps (eg_Pools (r_spec obj)))))"

definition Edge_finalize :: "eg_env \<Rightarrow> step_result eg_act" where
  "Edge_finalize E = andThen (gets rs_obj) (\<lambda>obj.
     let check = CheckGen (om_Generation (r_meta obj)) in
     andThen (ask (ECall (EGListPools [(EdgeNameKey, om_Name (r_meta obj))])) (eg_pools E)) (\<lambda>r. case r of
       Inl e \<Rightarrow> CheckFailed E NodePoolsDeleted check (errmsg e)
     | Inr nps \<Rightarrow> if nps \<noteq> [] then Done E [] else Finalize E))"

definition Edge_steps :: "eg_env \<Rightarrow> (edge_spec, eg_call, unit) reconcile" where
  "Edge_steps E = andStep (Edge_PatchDefaults E) (andStep (Edge_reconRegion E)
     (andStep (Edge_reconPool E) (complete E)))"

definition Edge_Reconcile :: "eg_env \<Rightarrow> (edge_spec, eg_call, unit) reconcile" where
  "Edge_Reconcile E = reconcile_frame E Edge_methods [RegionReady, PoolReady] (Edge_finalize E) (Edge_steps E)"

section \<open>When the pools are applied\<close>

text \<open>The listed pools are what the spec asks for, as far as the code compares.\<close>

definition pools_match :: "edge_spec resource \<Rightarrow> nodepool list \<Rightarrow> bool" where
  "pools_match obj nps \<longleftrightarrow> length nps = length (eg_Pools (r_spec obj))
     \<and> (\<forall>p \<in> set (eg_Pools (r_spec obj)). \<exists>np \<in> set nps. pool_matches (om_Name (r_meta obj)) p np)"

definition list_event :: "edge_spec resource \<Rightarrow> (edge_spec, eg_call) event" where
  "list_event obj = ECall (EGListPools [(''kloudlite.io/edge.name'', om_Name (r_meta obj))])"

lemma match_pools_all:
  "\<forall>p \<in> set ps. \<exists>np \<in> set nps. pool_matches edge p np \<Longrightarrow> match_pools E edge nps ps = ret None"
  by (induction ps) (auto simp: list_ex_iff)

lemma match_pools_none:
  assumes "p \<in> set ps" and "\<forall>np \<in> set nps. \<not> pool_matches edge p np"
  shows "\<exists>ps'. match_pools E edge nps ps = andThen (UpdatePool E) (\<lambda>err. case err of
      Some e \<Rightarrow> ret (Some e) | None \<Rightarrow> match_pools E edge nps ps')"
  using assms by (induction ps) (auto simp: list_ex_iff)

text \<open>The calls of an action, after the state it starts from.\<close>

definition applies :: "(edge_spec, eg_call, 'lv) rstate \<Rightarrow> (edge_spec, eg_call, 'lv) rstate \<Rightarrow> bool" where
  "applies s t \<longleftrightarrow> (\<exists>es docs. rs_hist t = rs_hist s @ es \<and> ECall (EGApplyPools docs) \<in> set es)"

lemma UpdatePool_run:
  assumes "eg_render_pools E (edge_pools (rs_obj s)) = None"
  shows "UpdatePool E s = (Ret (eg_apply E (rs_hist s @ [ECall (EGApplyPools (edge_pools (rs_obj s)))])),
    s\<lparr>rs_hist := rs_hist s @ [ECall (EGApplyPools (edge_pools (rs_obj s)))]\<rparr>)"
  using assms by (simp add: UpdatePool_def ask_def)

lemma keeps_UpdatePool: "(\<And>docs. Q (ECall (EGApplyPools docs))) \<Longrightarrow> keeps (emits Q) (UpdatePool E)"
  unfolding UpdatePool_def by (auto intro!: keeps_intros split: option.split)

lemma keeps_match_pools: "(\<And>docs. Q (ECall (EGApplyPools docs))) \<Longrightarrow> keeps (emits Q) (match_pools E edge nps ps)"
  by (induction ps) (auto intro!: keeps_intros keeps_UpdatePool split: option.split)

text \<open>The finishing lines and the check they are about.\<close>

definition pool_end :: "eg_env \<Rightarrow> check \<Rightarrow> error option \<Rightarrow> step_result eg_act" where
  "pool_end E check err = (case err of
     Some e \<Rightarrow> CheckFailed E PoolReady check (errmsg e) | None \<Rightarrow> settleCheck E PoolReady check)"

lemma keeps_pool_end: "keeps (emits status_event) (pool_end E check err)"
  unfolding pool_end_def by (auto intro!: keeps_intros split: option.split)

lemma Edge_reconPool_listed:
  assumes "eg_pools E (rs_hist s @ [list_event (rs_obj s)]) = Inr nps"
  defines "u \<equiv> s\<lparr>rs_hist := rs_hist s @ [list_event (rs_obj s)]\<rparr>"
  shows "Edge_reconPool E s = andThen
     (if length nps \<noteq> length (eg_Pools (r_spec (rs_obj s))) then UpdatePool E
      else match_pools E (om_Name (r_meta (rs_obj s))) nps (eg_Pools (r_spec (rs_obj s))))
     (pool_end E (CheckGen (om_Generation (r_meta (rs_obj s))))) u"
  using assms(1) unfolding u_def
  by (simp add: Edge_reconPool_def Let_def ask_def andThen_apply pool_end_def [abs_def] list_event_def)

lemma Edge_reconPool_settled:
  assumes "eg_pools E (rs_hist s @ [list_event (rs_obj s)]) = Inr nps" and "pools_match (rs_obj s) nps"
  shows "\<not> applies s (snd (Edge_reconPool E s))"
proof -
  let ?u = "s\<lparr>rs_hist := rs_hist s @ [list_event (rs_obj s)]\<rparr>"
  have "Edge_reconPool E s = pool_end E (CheckGen (om_Generation (r_meta (rs_obj s)))) None ?u"
    unfolding Edge_reconPool_listed [OF assms(1)]
    using assms(2) by (simp add: pools_match_def match_pools_all)
  then have "emits status_event ?u (snd (Edge_reconPool E s))" by (simp add: keepsD keeps_pool_end)
  then show ?thesis by (auto simp: emits_def applies_def list_event_def status_list)
qed

lemma Edge_reconPool_applies:
  assumes "eg_pools E (rs_hist s @ [list_event (rs_obj s)]) = Inr nps" and "\<not> pools_match (rs_obj s) nps"
    and "eg_render_pools E (edge_pools (rs_obj s)) = None"
  shows "\<exists>es. rs_hist (snd (Edge_reconPool E s)) = rs_hist s @ list_event (rs_obj s)
    # ECall (EGApplyPools (edge_pools (rs_obj s))) # es"
proof -
  let ?u = "s\<lparr>rs_hist := rs_hist s @ [list_event (rs_obj s)]\<rparr>"
  let ?fin = "pool_end E (CheckGen (om_Generation (r_meta (rs_obj s))))"
  let ?ps = "eg_Pools (r_spec (rs_obj s))" and ?edge = "om_Name (r_meta (rs_obj s))"
  define Q :: "(edge_spec, eg_call) event \<Rightarrow> bool" where "Q = (\<lambda>_. True)"
  have Q: "Q e" "status_ok Q" for e by (simp_all add: Q_def status_ok_def)
  have "\<exists>k. Edge_reconPool E s = andThen (UpdatePool E) k ?u \<and> (\<forall>x. keeps (emits Q) (k x))"
  proof (cases "length nps = length ?ps")
    case False
    then show ?thesis using Q unfolding Edge_reconPool_listed [OF assms(1)]
      by (intro exI [of _ ?fin]) (auto simp: pool_end_def intro!: keeps_intros split: option.split)
  next
    case True
    then obtain p where "p \<in> set ?ps" "\<forall>np \<in> set nps. \<not> pool_matches ?edge p np"
      using assms(2) by (auto simp: pools_match_def)
    from match_pools_none [OF this] obtain ps' where m: "match_pools E ?edge nps ?ps = andThen (UpdatePool E)
      (\<lambda>err. case err of Some e \<Rightarrow> ret (Some e) | None \<Rightarrow> match_pools E ?edge nps ps')" by blast
    then show ?thesis using True Q unfolding Edge_reconPool_listed [OF assms(1)]
      by (intro exI [of _ "\<lambda>x. andThen (case x of Some e \<Rightarrow> ret (Some e) | None \<Rightarrow> match_pools E ?edge nps ps') ?fin"])
         (auto simp: andThen_assoc pool_end_def intro!: keeps_intros keeps_match_pools split: option.split)
  qed
  then obtain k where k: "Edge_reconPool E s = andThen (UpdatePool E) k ?u" "\<And>x. keeps (emits Q) (k x)" by blast
  have r: "eg_render_pools E (edge_pools (rs_obj ?u)) = None" using assms(3) by simp
  let ?v = "s\<lparr>rs_hist := rs_hist s @ [list_event (rs_obj s), ECall (EGApplyPools (edge_pools (rs_obj s)))]\<rparr>"
  have "emits Q ?v (snd (k (eg_apply E (rs_hist ?v)) ?v))" by (rule keepsD [OF k(2)])
  then show ?thesis
    unfolding k(1) by (auto simp: UpdatePool_run [OF r] andThen_apply emits_def)
qed

lemma edge_pools_match: "pools_match obj (edge_pools obj)"
  by (auto simp: pools_match_def edge_pools_def pool_matches_def)

text \<open>\<open>kubectl apply\<close>: a document replaces the spec of the object of its name, or creates it.\<close>

definition upsert :: "nodepool \<Rightarrow> nodepool list \<Rightarrow> nodepool list" where
  "upsert d nps = (if om_Name (r_meta d) \<in> (\<lambda>n. om_Name (r_meta n)) ` set nps
     then map (\<lambda>n. if om_Name (r_meta n) = om_Name (r_meta d) then n\<lparr>r_spec := r_spec d\<rparr> else n) nps
     else nps @ [d])"

definition kubectl_apply :: "nodepool list \<Rightarrow> nodepool list \<Rightarrow> nodepool list" where
  "kubectl_apply docs nps = fold upsert docs nps"

abbreviation npname :: "nodepool \<Rightarrow> string" where "npname n \<equiv> om_Name (r_meta n)"

lemma upsert_names:
  "map npname (upsert d nps) = map npname nps @ (if npname d \<in> npname ` set nps then [] else [npname d])"
  by (simp add: upsert_def)

lemma apply_names:
  "distinct (map npname nps) \<Longrightarrow> distinct (map npname (kubectl_apply docs nps))
    \<and> npname ` set nps \<subseteq> npname ` set (kubectl_apply docs nps)"
proof (induction docs arbitrary: nps)
  case (Cons d docs)
  have n: "distinct (map npname (upsert d nps))" using Cons.prems by (auto simp: upsert_names)
  have "npname ` set nps \<subseteq> npname ` set (upsert d nps)" unfolding set_map [symmetric] by (simp add: upsert_names)
  then show ?case using Cons.IH [OF n] by (auto simp: kubectl_apply_def)
qed (simp add: kubectl_apply_def)

lemma stale_no_match:
  assumes pools: "distinct (map pl_Name (eg_Pools (r_spec obj)))" and d: "distinct (map npname nps)"
    and stale: "x \<in> npname ` set nps" "x \<notin> npname ` set (edge_pools obj)"
  shows "\<not> pools_match obj nps"
proof
  let ?ps = "eg_Pools (r_spec obj)" and ?edge = "om_Name (r_meta obj)"
  let ?names = "(\<lambda>p. pool_name ?edge (pl_Name p)) ` set ?ps"
  assume m: "pools_match obj nps"
  have sub: "?names \<subseteq> npname ` set nps"
    using m by (fastforce simp: pools_match_def pool_matches_def)
  have "card ?names = length ?ps"
    using pools by (subst card_image) (auto simp: pool_name_def inj_on_def distinct_map distinct_card)
  moreover have "card (npname ` set nps) = length nps"
    using distinct_card [OF d] by simp
  ultimately have "?names = npname ` set nps"
    using m sub by (intro card_subset_eq) (auto simp: pools_match_def)
  moreover have "?names = npname ` set (edge_pools obj)" by (simp add: edge_pools_def image_image)
  ultimately show False using stale by simp
qed

section \<open>Properties\<close>

text \<open>C23. The pools step writes node pools exactly when it has to: with the pools listed, the
  documents of all pools of the spec are applied when the number of node pools differs or some
  pool of the spec has no node pool with its name, bounds and configuration; otherwise nothing
  is applied.\<close>

theorem Edge_applies_pools_iff_needed:
  assumes "eg_pools E (rs_hist s @ [list_event (rs_obj s)]) = Inr nps"
    and "eg_render_pools E (edge_pools (rs_obj s)) = None"
  shows "(\<exists>es. rs_hist (snd (Edge_reconPool E s)) = rs_hist s @ list_event (rs_obj s)
       # ECall (EGApplyPools (edge_pools (rs_obj s))) # es) \<longleftrightarrow> \<not> pools_match (rs_obj s) nps"
  using Edge_reconPool_settled [OF assms(1)] Edge_reconPool_applies [OF assms(1) _ assms(2)]
  by (auto simp: applies_def)

text \<open>C24. Applying the pools is enough: what is applied for an edge matches its spec, so that a pass
  that lists it applies nothing more.\<close>

theorem Edge_apply_settles:
  assumes "eg_pools E (rs_hist s @ [list_event (rs_obj s)]) = Inr (edge_pools (rs_obj s))"
  shows "\<forall>es docs. rs_hist (snd (Edge_reconPool E s)) = rs_hist s @ es \<longrightarrow> ECall (EGApplyPools docs) \<notin> set es"
  using Edge_reconPool_settled [OF assms edge_pools_match] by (auto simp: applies_def)

text \<open>A pool removed from the spec is never removed from the cluster: as long as a node pool that
  the spec does not name is listed, no number of applications makes the pools match, so every
  pass applies them again.\<close>

theorem Edge_removed_pool_never_settles:
  assumes "distinct (map pl_Name (eg_Pools (r_spec obj)))" and "distinct (map npname nps)"
    and "x \<in> npname ` set nps" and "x \<notin> npname ` set (edge_pools obj)"
  shows "\<not> pools_match obj ((kubectl_apply (edge_pools obj) ^^ k) nps)"
proof -
  have "distinct (map npname ((kubectl_apply (edge_pools obj) ^^ k) nps))
      \<and> x \<in> npname ` set ((kubectl_apply (edge_pools obj) ^^ k) nps)"
  proof (induction k)
    case (Suc k)
    then show ?case using apply_names [of "(kubectl_apply (edge_pools obj) ^^ k) nps" "edge_pools obj"] by auto
  qed (use assms in simp)
  then show ?thesis using stale_no_match [OF assms(1)] assms(4) by blast
qed

text \<open>A change of the edge's provider, region or cluster does not reach its node pools: when the
  node pools listed are those applied for the old spec, nothing is applied for the new one.\<close>

theorem Edge_location_change_not_propagated:
  assumes "r_spec (rs_obj s) = (r_spec old)\<lparr>eg_Provider := p, eg_Region := rg, eg_ClusterName := c, eg_ProviderName := pn\<rparr>"
    and "om_Name (r_meta (rs_obj s)) = om_Name (r_meta old)"
    and "eg_pools E (rs_hist s @ [list_event (rs_obj s)]) = Inr (edge_pools old)"
  shows "\<forall>es docs. rs_hist (snd (Edge_reconPool E s)) = rs_hist s @ es \<longrightarrow> ECall (EGApplyPools docs) \<notin> set es"
proof -
  have "pools_match (rs_obj s) (edge_pools old)"
    using edge_pools_match [of old] assms(1,2) by (simp add: pools_match_def)
  from Edge_reconPool_settled [OF assms(3) this] show ?thesis by (auto simp: applies_def)
qed

section \<open>Witnesses\<close>

definition sample_edge_spec :: "string \<Rightarrow> pool list \<Rightarrow> edge_spec" where
  "sample_edge_spec rg ps = \<lparr>eg_AccountName = ''acc'', eg_Provider = ''aws'', eg_Region = rg, eg_ProviderName = ''prov'',
     eg_ClusterName = ''c'', eg_Pools = ps\<rparr>"

definition sample_edge_pool :: "string \<Rightarrow> pool" where
  "sample_edge_pool n = \<lparr>pl_Name = n, pl_Config = ''{}'', pl_Min = 1, pl_Max = 3\<rparr>"

definition sample_edge :: "string \<Rightarrow> (edge_spec, eg_call, unit) rstate" where
  "sample_edge rg = sample_state (sample_edge_spec rg [sample_edge_pool ''a''])"

definition sample_eg_env :: "nodepool list \<Rightarrow> eg_env" where
  "sample_eg_env nps = kenv.extend storing_env \<lparr>eg_provider = (\<lambda>_. Inl (NotFound ''provider'')),
     eg_region = (\<lambda>_. Inl (NotFound ''region'')), eg_pools = (\<lambda>_. Inr nps),
     eg_render_region = (\<lambda>_ _ _. None), eg_render_pools = (\<lambda>_. None), eg_apply = (\<lambda>_. None)\<rparr>"

lemma sample_eg_sel [simp]:
  "eg_pools (sample_eg_env nps) h = Inr nps" "eg_render_pools (sample_eg_env nps) docs = None"
  by (simp_all add: sample_eg_env_def kenv.extend_def)

lemma Edge_applies_pools_iff_needed_witness:
  "\<exists>es. rs_hist (snd (Edge_reconPool (sample_eg_env []) (sample_edge ''r''))) = rs_hist (sample_edge ''r'')
     @ list_event (rs_obj (sample_edge ''r'')) # ECall (EGApplyPools (edge_pools (rs_obj (sample_edge ''r'')))) # es"
proof -
  have "\<not> pools_match (rs_obj (sample_edge ''r'')) []"
    by (simp add: pools_match_def sample_edge_def sample_state_def sample_edge_spec_def)
  then show ?thesis using Edge_applies_pools_iff_needed [of "sample_eg_env []" "sample_edge ''r''" "[]"] by simp
qed

lemma sample_edge_hist [simp]: "rs_hist (sample_edge rg) = []"
  by (simp add: sample_edge_def sample_state_def)

lemma Edge_apply_settles_witness:
  "\<forall>docs. ECall (EGApplyPools docs) \<notin> set (rs_hist (snd
     (Edge_reconPool (sample_eg_env (edge_pools (rs_obj (sample_edge ''r'')))) (sample_edge ''r''))))"
  using Edge_apply_settles [of "sample_eg_env (edge_pools (rs_obj (sample_edge ''r'')))" "sample_edge ''r''"] by simp

lemma Edge_removed_pool_never_settles_witness:
  "\<not> pools_match (rs_obj (sample_edge ''r'')) ((kubectl_apply (edge_pools (rs_obj (sample_edge ''r''))) ^^ 5)
     (edge_pools (rs_obj (sample_state (sample_edge_spec ''r'' [sample_edge_pool ''b''])
        :: (edge_spec, eg_call, unit) rstate))))"
  by (rule Edge_removed_pool_never_settles [where x = "''edge-b''"])
     (simp_all add: sample_edge_def sample_state_def sample_edge_spec_def sample_edge_pool_def edge_pools_def
        pool_name_def sample_meta_def)

lemma Edge_location_change_not_propagated_witness:
  "\<forall>docs. ECall (EGApplyPools docs) \<notin> set (rs_hist (snd
     (Edge_reconPool (sample_eg_env (edge_pools (rs_obj (sample_edge ''r'')))) (sample_edge ''q''))))"
  using Edge_location_change_not_propagated [where s = "sample_edge ''q''" and old = "rs_obj (sample_edge ''r'')"
      and p = "''aws''" and rg = "''q''" and c = "''c''" and pn = "''prov''"
      and E = "sample_eg_env (edge_pools (rs_obj (sample_edge ''r'')))"]
  by (simp add: sample_edge_def sample_state_def sample_edge_spec_def)

end
