(* ===== verification/Paths.thy ===== *)
theory Paths
  imports Std
begin

text \<open>
  Slash-separated paths, as \<open>path.Join\<close>, \<open>filepath.Join\<close> and \<open>filepath.Base\<close> compute them, and that joining
  plain names is injective.
\<close>

section \<open>Cleaning and joining\<close>

text \<open>\<open>path.Join\<close>: the non-empty elements, joined and cleaned.\<close>

fun split_on :: "char \<Rightarrow> string \<Rightarrow> string list" where
  "split_on c [] = [[]]"
| "split_on c (d # ds) = (if d = c then [] # split_on c ds
     else (case split_on c ds of w # ws \<Rightarrow> (d # w) # ws | [] \<Rightarrow> [[d]]))"

fun clean_parts :: "bool \<Rightarrow> string list \<Rightarrow> string list \<Rightarrow> string list" where
  "clean_parts rooted stack [] = rev stack"
| "clean_parts rooted stack (p # ps) =
     (if p = '''' \<or> p = ''.'' then clean_parts rooted stack ps
      else if p = ''..'' then (case stack of
          [] \<Rightarrow> if rooted then clean_parts rooted [] ps else clean_parts rooted [''..''] ps
        | q # qs \<Rightarrow> if q = ''..'' then clean_parts rooted (p # stack) ps else clean_parts rooted qs ps)
      else clean_parts rooted (p # stack) ps)"

definition path_clean :: "string \<Rightarrow> string" where
  "path_clean s = (let rooted = (take 1 s = ''/''); b = joined ''/'' (clean_parts rooted [] (split_on (CHR ''/'') s))
     in if rooted then ''/'' @ b else if b = '''' then ''.'' else b)"

definition path_Join :: "string list \<Rightarrow> string" where
  "path_Join elems = (let es = filter (\<lambda>e. e \<noteq> '''') elems in
     if es = [] then '''' else path_clean (joined ''/'' es))"

text \<open>\<open>filepath.Base\<close>: the last part, without the slashes after it.\<close>

definition path_Base :: "string \<Rightarrow> string" where
  "path_Base p = (if p = '''' then ''.'' else
     let q = rev (dropWhile (\<lambda>c. c = CHR ''/'') (rev p)) in if q = '''' then ''/'' else last (split_on (CHR ''/'') q))"

section \<open>Plain names\<close>

definition plain_part :: "string \<Rightarrow> bool" where
  "plain_part w \<longleftrightarrow> w \<noteq> '''' \<and> CHR ''/'' \<notin> set w \<and> w \<noteq> ''.'' \<and> w \<noteq> ''..''"

lemma split_on_not_Nil [simp]: "split_on c s \<noteq> []"
  by (induction c s rule: split_on.induct) (auto split: list.split)

lemma split_on_append: "split_on c (a @ c # b) = split_on c a @ split_on c b"
  by (induction a) (auto split: list.split)

lemma split_on_plain: "c \<notin> set w \<Longrightarrow> split_on c w = [w]"
  by (induction w) auto

lemma split_on_joined:
  "es \<noteq> [] \<Longrightarrow> split_on (CHR ''/'') (joined ''/'' es) = concat (map (split_on (CHR ''/'')) es)"
  by (induction "''/'' :: string" es rule: joined.induct) (auto simp: split_on_append)

lemma joined_append:
  "xs \<noteq> [] \<Longrightarrow> ys \<noteq> [] \<Longrightarrow> joined sep (xs @ ys) = joined sep xs @ sep @ joined sep ys"
proof (induction sep xs rule: joined.induct)
  case (2 sep x)
  then show ?case by (cases ys) auto
qed auto

lemma clean_prefix: "\<exists>stk. \<forall>ys. clean_parts r st (xs @ ys) = clean_parts r stk ys"
proof (induction xs arbitrary: st)
  case Nil
  then show ?case by auto
next
  case (Cons x xs)
  obtain st' where "\<forall>zs. clean_parts r st (x # zs) = clean_parts r st' zs"
  proof (cases st)
    case Nil
    show ?thesis
      by (rule that [of "if x = '''' \<or> x = ''.'' then st else if x = ''..'' then (if r then [] else [''..'']) else x # st"])
        (auto simp: Nil)
  next
    case (Cons y st1)
    show ?thesis
      by (rule that [of "if x = '''' \<or> x = ''.'' then st else if x = ''..'' then (if y = ''..'' then x # st else st1) else x # st"])
        (auto simp: Cons)
  qed
  then show ?case using Cons [of st'] by simp
qed

lemma clean_plain: "list_all plain_part ps \<Longrightarrow> clean_parts r stk ps = rev stk @ ps"
  by (induction ps arbitrary: stk) (auto simp: plain_part_def)

lemma path_Join_plain:
  "\<exists>root stk. \<forall>q ps'. list_all plain_part (q # ps') \<longrightarrow> path_Join (base # q # ps') = root @ joined ''/'' (stk @ q # ps')"
proof -
  let ?pre = "if base = '''' then [] else split_on (CHR ''/'') base"
  define rooted where "rooted = (take 1 base = ''/'')"
  obtain stk where stk: "\<And>ys. clean_parts rooted [] (?pre @ ys) = clean_parts rooted stk ys"
    using clean_prefix by metis
  let ?root = "if rooted then ''/'' else ''''"
  have main: "path_Join (base # q # ps') = ?root @ joined ''/'' (rev stk @ q # ps')"
    if pl: "list_all plain_part (q # ps')" for q ps'
  proof -
    let ?all = "q # ps'"
    have ne: "filter (\<lambda>e. e \<noteq> '''') ?all = ?all" using pl by (auto simp: plain_part_def list_all_iff)
    have es: "filter (\<lambda>e. e \<noteq> '''') (base # ?all) = (if base = '''' then ?all else base # ?all)" using ne by simp
    let ?j = "joined ''/'' (if base = '''' then ?all else base # ?all)"
    have "concat (map (split_on (CHR ''/'')) ?all) = ?all"
      using pl by (induction ps' arbitrary: q) (auto simp: split_on_plain plain_part_def)
    then have parts: "split_on (CHR ''/'') ?j = ?pre @ ?all" by (simp add: split_on_joined)
    obtain c w where q: "q = c # w" "c \<noteq> CHR ''/''" using pl by (cases q) (auto simp: plain_part_def)
    have r: "(take 1 ?j = ''/'') = rooted"
      using q by (cases base; cases ps') (auto simp: rooted_def)
    have "joined ''/'' ?all \<noteq> []" using q by (cases ps') auto
    then have nonempty: "joined ''/'' (rev stk @ ?all) \<noteq> []"
      by (cases "rev stk = []") (simp_all add: joined_append)
    have cp: "clean_parts rooted [] (split_on (CHR ''/'') ?j) = rev stk @ ?all"
      unfolding parts by (rule trans [OF stk clean_plain [OF pl]])
    have "path_clean ?j = ?root @ joined ''/'' (rev stk @ ?all)"
      unfolding path_clean_def Let_def r cp by (simp only: nonempty if_False append_Nil split: if_split) simp
    moreover have "path_Join (base # ?all) = path_clean ?j"
      unfolding path_Join_def es Let_def by simp
    ultimately show ?thesis by simp
  qed
  show ?thesis using main by blast
qed

end
