(* ===== verification/WorkerNode.thy ===== *)
theory WorkerNode
  imports ApiTypes Paths
begin

text \<open>
  The worker node controller, \<open>controllers/infra/workernode_controller.go\<close>, with the terraform
  outputs of \<open>lib/terraform/main.go\<close>: a node is created by a job that runs terraform, attached to
  the cluster over ssh, labelled, and on deletion detached and destroyed.  The job document is
  represented by the values given to its template, before they are marshalled to YAML and
  base64; these encodings do not fail on the structures used.
\<close>

section \<open>Calls and environment\<close>

text \<open>The configuration handed to a node job.\<close>

datatype node_config =
    AwsConfig (ac_action: string) (ac_accessKey: string) (ac_accessSecret: string) (ac_account: string)
      (ac_nodeId: string) (ac_region: string) (ac_instanceType: string) (ac_vpc: string)
  | DoConfig (dc_action: string) (dc_provider: string) (dc_apiToken: string) (dc_account: string)
      (dc_nodeId: string) (dc_region: string) (dc_size: string) (dc_imageId: string)

record kl_conf =
  kl_StorePath :: string
  kl_TfTemplates :: string
  kl_SSHPath :: string

record job_doc =
  jd_name :: string
  jd_namespace :: string
  jd_nodeConfig :: node_config
  jd_klConfig :: kl_conf
  jd_provider :: string
  jd_ownerRefs :: "ownerref list"

datatype wn_call =
    WGetSecret string string
  | WGetJob string string
  | WApplyJob job_doc
  | WDeleteJob string string
  | WGetNode string
  | WUpdateNode string "string gomap"
  | WDeleteNode string
  | WTerraform string

datatype wn_local = LSecret "string gomap"

type_synonym wn_hist = "(workernode_spec, wn_call) hist"

record wn_env = "(workernode_spec, wn_call) kenv" +
  we_StorePath :: string
  we_TFTemplatesPath :: string
  we_SSHPath :: string
  we_secret :: "wn_hist \<Rightarrow> error + string gomap"
  we_job :: "wn_hist \<Rightarrow> error option"
  we_apply :: "wn_hist \<Rightarrow> error option"
  we_delete :: "wn_hist \<Rightarrow> error option"
  we_node :: "wn_hist \<Rightarrow> error + string gomap"
  we_update_node :: "wn_hist \<Rightarrow> error option"
  we_delete_node :: "wn_hist \<Rightarrow> error option"
  we_terraform :: "wn_hist \<Rightarrow> error + string"
  we_render :: "job_doc \<Rightarrow> error option"
  we_iter :: "(string \<times> string) list \<Rightarrow> (string \<times> string) list"

type_synonym 'a wn_act = "((workernode_spec, wn_call, wn_local) rstate, 'a) act"

definition NodeCreated :: string where "NodeCreated = ''node-created''"
definition NodeAttached :: string where "NodeAttached = ''node-attached''"

section \<open>Terraform outputs\<close>

text \<open>The outputs decoded into a map of structs with a string \<open>value\<close>.\<close>

definition dec_output :: "json \<Rightarrow> string \<times> bool" where
  "dec_output j = (case j of JObj kvs \<Rightarrow> dec_string ''value'' kvs '''' | JNull \<Rightarrow> ('''', False) | _ \<Rightarrow> ('''', True))"

definition dec_outputs :: "string \<Rightarrow> error + (string \<times> string) list" where
  "dec_outputs out = (case json_parse out of
     Some (JObj kvs) \<Rightarrow> if list_ex (\<lambda>(k, v). snd (dec_output v)) kvs then Inl json_error
                        else Inr (map (\<lambda>(k, v). (k, fst (dec_output v))) (obj_map kvs))
   | Some JNull \<Rightarrow> Inr []
   | _ \<Rightarrow> Inl json_error)"

definition GetOutputs :: "wn_env \<Rightarrow> string \<Rightarrow> (error + (string \<times> string) list) wn_act" where
  "GetOutputs E dir = andThen (ask (ECall (WTerraform dir)) (we_terraform E)) (\<lambda>r. ret (case r of
     Inl e \<Rightarrow> Inl e
   | Inr out \<Rightarrow> (case dec_outputs out of
       Inl e \<Rightarrow> Inl e
     | Inr resp \<Rightarrow> if resp = [] then Inl (Failure ''err: no tf outputs found'') else Inr resp)))"

definition GetOutput :: "wn_env \<Rightarrow> string \<Rightarrow> string \<Rightarrow> (error + string) wn_act" where
  "GetOutput E dir key = andThen (GetOutputs E dir) (\<lambda>r. ret (case r of
     Inl e \<Rightarrow> Inl e
   | Inr resp \<Rightarrow> Inr (case map_of resp key of Some v \<Rightarrow> v | None \<Rightarrow> '''')))"

section \<open>The node job\<close>

definition mNode :: "string \<Rightarrow> string" where
  "mNode name = ''kl-byoc-'' @ name"

definition getTFPath :: "wn_env \<Rightarrow> workernode_spec resource \<Rightarrow> string" where
  "getTFPath E obj = path_Join [we_StorePath E, wn_AccountName (r_spec obj), wn_Provider (r_spec obj),
     wn_Region (r_spec obj), mNode (om_Name (r_meta obj)), wn_Provider (r_spec obj)]"

text \<open>A struct of string fields: the error of the decoder ends the function.\<close>

definition dec_config :: "string list \<Rightarrow> string \<Rightarrow> error + (string \<Rightarrow> string)" where
  "dec_config fnames config = (case json_parse config of
     Some (JObj kvs) \<Rightarrow> if list_ex (\<lambda>f. snd (dec_string f kvs '''')) fnames then Inl json_error
                        else Inr (\<lambda>f. fst (dec_string f kvs ''''))
   | Some JNull \<Rightarrow> Inr (\<lambda>_. '''')
   | _ \<Rightarrow> Inl json_error)"

definition aws_config :: "workernode_spec resource \<Rightarrow> string gomap \<Rightarrow> bool \<Rightarrow> error + node_config" where
  "aws_config obj secret create = (case gm_get secret ''accessKey'' of
     None \<Rightarrow> Inl (Failure ''AccessKey not provided in provider secret'')
   | Some accessKey \<Rightarrow> (case gm_get secret ''accessSecret'' of
       None \<Rightarrow> Inl (Failure ''AccessSecret not provided in provider secret'')
     | Some accessSecret \<Rightarrow>
         (case dec_config [''nodeId'', ''region'', ''instanceType'', ''vpc''] (wn_Config (r_spec obj)) of
           Inl e \<Rightarrow> Inl e
         | Inr cfg \<Rightarrow> Inr (AwsConfig (if create then ''create'' else ''delete'') accessKey accessSecret
             (wn_AccountName (r_spec obj)) (mNode (om_Name (r_meta obj))) (wn_Region (r_spec obj))
             (cfg ''instanceType'') (cfg ''vpc'')))))"

definition do_config :: "workernode_spec resource \<Rightarrow> string gomap \<Rightarrow> bool \<Rightarrow> error + node_config" where
  "do_config obj secret create = (case gm_get secret ''apiToken'' of
     None \<Rightarrow> Inl (Failure ''apiToken not provided in provider secret'')
   | Some apiToken \<Rightarrow>
       (case dec_config [''region'', ''size'', ''nodeId'', ''imageId''] (wn_Config (r_spec obj)) of
         Inl e \<Rightarrow> Inl e
       | Inr cfg \<Rightarrow> Inr (DoConfig (if create then ''create'' else ''delete'') (wn_Provider (r_spec obj)) apiToken
           (wn_AccountName (r_spec obj)) (mNode (om_Name (r_meta obj))) (wn_Region (r_spec obj))
           (cfg ''size'') (cfg ''imageId''))))"

definition job_of :: "wn_env \<Rightarrow> workernode_spec resource \<Rightarrow> string gomap \<Rightarrow> bool \<Rightarrow> error + job_doc" where
  "job_of E obj secret create =
     (case (if wn_Provider (r_spec obj) = ''aws'' then aws_config obj secret create
            else if wn_Provider (r_spec obj) = ''do'' then do_config obj secret create
            else Inl (Failure (''unknown provider '' @ wn_Provider (r_spec obj) @ '' found''))) of
        Inl e \<Rightarrow> Inl e
      | Inr config \<Rightarrow>
          let doc = \<lparr>jd_name = (if create then ''create-node-'' else ''delete-node-'') @ om_Name (r_meta obj),
                     jd_namespace = MainNs, jd_nodeConfig = config,
                     jd_klConfig = \<lparr>kl_StorePath = we_StorePath E, kl_TfTemplates = we_TFTemplatesPath E,
                       kl_SSHPath = we_SSHPath E\<rparr>,
                     jd_provider = wn_Provider (r_spec obj), jd_ownerRefs = [AsOwner (r_meta obj) [True]]\<rparr>
          in (case we_render E doc of Some e \<Rightarrow> Inl e | None \<Rightarrow> Inr doc))"

definition getJobCrd :: "wn_env \<Rightarrow> bool \<Rightarrow> (error + job_doc) wn_act" where
  "getJobCrd E create = andThen (gets rs_obj) (\<lambda>obj.
     andThen (ask (ECall (WGetSecret MainNs (wn_ProviderName (r_spec obj)))) (we_secret E)) (\<lambda>r. ret (case r of
       Inl e \<Rightarrow> Inl e
     | Inr secret \<Rightarrow> job_of E obj secret create)))"

definition apply_job :: "wn_env \<Rightarrow> bool \<Rightarrow> error option wn_act" where
  "apply_job E create = andThen (getJobCrd E create) (\<lambda>r. case r of
     Inl e \<Rightarrow> ret (Some e)
   | Inr doc \<Rightarrow> ask (ECall (WApplyJob doc)) (we_apply E))"

section \<open>Creating the node\<close>

definition create_job :: "workernode_spec resource \<Rightarrow> string" where
  "create_job obj = ''create-node-'' @ om_Name (r_meta obj)"

definition createNode :: "wn_env \<Rightarrow> error option wn_act" where
  "createNode E = andThen (gets rs_obj) (\<lambda>obj.
     andThen (ask (ECall (WGetJob MainNs (create_job obj))) (we_job E)) (\<lambda>err. case err of
       None \<Rightarrow> ret (Some (Failure ''creation of node is in progress''))
     | Some _ \<Rightarrow> apply_job E True))"

definition ensureNodeCreated :: "wn_env \<Rightarrow> step_result wn_act" where
  "ensureNodeCreated E = andThen (gets rs_obj) (\<lambda>obj.
     let check = CheckGen (om_Generation (r_meta obj)) in
     andThen (GetOutputs E (getTFPath E obj)) (\<lambda>r.
     andThen (case r of Inl _ \<Rightarrow> createNode E | Inr _ \<Rightarrow> ret None) (\<lambda>err. case err of
       Some e \<Rightarrow> CheckFailed E NodeCreated check (errmsg e)
     | None \<Rightarrow>
         andThen (ask (ECall (WGetJob MainNs (create_job obj))) (we_job E)) (\<lambda>jerr.
         andThen (if jerr = None then ask (ECall (WDeleteJob MainNs (create_job obj))) (we_delete E) else ret None) (\<lambda>err.
         case err of
           Some e \<Rightarrow> CheckFailed E NodeCreated check (errmsg e)
         | None \<Rightarrow> settleCheck E NodeCreated check)))))"

definition WorkerNode_fetchRequired :: "wn_env \<Rightarrow> step_result wn_act" where
  "WorkerNode_fetchRequired E = andThen (gets rs_obj) (\<lambda>obj.
     andThen (ask (ECall (WGetSecret MainNs (''cluster-kubeconfig-'' @ wn_ClusterName (r_spec obj)))) (we_secret E)) (\<lambda>r. case r of
       Inl e \<Rightarrow> Next
     | Inr secret \<Rightarrow> andThen (SetLocal ''kubeconfig-sec'' (LSecret secret)) (\<lambda>_. Next)))"

section \<open>Attaching the node\<close>

definition node_labels :: "wn_env \<Rightarrow> workernode_spec resource \<Rightarrow> string \<Rightarrow> string list" where
  "node_labels E obj ip = map (\<lambda>(k, v). ''--node-label '' @ k @ ''='' @ v)
       (we_iter E [(''kloudlite.io/region'', wn_EdgeName (r_spec obj)),
                   (''kloudlite.io/node.index'', itoa (wn_Index (r_spec obj)))])
     @ [''--node-label kloudlite.io/public-ip='' @ ip]"

definition attach_cmd :: "wn_env \<Rightarrow> workernode_spec resource \<Rightarrow> string \<Rightarrow> string \<Rightarrow> string \<Rightarrow> string" where
  "attach_cmd E obj ip token serverIp =
     ''ssh -o StrictHostKeyChecking=no -o UserKnownHostsFile=/dev/null -i '' @ we_SSHPath E @ '' root@'' @ ip
     @ '' sudo sh /tmp/k3s-install.sh agent --token='' @ TrimSpace token @ '' --server https://'' @ serverIp
     @ '':6443 --node-external-ip '' @ ip @ '' --node-name '' @ mNode (om_Name (r_meta obj)) @ '' ''
     @ joined '' '' (node_labels E obj ip)"

definition attachNode :: "wn_env \<Rightarrow> error option wn_act" where
  "attachNode E = andThen (gets rs_obj) (\<lambda>obj.
     andThen (GetLocal (\<lambda>l. case l of LSecret d \<Rightarrow> Some d) ''kubeconfig-sec'') (\<lambda>sec. case sec of
       None \<Rightarrow> ret (Some (Failure ''cluster config not found in secret''))
     | Some secret \<Rightarrow>
         andThen (GetOutput E (getTFPath E obj) ''node-ip'') (\<lambda>r. case r of
           Inl e \<Rightarrow> ret (Some e)
         | Inr ip \<Rightarrow> andThen (ExecCmd E (attach_cmd E obj ip (gm_str secret ''node-token'') (gm_str secret ''master-node-ip''))) (\<lambda>r.
             case r of Inl e \<Rightarrow> ret (Some e) | Inr _ \<Rightarrow> ret None))))"

definition bool_str :: "bool \<Rightarrow> string" where
  "bool_str b = (if b then ''true'' else ''false'')"

text \<open>
  The label is read through the node returned by the client: it is nil when the node was not
  found, even after it has been attached.
\<close>

definition ensureNodeAttached :: "wn_env \<Rightarrow> step_result wn_act" where
  "ensureNodeAttached E = andThen (gets rs_obj) (\<lambda>obj.
     let check = CheckGen (om_Generation (r_meta obj)); want = bool_str (wn_Stateful (r_spec obj)) in
     andThen (ask (ECall (WGetNode (mNode (om_Name (r_meta obj))))) (we_node E)) (\<lambda>r. case r of
       Inl e \<Rightarrow> if \<not> IsNotFound e then CheckFailed E NodeAttached check (errmsg e)
                else andThen (attachNode E) (\<lambda>err. case err of
                    Some e \<Rightarrow> CheckFailed E NodeAttached check (errmsg e)
                  | None \<Rightarrow> crash ''nil pointer dereference'')
     | Inr labels \<Rightarrow>
         if gm_get labels ''kloudlite.io/stateful-node'' \<noteq> Some want then
           (case labels of
              None \<Rightarrow> crash ''assignment to entry in nil map''
            | Some _ \<Rightarrow>
                andThen (ask (ECall (WUpdateNode (mNode (om_Name (r_meta obj))) (gm_put ''kloudlite.io/stateful-node'' want labels)))
                  (we_update_node E)) (\<lambda>err. case err of
                    Some e \<Rightarrow> CheckFailed E NodeAttached check (errmsg e)
                  | None \<Rightarrow> settleCheck E NodeAttached check))
         else settleCheck E NodeAttached check))"

section \<open>Deleting the node\<close>

definition deleteNode :: "wn_env \<Rightarrow> error option wn_act" where
  "deleteNode E = andThen (apply_job E False) (\<lambda>err. case err of
     Some e \<Rightarrow> ret (Some e)
   | None \<Rightarrow> ret (Some (Failure ''node scheduled to delete'')))"

definition WorkerNode_finalize :: "wn_env \<Rightarrow> step_result wn_act" where
  "WorkerNode_finalize E = andThen (gets rs_obj) (\<lambda>obj.
     andThen (ask (ECall (WGetNode (mNode (om_Name (r_meta obj))))) (we_node E)) (\<lambda>r. case r of
       Inr _ \<Rightarrow> andThen (ask (ECall (WDeleteNode (mNode (om_Name (r_meta obj))))) (we_delete_node E)) (\<lambda>err. case err of
           Some e \<Rightarrow> FailWithStatusError E (Some e) []
         | None \<Rightarrow> FailWithStatusError E (Some (Failure ''detaching node from cluster'')) [])
     | Inl e \<Rightarrow> if \<not> IsNotFound e then FailWithStatusError E (Some e) []
                else andThen (GetOutputs E (getTFPath E obj)) (\<lambda>r. case r of
                    Inl _ \<Rightarrow> Finalize E
                  | Inr _ \<Rightarrow> andThen (deleteNode E) (\<lambda>err. case err of
                      Some e \<Rightarrow> FailWithStatusError E (Some e) []
                    | None \<Rightarrow> Finalize E))))"

definition WorkerNode_steps :: "wn_env \<Rightarrow> (workernode_spec, wn_call, wn_local) reconcile" where
  "WorkerNode_steps E = andStep (WorkerNode_fetchRequired E) (andStep (ensureNodeCreated E)
     (andStep (ensureNodeAttached E) (complete E)))"

definition WorkerNode_Reconcile :: "wn_env \<Rightarrow> (workernode_spec, wn_call, wn_local) reconcile" where
  "WorkerNode_Reconcile E = reconcile_frame E WorkerNode_methods [NodeCreated, NodeAttached]
     (WorkerNode_finalize E) (WorkerNode_steps E)"

section \<open>Terraform directories\<close>

lemma getTFPath_distinct:
  assumes same: "wn_AccountName (r_spec a) = wn_AccountName (r_spec b)" "wn_Provider (r_spec a) = wn_Provider (r_spec b)"
      "wn_Region (r_spec a) = wn_Region (r_spec b)"
    and plain: "plain_part (wn_AccountName (r_spec a))" "plain_part (wn_Provider (r_spec a))" "plain_part (wn_Region (r_spec a))"
      "plain_part (mNode (om_Name (r_meta a)))" "plain_part (mNode (om_Name (r_meta b)))"
    and path: "getTFPath E a = getTFPath E b"
  shows "om_Name (r_meta a) = om_Name (r_meta b)"
proof -
  let ?acc = "wn_AccountName (r_spec a)" and ?p = "wn_Provider (r_spec a)" and ?r = "wn_Region (r_spec a)"
  let ?tail = "\<lambda>n. [?p, ?r, n, ?p]"
  obtain root stk where eq: "\<And>q ps'. list_all plain_part (q # ps') \<Longrightarrow>
      path_Join (we_StorePath E # q # ps') = root @ joined ''/'' (stk @ q # ps')"
    using path_Join_plain [of "we_StorePath E"] by blast
  have "getTFPath E a = root @ joined ''/'' (stk @ ?acc # ?tail (mNode (om_Name (r_meta a))))"
    and "getTFPath E b = root @ joined ''/'' (stk @ ?acc # ?tail (mNode (om_Name (r_meta b))))"
    using plain same by (simp_all add: getTFPath_def eq)
  moreover have "joined ''/'' (stk @ ?acc # ?tail n) = joined ''/'' (stk @ [?acc, ?p, ?r]) @ ''/'' @ joined ''/'' [n, ?p]" for n
    using joined_append [of "stk @ [?acc, ?p, ?r]" "[n, ?p]" "''/''"] by simp
  ultimately show ?thesis using path by (simp add: mNode_def)
qed

section \<open>Runs\<close>

definition wn_ask :: "wn_call \<Rightarrow> (workernode_spec, wn_call, wn_local) rstate \<Rightarrow> (workernode_spec, wn_call, wn_local) rstate" where
  "wn_ask c s = s\<lparr>rs_hist := rs_hist s @ [ECall c]\<rparr>"

lemma wn_ask_run: "ask (ECall c) f s = (Ret (f (rs_hist s @ [ECall c])), wn_ask c s)"
  by (simp add: ask_def wn_ask_def)

lemma wn_ask_sel [simp]:
  "rs_hist (wn_ask c s) = rs_hist s @ [ECall c]" "rs_obj (wn_ask c s) = rs_obj s"
  by (simp_all add: wn_ask_def)

lemma GetOutputs_run: "GetOutputs E dir s = (Ret (case we_terraform E (rs_hist s @ [ECall (WTerraform dir)]) of
     Inl e \<Rightarrow> Inl e
   | Inr out \<Rightarrow> (case dec_outputs out of
       Inl e \<Rightarrow> Inl e
     | Inr resp \<Rightarrow> if resp = [] then Inl (Failure ''err: no tf outputs found'') else Inr resp)), wn_ask (WTerraform dir) s)"
  by (simp add: GetOutputs_def wn_ask_run andThen_apply ret_def)

text \<open>Whether terraform's outputs can be read in a state.\<close>

definition has_outputs :: "wn_env \<Rightarrow> (workernode_spec, wn_call, wn_local) rstate \<Rightarrow> bool" where
  "has_outputs E s \<longleftrightarrow> (\<exists>resp. fst (GetOutputs E (getTFPath E (rs_obj s)) s) = Ret (Inr resp))"

lemma GetOutputs_cases:
  "(has_outputs E s \<and> (\<exists>resp. GetOutputs E (getTFPath E (rs_obj s)) s = (Ret (Inr resp), wn_ask (WTerraform (getTFPath E (rs_obj s))) s)))
   \<or> (\<not> has_outputs E s \<and> (\<exists>e. GetOutputs E (getTFPath E (rs_obj s)) s = (Ret (Inl e), wn_ask (WTerraform (getTFPath E (rs_obj s))) s)))"
  by (simp add: has_outputs_def GetOutputs_run split: sum.split)

lemma keeps_apply_job: "(\<And>c. Q (ECall c)) \<Longrightarrow> keeps (emits Q) (apply_job E create)"
  unfolding apply_job_def getJobCrd_def by (auto intro!: keeps_intros split: sum.split)

lemma deleteNode_fails: "\<exists>e t. deleteNode E s = (Ret (Some e), t)"
  by (auto simp: deleteNode_def apply_job_def getJobCrd_def wn_ask_run andThen_apply ret_def
      split: sum.split option.split)

definition no_release :: "(workernode_spec, wn_call) event \<Rightarrow> bool" where
  "no_release e \<longleftrightarrow> (\<forall>x. e \<noteq> EUpdate x)"

lemma no_release_ok [simp]: "status_ok no_release" "no_release (ECall c)"
  by (simp_all add: status_ok_def no_release_def)

lemma deleteNode_quiet: "deleteNode E s = (r, t) \<Longrightarrow> emits no_release s t"
  by (erule keepsE [rotated]) (auto simp: deleteNode_def intro!: keeps_intros keeps_apply_job split: option.split)

lemma fail_quiet: "FailWithStatusError E err cs s = (r, t) \<Longrightarrow> emits no_release s t"
  using status_runs(3) emits_status no_release_ok(1) by blast

section \<open>Properties\<close>

text \<open>C26. A node that does not exist is never recorded as attached: the step panics when attaching it
  succeeds, since it then reads the labels of the node it did not find, and otherwise records
  the failure; no branch leaves the check \<open>node-attached\<close> passed.\<close>

theorem WorkerNode_attach_panics:
  fixes s :: "(workernode_spec, wn_call, wn_local) rstate"
  defines "u \<equiv> wn_ask (WGetNode (mNode (om_Name (r_meta (rs_obj s))))) s"
  assumes "we_node E (rs_hist u) = Inl e" and "IsNotFound e" and "attachNode E u = (Ret err, t)" and "status_ready t"
  shows "case err of
      None \<Rightarrow> ensureNodeAttached E s = (Panic ''nil pointer dereference'', t)
    | Some e' \<Rightarrow> \<exists>r x. ensureNodeAttached E s = (Ret r, answered E x) \<and> \<not> ShouldProceed r \<and> rs_hist x = rs_hist t
        \<and> gm_get (st_Checks (r_status (rs_obj x))) NodeAttached
            = Some ((CheckGen (om_Generation (r_meta (rs_obj s))))\<lparr>ck_Status := False, ck_Message := errmsg e'\<rparr>)"
proof -
  have run: "ensureNodeAttached E s = (case err of
      Some e \<Rightarrow> CheckFailed E NodeAttached (CheckGen (om_Generation (r_meta (rs_obj s)))) (errmsg e) t
    | None \<Rightarrow> (Panic ''nil pointer dereference'', t))"
    using assms(2-4) unfolding ensureNodeAttached_def Let_def u_def
    by (auto simp: wn_ask_run andThen_apply split: option.split)
  show ?thesis
  proof (cases err)
    case None
    then show ?thesis using run by simp
  next
    case (Some e')
    then show ?thesis
      using run unfolding CheckFailed_run [OF assms(5)] Let_def
      by (auto simp: failed_status_def New_def Err_def ShouldProceed_def split: option.split)
  qed
qed

text \<open>C25. The pass that creates a node deletes the job that creates it: once the job has been applied,
  the step asks for it again, finds it, deletes it, and records the check \<open>node-created\<close> as
  passed, although terraform still has no outputs.\<close>

theorem WorkerNode_create_job_is_deleted:
  fixes E :: wn_env and s :: "(workernode_spec, wn_call, wn_local) rstate"
  defines "obj \<equiv> rs_obj s"
  defines "h1 \<equiv> rs_hist s @ [ECall (WTerraform (getTFPath E obj))]"
  defines "h2 \<equiv> h1 @ [ECall (WGetJob MainNs (create_job obj))]"
  defines "h3 \<equiv> h2 @ [ECall (WGetSecret MainNs (wn_ProviderName (r_spec obj)))]"
  assumes "status_ready s" and "\<not> has_outputs E s"
    and "gm_get (st_Checks (r_status obj)) NodeCreated \<noteq> Some ((CheckGen (om_Generation (r_meta obj)))\<lparr>ck_Status := True\<rparr>)"
    and "we_job E h2 = Some e" and "we_secret E h3 = Inr secret" and "job_of E obj secret True = Inr doc"
  defines "h4 \<equiv> h3 @ [ECall (WApplyJob doc)]"
  defines "h5 \<equiv> h4 @ [ECall (WGetJob MainNs (create_job obj))]"
  defines "h6 \<equiv> h5 @ [ECall (WDeleteJob MainNs (create_job obj))]"
  assumes "we_apply E h4 = None" and "we_job E h5 = None" and "we_delete E h6 = None"
  shows "\<exists>x. rs_hist (snd (ensureNodeCreated E s)) = h6 @ [EStatusUpdate x]
    \<and> (\<exists>c. gm_get (st_Checks (r_status x)) NodeCreated = Some c \<and> ck_Status c)"
proof -
  let ?c = "CheckGen (om_Generation (r_meta obj))"
  let ?s = "s\<lparr>rs_hist := h6\<rparr>"
  from assms(6) obtain e' where out: "GetOutputs E (getTFPath E obj) s = (Ret (Inl e'), s\<lparr>rs_hist := h1\<rparr>)"
    using GetOutputs_cases [of E s] by (auto simp: obj_def h1_def wn_ask_def)
  have create: "createNode E (s\<lparr>rs_hist := h1\<rparr>) = (Ret None, s\<lparr>rs_hist := h4\<rparr>)"
    using assms(8-10,14) by (simp add: createNode_def apply_job_def getJobCrd_def ask_def andThen_apply
        h2_def h3_def h4_def obj_def)
  have run: "ensureNodeCreated E s = settleCheck E NodeCreated ?c ?s"
    using out create assms(15,16)
    by (simp add: ensureNodeCreated_def Let_def andThen_apply ask_def h5_def h6_def obj_def)
  have "status_ready ?s" using assms(5) by (simp add: status_ready_def)
  moreover have "gm_get (st_Checks (r_status (rs_obj ?s))) NodeCreated \<noteq> Some (?c\<lparr>ck_Status := True\<rparr>)"
    using assms(7) by (simp add: obj_def)
  moreover have "?c\<lparr>ck_Status := True\<rparr> \<noteq> Check0" by (simp add: CheckGen_def Check0_def)
  ultimately obtain r x where "settleCheck E NodeCreated ?c ?s = (Ret r, answered E x)" "rs_hist x = h6"
    "gm_get (st_Checks (r_status (rs_obj x))) NodeCreated = Some (?c\<lparr>ck_Status := True\<rparr>)"
    by (rule settleCheck_run [of ?s NodeCreated ?c E]) auto
  then show ?thesis unfolding run by auto
qed

text \<open>C27. The finalizer releases a worker node only when its Kubernetes node is gone and terraform has
  no readable outputs for it; as long as outputs can be read it ends with a failure, since
  scheduling the deletion job is itself reported as an error.\<close>

theorem WorkerNode_release_needs_no_outputs:
  fixes s :: "(workernode_spec, wn_call, wn_local) rstate"
  defines "u \<equiv> wn_ask (WGetNode (mNode (om_Name (r_meta (rs_obj s))))) s"
  assumes "WorkerNode_finalize E s = (r, t)" and "rs_hist t = rs_hist s @ es" and "EUpdate x \<in> set es"
  shows "(\<exists>e. we_node E (rs_hist u) = Inl e \<and> IsNotFound e) \<and> \<not> has_outputs E u"
proof (rule ccontr)
  assume neg: "\<not> ?thesis"
  let ?dir = "getTFPath E (rs_obj s)"
  have obj: "rs_obj u = rs_obj s" "rs_hist u = rs_hist s @ [ECall (WGetNode (mNode (om_Name (r_meta (rs_obj s)))))]"
    by (simp_all add: u_def wn_ask_def)
  have quiet: "emits no_release u t"
  proof (cases "we_node E (rs_hist u)")
    case (Inr n)
    then show ?thesis using assms(2) obj
      by (auto simp: WorkerNode_finalize_def wn_ask_run andThen_apply u_def [symmetric] split: option.splits
          dest!: fail_quiet) (auto simp: emits_def)
  next
    case (Inl e)
    show ?thesis
    proof (cases "IsNotFound e")
      case False
      then have "FailWithStatusError E (Some e) [] u = (r, t)"
        using assms(2) Inl obj by (simp add: WorkerNode_finalize_def wn_ask_run andThen_apply u_def)
      then show ?thesis by (rule fail_quiet)
    next
      case True
      with neg Inl have "has_outputs E u" by auto
      then obtain resp where out: "GetOutputs E ?dir u = (Ret (Inr resp), wn_ask (WTerraform ?dir) u)"
        using GetOutputs_cases [of E u] obj by auto
      obtain e' v where del: "deleteNode E (wn_ask (WTerraform ?dir) u) = (Ret (Some e'), v)"
        using deleteNode_fails by blast
      have "FailWithStatusError E (Some e') [] v = (r, t)"
        using assms(2) Inl True out del obj
        by (simp add: WorkerNode_finalize_def wn_ask_run andThen_apply u_def)
      then have "emits no_release v t" by (rule fail_quiet)
      moreover have "emits no_release (wn_ask (WTerraform ?dir) u) v" using del by (rule deleteNode_quiet)
      moreover have "emits no_release u (wn_ask (WTerraform ?dir) u)" by (simp add: emits_def)
      ultimately show ?thesis by (metis emits_trans)
    qed
  qed
  then obtain ds where ds: "rs_hist t = rs_hist u @ ds" "\<forall>e \<in> set ds. no_release e" by (auto simp: emits_def)
  then have "es = ECall (WGetNode (mNode (om_Name (r_meta (rs_obj s))))) # ds" using assms(3) obj by simp
  then show False using assms(4) ds by (auto simp: no_release_def)
qed

text \<open>Two nodes of one account, provider and region have terraform directories of their own, as long
  as the parts of the path are plain names: no empty part, no slash, no dots.\<close>

theorem WorkerNode_terraform_dirs_distinct:
  assumes "wn_AccountName (r_spec a) = wn_AccountName (r_spec b)" and "wn_Provider (r_spec a) = wn_Provider (r_spec b)"
    and "wn_Region (r_spec a) = wn_Region (r_spec b)"
    and "list_all plain_part [wn_AccountName (r_spec a), wn_Provider (r_spec a), wn_Region (r_spec a),
        mNode (om_Name (r_meta a)), mNode (om_Name (r_meta b))]"
    and "om_Name (r_meta a) \<noteq> om_Name (r_meta b)"
  shows "getTFPath E a \<noteq> getTFPath E b"
  using getTFPath_distinct [of a b E] assms by auto

section \<open>Witnesses\<close>

definition sample_wn_spec :: workernode_spec where
  "sample_wn_spec = \<lparr>wn_Stateful = False, wn_ClusterName = ''c'', wn_AccountName = ''acc'', wn_Region = ''r'',
     wn_EdgeName = ''e'', wn_Provider = ''aws'', wn_ProviderName = ''p'', wn_Config = ''{}'', wn_Pool = ''pool'', wn_Index = 1\<rparr>"

definition sample_wn :: "(string \<times> wn_local) list \<Rightarrow> (workernode_spec, wn_call, wn_local) rstate" where
  "sample_wn ls = (updStatus (\<lambda>st. st\<lparr>st_Checks := Some []\<rparr>) (sample_state sample_wn_spec))\<lparr>rs_locals := ls\<rparr>"

definition sample_wn_env :: "(wn_hist \<Rightarrow> error option) \<Rightarrow> (wn_hist \<Rightarrow> error + string gomap) \<Rightarrow> string \<Rightarrow> wn_env" where
  "sample_wn_env job node out = kenv.extend storing_env \<lparr>we_StorePath = ''/store'', we_TFTemplatesPath = ''/tf'', we_SSHPath = ''/ssh'',
     we_secret = (\<lambda>_. Inr (Some [(''accessKey'', ''k''), (''accessSecret'', ''s'')])), we_job = job, we_apply = (\<lambda>_. None), we_delete = (\<lambda>_. None),
     we_node = node, we_update_node = (\<lambda>_. None), we_delete_node = (\<lambda>_. None), we_terraform = (\<lambda>_. Inr out),
     we_render = (\<lambda>_. None), we_iter = id\<rparr>"

lemmas wn_samples = sample_wn_spec_def sample_wn_def sample_wn_env_def kenv.extend_def sample_state_def
  updStatus_def status0_def sample_meta_def storing_env_def

lemma sample_wn_ready: "status_ready (sample_wn ls)"
  by (simp add: status_ready_def wn_samples)

definition no_node :: "wn_hist \<Rightarrow> error + string gomap" where
  "no_node h = Inl (NotFound ''node'')"

definition sample_outputs :: string where
  "sample_outputs = ''{\"node-ip\":{\"value\":\"1.2.3.4\"}}''"

lemma sample_outputs_dec: "dec_outputs sample_outputs = Inr [(''node-ip'', ''1.2.3.4'')]"
  by code_simp

definition sample_attach :: "(workernode_spec, wn_call, wn_local) rstate" where
  "sample_attach = sample_wn [(''kubeconfig-sec'', LSecret (Some [(''node-token'', ''tok''), (''master-node-ip'', ''10.0.0.1'')]))]"

definition sample_attach_env :: wn_env where
  "sample_attach_env = sample_wn_env (\<lambda>_. None) no_node sample_outputs"

definition isOK_csv :: "error + string list \<Rightarrow> bool" where
  "isOK_csv r = (case r of Inr _ \<Rightarrow> True | Inl _ \<Rightarrow> False)"

lemma sample_ssh_cmd: "isOK_csv (csv_read (attach_cmd sample_attach_env (rs_obj sample_attach) ''1.2.3.4'' ''tok'' ''10.0.0.1''))"
  by code_simp

lemma sample_attach_run:
  "\<exists>t. attachNode sample_attach_env (wn_ask c sample_attach) = (Ret None, t) \<and> status_ready t"
proof -
  obtain args where "csv_read (attach_cmd sample_attach_env (rs_obj sample_attach) ''1.2.3.4'' ''tok'' ''10.0.0.1'') = Inr args"
    using sample_ssh_cmd by (auto simp: isOK_csv_def split: sum.splits)
  moreover have "we_terraform sample_attach_env h = Inr sample_outputs" "k_exec sample_attach_env h = ExecOk ''''" for h
    by (simp_all add: sample_attach_env_def wn_samples)
  moreover have "map_of (rs_locals sample_attach) ''kubeconfig-sec''
      = Some (LSecret (Some [(''node-token'', ''tok''), (''master-node-ip'', ''10.0.0.1'')]))" "status_ready sample_attach"
    by (simp_all add: sample_attach_def sample_wn_ready) (simp add: sample_wn_def)
  ultimately show ?thesis
    by (simp add: attachNode_def GetLocal_def GetOutput_def GetOutputs_run andThen_apply sample_outputs_dec gm_str_def
        gm_get_def ExecCmd_def ask_def wn_ask_def status_ready_def)
qed

lemma WorkerNode_attach_panics_witness:
  "fst (ensureNodeAttached sample_attach_env sample_attach) = Panic ''nil pointer dereference''"
proof -
  obtain t where "attachNode sample_attach_env
      (wn_ask (WGetNode (mNode (om_Name (r_meta (rs_obj sample_attach))))) sample_attach) = (Ret None, t)" "status_ready t"
    using sample_attach_run by blast
  from WorkerNode_attach_panics [OF _ _ this, of "NotFound ''node''"] show ?thesis
    by (simp add: sample_attach_env_def sample_wn_env_def kenv.extend_def no_node_def)
qed

definition first_job_missing :: "wn_hist \<Rightarrow> error option" where
  "first_job_missing h = (if length h = 2 then Some (NotFound ''job'') else None)"

definition sample_create_env :: wn_env where
  "sample_create_env = sample_wn_env first_job_missing no_node ''{}''"

lemma sample_create_env_sel [simp]:
  "we_job sample_create_env = first_job_missing" "we_apply sample_create_env h = None" "we_delete sample_create_env h = None"
  "we_secret sample_create_env h = Inr (Some [(''accessKey'', ''k''), (''accessSecret'', ''s'')])"
  by (simp_all add: sample_create_env_def sample_wn_env_def kenv.extend_def)

lemma sample_no_outputs: "\<not> has_outputs sample_create_env s"
proof -
  have "dec_outputs ''{}'' = Inr []" by code_simp
  then show ?thesis by (simp add: has_outputs_def GetOutputs_run sample_create_env_def sample_wn_env_def kenv.extend_def)
qed

lemma sample_job: "\<exists>doc. job_of sample_create_env (rs_obj (sample_wn [])) (Some [(''accessKey'', ''k''), (''accessSecret'', ''s'')]) True = Inr doc"
proof -
  have "dec_config [''nodeId'', ''region'', ''instanceType'', ''vpc''] ''{}'' = Inr (\<lambda>f. fst (dec_string f [] ''''))"
  proof -
    have "json_parse ''{}'' = Some (JObj [])" by code_simp
    then show ?thesis by (simp add: dec_config_def)
  qed
  then show ?thesis
    by (simp add: job_of_def aws_config_def gm_get_def sample_create_env_def wn_samples)
qed

lemma WorkerNode_create_job_is_deleted_witness:
  "\<exists>x es. rs_hist (snd (ensureNodeCreated sample_create_env (sample_wn []))) = es @ [EStatusUpdate x]
    \<and> (\<exists>c. gm_get (st_Checks (r_status x)) NodeCreated = Some c \<and> ck_Status c)"
proof -
  obtain doc where doc: "job_of sample_create_env (rs_obj (sample_wn [])) (Some [(''accessKey'', ''k''), (''accessSecret'', ''s'')]) True = Inr doc"
    using sample_job by blast
  have h: "rs_hist (sample_wn []) = []" "gm_get (st_Checks (r_status (rs_obj (sample_wn [])))) NodeCreated = None"
    by (simp_all add: wn_samples gm_get_def)
  show ?thesis
    using WorkerNode_create_job_is_deleted [where E = sample_create_env and s = "sample_wn []"
        and e = "NotFound ''job''", OF sample_wn_ready sample_no_outputs _ _ _ doc] h
    by (auto simp: first_job_missing_def)
qed

lemma WorkerNode_release_needs_no_outputs_witness:
  "\<not> has_outputs sample_create_env (wn_ask (WGetNode (mNode (om_Name (r_meta (rs_obj (sample_wn [])))))) (sample_wn []))"
proof -
  obtain r t where run: "WorkerNode_finalize sample_create_env (sample_wn []) = (r, t)" by fastforce
  have "GetOutputs sample_create_env dir s = (Ret (Inl (Failure ''err: no tf outputs found'')), wn_ask (WTerraform dir) s)" for dir s
  proof -
    have "dec_outputs ''{}'' = Inr []" by code_simp
    then show ?thesis by (simp add: GetOutputs_run sample_create_env_def sample_wn_env_def kenv.extend_def)
  qed
  moreover have "we_node sample_create_env h = Inl (NotFound ''node'')" for h
    by (simp add: sample_create_env_def sample_wn_env_def kenv.extend_def no_node_def)
  ultimately have "Finalize sample_create_env (wn_ask (WTerraform (getTFPath sample_create_env (rs_obj (sample_wn []))))
      (wn_ask (WGetNode (mNode (om_Name (r_meta (rs_obj (sample_wn [])))))) (sample_wn []))) = (r, t)"
    using run by (simp add: WorkerNode_finalize_def wn_ask_run andThen_apply)
  from Finalize_hist [OF this] obtain x es where "rs_hist t = rs_hist (sample_wn []) @ es" "EUpdate x \<in> set es" by auto
  with run show ?thesis using WorkerNode_release_needs_no_outputs [of sample_create_env "sample_wn []" r t es x] by blast
qed

lemma WorkerNode_terraform_dirs_distinct_witness:
  "getTFPath sample_create_env (rs_obj (sample_wn [])) \<noteq> getTFPath sample_create_env
     ((rs_obj (sample_wn []))\<lparr>r_meta := sample_meta\<lparr>om_Name := ''other''\<rparr>\<rparr>)"
  by (rule WorkerNode_terraform_dirs_distinct) (simp_all add: wn_samples plain_part_def mNode_def)

end
