(* ===== verification/Nameserver.thy ===== *)
theory Nameserver
  imports ApiTypes
begin

text \<open>
  The nameserver client of \<open>lib/nameserver/main.go\<close>: HTTP requests with basic authentication,
  whose answers are read by the caller or dropped.  Building a request fails on a malformed
  address and sending it on a transport error: both are parameters.  A request body is its JSON
  value.
\<close>

datatype http_req = HttpReq (hq_method: string) (hq_url: string) (hq_user: string) (hq_password: string)
  (hq_body: "json option")

text \<open>A response: its status code, and its body unless reading it fails.\<close>

record http_resp =
  hr_status :: int
  hr_body :: "error + string"

record nameserver =
  ns_endpoint :: string
  ns_user :: string
  ns_password :: string

definition NewClient :: "string \<Rightarrow> string \<Rightarrow> string \<Rightarrow> nameserver" where
  "NewClient endpoint user password = \<lparr>ns_endpoint = endpoint, ns_user = user, ns_password = password\<rparr>"

text \<open>\<open>http.NewRequest\<close>, \<open>SetBasicAuth\<close> and \<open>client.Do\<close>.\<close>

definition ns_request :: "nameserver \<Rightarrow> string \<Rightarrow> string \<Rightarrow> json option \<Rightarrow> http_req" where
  "ns_request n meth path body = HttpReq meth (ns_endpoint n @ path) (ns_user n) (ns_password n) body"

definition ns_do :: "(string \<Rightarrow> error option) \<Rightarrow> (http_req \<Rightarrow> ('s, error + http_resp) act) \<Rightarrow> http_req
    \<Rightarrow> ('s, error + http_resp) act" where
  "ns_do bad_url send req = (case bad_url (hq_url req) of
     Some e \<Rightarrow> ret (Inl e)
   | None \<Rightarrow> send req)"

text \<open>Callers that look at the error only.\<close>

definition error_only :: "('s, error + 'a) act \<Rightarrow> ('s, error option) act" where
  "error_only m = andThen m (\<lambda>r. ret (case r of Inl e \<Rightarrow> Some e | Inr _ \<Rightarrow> None))"

definition json_strs :: "string list \<Rightarrow> json" where
  "json_strs xs = JArr (map JStr xs)"

definition upsert_domain_req :: "nameserver \<Rightarrow> string \<Rightarrow> string list \<Rightarrow> http_req" where
  "upsert_domain_req n domainName aRecords = ns_request n ''POST'' ''/upsert-domain''
     (Some (JObj [(''aRecords'', json_strs aRecords), (''domain'', JStr domainName)]))"

definition UpsertDomain :: "(string \<Rightarrow> error option) \<Rightarrow> (http_req \<Rightarrow> ('s, error + http_resp) act) \<Rightarrow> nameserver
    \<Rightarrow> string \<Rightarrow> string list \<Rightarrow> ('s, error option) act" where
  "UpsertDomain bad_url send n domainName aRecords =
     error_only (ns_do bad_url send (upsert_domain_req n domainName aRecords))"

definition UpsertNodeIps :: "(string \<Rightarrow> error option) \<Rightarrow> (http_req \<Rightarrow> ('s, error + http_resp) act) \<Rightarrow> nameserver
    \<Rightarrow> string \<Rightarrow> string \<Rightarrow> string \<Rightarrow> string list \<Rightarrow> ('s, error option) act" where
  "UpsertNodeIps bad_url send n region accountName clusterName ips =
     error_only (ns_do bad_url send (ns_request n ''POST'' ''/upsert-node-ips''
       (Some (JObj [(''account'', JStr accountName), (''cluster'', JStr clusterName),
          (''ips'', json_strs ips), (''region'', JStr region)]))))"

definition DeleteDomain :: "(string \<Rightarrow> error option) \<Rightarrow> (http_req \<Rightarrow> ('s, error + http_resp) act) \<Rightarrow> nameserver
    \<Rightarrow> string \<Rightarrow> ('s, error option) act" where
  "DeleteDomain bad_url send n domainName =
     error_only (ns_do bad_url send (ns_request n ''DELETE'' (''/delete-domain/'' @ domainName) None))"

definition GetRecord :: "(string \<Rightarrow> error option) \<Rightarrow> (http_req \<Rightarrow> ('s, error + http_resp) act) \<Rightarrow> nameserver
    \<Rightarrow> string \<Rightarrow> ('s, error + http_resp) act" where
  "GetRecord bad_url send n domainName =
     ns_do bad_url send (ns_request n ''GET'' (''/get-records/'' @ domainName) None)"

definition GetRegionDomain :: "(string \<Rightarrow> error option) \<Rightarrow> (http_req \<Rightarrow> ('s, error + http_resp) act) \<Rightarrow> nameserver
    \<Rightarrow> string \<Rightarrow> string \<Rightarrow> ('s, error + http_resp) act" where
  "GetRegionDomain bad_url send n accountName regionId =
     ns_do bad_url send (ns_request n ''GET'' (''/get-region-domain/'' @ accountName @ ''/'' @ regionId) None)"

lemmas ns_defs = ns_do_def error_only_def UpsertDomain_def DeleteDomain_def GetRecord_def

text \<open>The address a request goes to keeps the path it was given.\<close>

lemma ns_request_url: "suffix path (hq_url (ns_request n meth path body))"
  by (simp add: ns_request_def suffix_def)

lemma upsert_domain_body:
  "hq_body (upsert_domain_req n d ips) = hq_body (upsert_domain_req n d' ips') \<longleftrightarrow> d = d' \<and> ips = ips'"
proof -
  have "map JStr ips = map JStr ips' \<longleftrightarrow> ips = ips'" by (rule inj_map_eq_map) (simp add: inj_def)
  then show ?thesis by (auto simp: upsert_domain_req_def ns_request_def json_strs_def)
qed

end
