(* ===== verification/Domain.thy ===== *)
theory Domain
  imports Nameserver "HOL-Library.Multiset"
begin

text \<open>
  The domain controller, \<open>controllers/common/domain_controller.go\<close>: the addresses of the spec
  are compared with the answers of the nameserver, both sorted downwards, and sent when they
  differ.
\<close>

section \<open>Calls and environment\<close>

datatype dm_call = DMHttp http_req

type_synonym dm_hist = "(domain_spec, dm_call) hist"

record dm_env = "(domain_spec, dm_call) kenv" +
  dm_server :: nameserver
  dm_bad_url :: "string \<Rightarrow> error option"
  dm_http :: "dm_hist \<Rightarrow> error + http_resp"

type_synonym 'a dm_act = "((domain_spec, dm_call, unit) rstate, 'a) act"

definition dm_send :: "dm_env \<Rightarrow> http_req \<Rightarrow> (error + http_resp) dm_act" where
  "dm_send E req = ask (ECall (DMHttp req)) (dm_http E)"

definition RecoardUpToDate :: string where "RecoardUpToDate = ''record-up-to-date''"

section \<open>The answers of the nameserver\<close>

text \<open>
  A struct with the field \<open>Answers []string\<close>: an element that is no string reads as the empty
  string; another type than an array leaves the field; null empties it.  What cannot be parsed
  has no answers: the error is only printed.
\<close>

fun dec_answers :: "(string \<times> json) list \<Rightarrow> string list \<Rightarrow> string list" where
  "dec_answers [] acc = acc"
| "dec_answers ((k, v) # kvs) acc = dec_answers kvs (if lower k = ''answers'' then (case v of
       JArr vs \<Rightarrow> map (\<lambda>w. case w of JStr t \<Rightarrow> t | _ \<Rightarrow> '''') vs
     | JNull \<Rightarrow> []
     | _ \<Rightarrow> acc) else acc)"

definition answers_of :: "string \<Rightarrow> string list" where
  "answers_of body = (case json_parse body of Some (JObj kvs) \<Rightarrow> dec_answers kvs [] | _ \<Rightarrow> [])"

section \<open>The steps\<close>

definition sort_down :: "string list \<Rightarrow> string list" where
  "sort_down xs = rev (sort xs)"

text \<open>The comparison loop: the second list may be longer.\<close>

fun not_matched :: "string list \<Rightarrow> string list \<Rightarrow> bool" where
  "not_matched [] c_ips = False"
| "not_matched (v # vs) [] = True"
| "not_matched (v # vs) (c # cs) = (v \<noteq> c \<or> not_matched vs cs)"

definition Domain_reconUpdateRecord :: "dm_env \<Rightarrow> step_result dm_act" where
  "Domain_reconUpdateRecord E = andThen (gets rs_obj) (\<lambda>obj.
     let check = CheckGen (om_Generation (r_meta obj)) in
     if gm_get (om_Labels (r_meta obj)) ''kloudlite.io/wg-domain'' = None then
       CheckFailed E RecoardUpToDate check ''wg-domain not provided in labels of''
     else
       andThen (GetRecord (dm_bad_url E) (dm_send E) (dm_server E) (dm_Name (r_spec obj))) (\<lambda>r. case r of
         Inl e \<Rightarrow> CheckFailed E RecoardUpToDate check (errmsg e)
       | Inr res \<Rightarrow> (case hr_body res of
           Inl e \<Rightarrow> CheckFailed E RecoardUpToDate check (errmsg e)
         | Inr body \<Rightarrow>
             let c_ips = sort_down (answers_of body); ips = sort_down (dm_Ips (r_spec obj)) in
             andThen (modObj (\<lambda>x. x\<lparr>r_spec := (r_spec x)\<lparr>dm_Ips := ips\<rparr>\<rparr>)) (\<lambda>_.
             andThen (if not_matched ips c_ips
                then UpsertDomain (dm_bad_url E) (dm_send E) (dm_server E) (dm_Name (r_spec obj)) ips
                else ret None) (\<lambda>err. case err of
               Some e \<Rightarrow> CheckFailed E RecoardUpToDate check (errmsg e)
             | None \<Rightarrow> settleCheck E RecoardUpToDate check)))))"

definition Domain_finalize :: "dm_env \<Rightarrow> step_result dm_act" where
  "Domain_finalize E = andThen (gets rs_obj) (\<lambda>obj.
     andThen (DeleteDomain (dm_bad_url E) (dm_send E) (dm_server E) (dm_Name (r_spec obj))) (\<lambda>err. case err of
       Some e \<Rightarrow> FailWithStatusError E (Some e) []
     | None \<Rightarrow> Finalize E))"

definition Domain_Reconcile :: "dm_env \<Rightarrow> (domain_spec, dm_call, unit) reconcile" where
  "Domain_Reconcile E = reconcile_frame E Domain_methods [RecoardUpToDate]
     (Domain_finalize E) (andStep (Domain_reconUpdateRecord E) (complete E))"

section \<open>The comparison\<close>

lemma not_matched_iff: "not_matched ips c_ips \<longleftrightarrow> \<not> prefix ips c_ips"
  by (induction ips c_ips rule: not_matched.induct) auto

lemma sort_down_mset: "sort_down xs = sort_down ys \<longleftrightarrow> mset xs = mset ys"
  unfolding sort_down_def by (metis mset_sort properties_for_sort rev_is_rev_conv sorted_sort)

lemma sort_down_idem [simp]: "sort_down (sort_down xs) = sort_down xs"
  by (simp add: sort_down_mset) (simp add: sort_down_def)

lemma sort_down_append:
  assumes "\<forall>x \<in> set xs. \<forall>y \<in> set ys. y \<le> x"
  shows "sort_down (xs @ ys) = sort_down xs @ sort_down ys"
proof -
  have "sort (xs @ ys) = sort ys @ sort xs"
    by (rule properties_for_sort) (use assms in \<open>auto simp: sorted_append\<close>)
  then show ?thesis by (simp add: sort_down_def)
qed

section \<open>Runs\<close>

definition get_record_req :: "dm_env \<Rightarrow> domain_spec resource \<Rightarrow> http_req" where
  "get_record_req E obj = ns_request (dm_server E) ''GET'' (''/get-records/'' @ dm_Name (r_spec obj)) None"

definition delete_domain_req :: "dm_env \<Rightarrow> domain_spec resource \<Rightarrow> http_req" where
  "delete_domain_req E obj = ns_request (dm_server E) ''DELETE'' (''/delete-domain/'' @ dm_Name (r_spec obj)) None"

text \<open>The request that stores the addresses of the spec.\<close>

definition upsert_req :: "dm_env \<Rightarrow> domain_spec resource \<Rightarrow> http_req" where
  "upsert_req E obj = upsert_domain_req (dm_server E) (dm_Name (r_spec obj)) (sort_down (dm_Ips (r_spec obj)))"

lemma rs_swap: "s\<lparr>rs_hist := h, rs_obj := x\<rparr> = s\<lparr>rs_obj := x, rs_hist := h\<rparr>"
  by simp

lemma ends_with_status:
  "emits status_event u (snd (case x of Some e \<Rightarrow> CheckFailed E n c (errmsg e) u | None \<Rightarrow> settleCheck E n c u))"
  by (cases x) (auto intro: status_runs(2) status_runs(6) prod.collapse [symmetric])

section \<open>Properties\<close>

text \<open>C28. The record step sends the addresses of the spec exactly when they are not the first ones of
  the answers of the nameserver, both sorted downwards; it sends them sorted, once, and makes no
  other request.\<close>

theorem Domain_upserts_iff_not_prefix:
  fixes s :: "(domain_spec, dm_call, unit) rstate"
  defines "obj \<equiv> rs_obj s"
  assumes "gm_get (om_Labels (r_meta obj)) ''kloudlite.io/wg-domain'' \<noteq> None"
    and "\<And>url. dm_bad_url E url = None"
    and "dm_http E (rs_hist s @ [ECall (DMHttp (get_record_req E obj))]) = Inr res" and "hr_body res = Inr body"
  shows "\<exists>ds. (\<forall>e \<in> set ds. status_event e) \<and> rs_hist (snd (Domain_reconUpdateRecord E s))
      = rs_hist s @ ECall (DMHttp (get_record_req E obj))
        # (if prefix (sort_down (dm_Ips (r_spec obj))) (sort_down (answers_of body)) then []
           else [ECall (DMHttp (upsert_req E obj))]) @ ds"
proof -
  let ?check = "CheckGen (om_Generation (r_meta obj))"
  let ?p = "prefix (sort_down (dm_Ips (r_spec obj))) (sort_down (answers_of body))"
  let ?g = "ECall (DMHttp (get_record_req E obj))" and ?up = "ECall (DMHttp (upsert_req E obj))"
  let ?h = "rs_hist s @ ?g # (if ?p then [] else [?up])"
  let ?u = "s\<lparr>rs_hist := ?h, rs_obj := obj\<lparr>r_spec := (r_spec obj)\<lparr>dm_Ips := sort_down (dm_Ips (r_spec obj))\<rparr>\<rparr>\<rparr>"
  let ?x = "if ?p then None else (case dm_http E ?h of Inl e \<Rightarrow> Some e | Inr _ \<Rightarrow> None)"
  from assms(2) obtain w where lab: "gm_get (om_Labels (r_meta obj)) ''kloudlite.io/wg-domain'' = Some w" by auto
  have "Domain_reconUpdateRecord E s = (case ?x of Some e \<Rightarrow> CheckFailed E RecoardUpToDate ?check (errmsg e) ?u
          | None \<Rightarrow> settleCheck E RecoardUpToDate ?check ?u)"
    using lab assms(3-5) unfolding obj_def
    by (simp add: Domain_reconUpdateRecord_def Let_def GetRecord_def ns_do_def dm_send_def ask_def andThen_apply
        get_record_req_def not_matched_iff modObj_def ret_def UpsertDomain_def error_only_def upsert_req_def
        rs_swap split: sum.split)
  then have "emits status_event ?u (snd (Domain_reconUpdateRecord E s))"
    by (simp only: ends_with_status)
  then show ?thesis unfolding emits_def by auto
qed

text \<open>Answers that sort below every address of the spec are never removed: a nameserver that
  answers with the addresses of the spec and such others is taken to be up to date.  With no
  others, this says that what the step sends settles it.\<close>

theorem Domain_extra_answers_stay:
  fixes s :: "(domain_spec, dm_call, unit) rstate"
  defines "obj \<equiv> rs_obj s"
  assumes "gm_get (om_Labels (r_meta obj)) ''kloudlite.io/wg-domain'' \<noteq> None"
    and "\<And>url. dm_bad_url E url = None"
    and "dm_http E (rs_hist s @ [ECall (DMHttp (get_record_req E obj))]) = Inr res" and "hr_body res = Inr body"
    and "mset (answers_of body) = mset (dm_Ips (r_spec obj)) + mset extra"
    and "\<forall>x \<in> set (dm_Ips (r_spec obj)). \<forall>y \<in> set extra. y \<le> x"
  shows "\<exists>ds. (\<forall>e \<in> set ds. status_event e) \<and> rs_hist (snd (Domain_reconUpdateRecord E s))
      = rs_hist s @ ECall (DMHttp (get_record_req E obj)) # ds"
proof -
  have "sort_down (answers_of body) = sort_down (dm_Ips (r_spec obj) @ extra)"
    using assms(6) by (simp add: sort_down_mset)
  then have "prefix (sort_down (dm_Ips (r_spec obj))) (sort_down (answers_of body))"
    using sort_down_append [OF assms(7)] by simp
  then show ?thesis using Domain_upserts_iff_not_prefix [OF assms(2-5) [unfolded obj_def]] unfolding obj_def by simp
qed

text \<open>A domain is released only after the nameserver was asked to delete it and the request was
  answered; the status code of the answer is not looked at.\<close>

theorem Domain_released_after_delete:
  assumes "Domain_finalize E s = (r, t)" and "rs_hist t = rs_hist s @ es" and "EUpdate x \<in> set es"
  shows "dm_bad_url E (hq_url (delete_domain_req E (rs_obj s))) = None
    \<and> (\<exists>res. dm_http E (rs_hist s @ [ECall (DMHttp (delete_domain_req E (rs_obj s)))]) = Inr res)
    \<and> hd es = ECall (DMHttp (delete_domain_req E (rs_obj s)))"
proof -
  let ?req = "delete_domain_req E (rs_obj s)"
  let ?u = "s\<lparr>rs_hist := rs_hist s @ [ECall (DMHttp ?req)]\<rparr>"
  have quiet: False if "FailWithStatusError E (Some e) [] u = (r, t)" "rs_hist u = rs_hist s @ ds" "EUpdate x \<notin> set ds" for e u ds
    using status_runs(3) [OF that(1)] that(2,3) assms(2,3) by (auto simp: emits_def status_list)
  have fin: "Domain_finalize E s = (case dm_bad_url E (hq_url ?req) of
      Some e \<Rightarrow> FailWithStatusError E (Some e) [] s
    | None \<Rightarrow> (case dm_http E (rs_hist ?u) of Inl e \<Rightarrow> FailWithStatusError E (Some e) [] ?u | Inr _ \<Rightarrow> Finalize E ?u))"
    by (simp add: Domain_finalize_def DeleteDomain_def ns_do_def error_only_def dm_send_def ask_def andThen_apply ret_def
        delete_domain_req_def split: option.split sum.split)
  show ?thesis
  proof (cases "dm_bad_url E (hq_url ?req)")
    case (Some e)
    then show ?thesis using assms(1) fin quiet [of e s "[]"] by simp
  next
    case None
    show ?thesis
    proof (cases "dm_http E (rs_hist ?u)")
      case (Inl e)
      then show ?thesis using assms(1) fin None quiet [of e ?u "[ECall (DMHttp ?req)]"] by simp
    next
      case (Inr res)
      then have "Finalize E ?u = (r, t)" using assms(1) fin None by simp
      from Finalize_hist [OF this] show ?thesis using None Inr assms(2) by auto
    qed
  qed
qed

section \<open>Witnesses\<close>

definition sample_domain :: "string list \<Rightarrow> (domain_spec, dm_call, unit) rstate" where
  "sample_domain ips = \<lparr>rs_obj = \<lparr>r_meta = sample_meta\<lparr>om_Labels := Some [(''kloudlite.io/wg-domain'', ''true'')]\<rparr>,
     r_spec = \<lparr>dm_Name = ''d'', dm_Ips = ips\<rparr>, r_status = status0\<rparr>, rs_hist = [], rs_locals = []\<rparr>"

definition sample_dm_env :: "string \<Rightarrow> dm_env" where
  "sample_dm_env body = kenv.extend storing_env \<lparr>dm_server = NewClient ''http://ns'' ''u'' ''p'', dm_bad_url = (\<lambda>_. None),
     dm_http = (\<lambda>_. Inr \<lparr>hr_status = 200, hr_body = Inr body\<rparr>)\<rparr>"

lemma sample_dm_sel [simp]:
  "dm_bad_url (sample_dm_env b) url = None" "dm_http (sample_dm_env b) h = Inr \<lparr>hr_status = 200, hr_body = Inr b\<rparr>"
  "gm_get (om_Labels (r_meta (rs_obj (sample_domain ips)))) ''kloudlite.io/wg-domain'' = Some ''true''"
  "dm_Ips (r_spec (rs_obj (sample_domain ips))) = ips" "rs_hist (sample_domain ips) = []"
  by (simp_all add: sample_dm_env_def kenv.extend_def sample_domain_def gm_get_def)

definition sample_answer :: string where
  "sample_answer = ''{\"answers\":[\"10.0.0.1\",\"10.0.0.2\"]}''"

lemma sample_answer_dec: "answers_of sample_answer = [''10.0.0.1'', ''10.0.0.2'']"
  by code_simp

lemma Domain_upserts_iff_not_prefix_witness:
  "\<exists>ds. rs_hist (snd (Domain_reconUpdateRecord (sample_dm_env sample_answer) (sample_domain [''10.0.0.1''])))
     = ECall (DMHttp (get_record_req (sample_dm_env sample_answer) (rs_obj (sample_domain [''10.0.0.1'']))))
       # ECall (DMHttp (upsert_req (sample_dm_env sample_answer) (rs_obj (sample_domain [''10.0.0.1''])))) # ds"
proof -
  have "\<not> prefix (sort_down [''10.0.0.1'']) (sort_down (answers_of sample_answer))"
    unfolding sample_answer_dec by (simp add: sort_down_def)
  then show ?thesis
    using Domain_upserts_iff_not_prefix [of "sample_domain [''10.0.0.1'']" "sample_dm_env sample_answer"
        "\<lparr>hr_status = 200, hr_body = Inr sample_answer\<rparr>" sample_answer] by auto
qed

lemma Domain_extra_answers_stay_witness:
  "\<exists>ds. (\<forall>e \<in> set ds. status_event e) \<and> rs_hist (snd (Domain_reconUpdateRecord (sample_dm_env sample_answer) (sample_domain [''10.0.0.2''])))
     = ECall (DMHttp (get_record_req (sample_dm_env sample_answer) (rs_obj (sample_domain [''10.0.0.2''])))) # ds"
  using Domain_extra_answers_stay [of "sample_domain [''10.0.0.2'']" "sample_dm_env sample_answer"
      "\<lparr>hr_status = 200, hr_body = Inr sample_answer\<rparr>" sample_answer "[''10.0.0.1'']"]
  by (simp add: sample_answer_dec)

lemma Domain_released_after_delete_witness:
  "hd (rs_hist (snd (Domain_finalize (sample_dm_env '''') (sample_domain []))))
     = ECall (DMHttp (delete_domain_req (sample_dm_env '''') (rs_obj (sample_domain []))))"
proof -
  obtain r t where run: "Domain_finalize (sample_dm_env '''') (sample_domain []) = (r, t)" by fastforce
  have "\<exists>x. EUpdate x \<in> set (rs_hist t)"
    using run by (auto simp: Domain_finalize_def DeleteDomain_def ns_do_def error_only_def dm_send_def ask_def
        andThen_apply ret_def dest!: Finalize_hist)
  then show ?thesis using run Domain_released_after_delete [OF run, of "rs_hist t"] by auto
qed

end
