(* ===== verification/Region.thy ===== *)
theory Region
  imports Domain
begin

text \<open>
  The region controller, \<open>controllers/common/region_controller.go\<close>: the public addresses of a
  region's nodes are shown in its status and sent to the nameserver as the records of the
  region's domain.
\<close>

section \<open>Calls and environment\<close>

text \<open>A Kubernetes node, as far as it is read: its annotations and labels.\<close>

record knode =
  kn_Annotations :: "string gomap"
  kn_Labels :: "string gomap"

datatype rg_call =
    RGListNodes "(string \<times> string) list"
  | RGHttp http_req

type_synonym rg_hist = "(region_spec, rg_call) hist"

record rg_env = "(region_spec, rg_call) kenv" +
  rg_server :: nameserver
  rg_bad_url :: "string \<Rightarrow> error option"
  rg_http :: "rg_hist \<Rightarrow> error + http_resp"
  rg_nodes :: "rg_hist \<Rightarrow> error + knode list"

type_synonym 'a rg_act = "((region_spec, rg_call, unit) rstate, 'a) act"

definition rg_send :: "rg_env \<Rightarrow> http_req \<Rightarrow> (error + http_resp) rg_act" where
  "rg_send E req = ask (ECall (RGHttp req)) (rg_http E)"

definition DomainReady :: string where "DomainReady = ''domain-ready''"

section \<open>The steps\<close>

definition region_selector :: "region_spec resource \<Rightarrow> (string \<times> string) list" where
  "region_selector obj = (if rg_IsMaster (r_spec obj) then [(''node-role.kubernetes.io/master'', ''true'')]
     else [(''kloudlite.io/region'', om_Name (r_meta obj))])"

fun node_ips :: "knode list \<Rightarrow> string list" where
  "node_ips [] = []"
| "node_ips (n # ns) = (case gm_get (kn_Annotations n) ''k3s.io/external-ip'' of
     Some ip \<Rightarrow> ip # node_ips ns
   | None \<Rightarrow> (case gm_get (kn_Labels n) ''kloudlite.io/public-ip'' of
       Some ip \<Rightarrow> ip # node_ips ns
     | None \<Rightarrow> node_ips ns))"

definition region_domain :: "region_spec resource \<Rightarrow> string" where
  "region_domain obj = (if rg_IsMaster (r_spec obj) then om_Name (r_meta obj) @ ''.wg.khost.dev''
     else om_Name (r_meta obj) @ ''.'' @ rg_AccountName (r_spec obj) @ ''.wg.khost.dev'')"

definition Region_reconUpdateRecord :: "rg_env \<Rightarrow> step_result rg_act" where
  "Region_reconUpdateRecord E = andThen (gets rs_obj) (\<lambda>obj.
     let check = CheckGen (om_Generation (r_meta obj)) in
     andThen (ask (ECall (RGListNodes (region_selector obj))) (rg_nodes E)) (\<lambda>r. case r of
       Inl e \<Rightarrow> CheckFailed E DomainReady check (errmsg e)
     | Inr nodes \<Rightarrow>
         andThen (onDisplayVars (rj_Set ''kloudlite.io/node-ips'' (json_strs (node_ips nodes)))) (\<lambda>_.
         andThen (UpsertDomain (rg_bad_url E) (rg_send E) (rg_server E) (region_domain obj) (node_ips nodes)) (\<lambda>err.
         case err of
           Some e \<Rightarrow> CheckFailed E DomainReady check (errmsg e)
         | None \<Rightarrow> settleCheck E RecoardUpToDate check))))"

definition Region_finalize :: "rg_env \<Rightarrow> step_result rg_act" where
  "Region_finalize E = Done E []"

definition Region_Reconcile :: "rg_env \<Rightarrow> (region_spec, rg_call, unit) reconcile" where
  "Region_Reconcile E = reconcile_frame E Region_methods [RecoardUpToDate]
     (Region_finalize E) (andStep (Region_reconUpdateRecord E) (complete E))"

text \<open>The watch of the manager: the region a node's label names.\<close>

definition Region_watch :: "knode \<Rightarrow> string list" where
  "Region_watch n = (case gm_get (kn_Labels n) ''kloudlite.io/region'' of None \<Rightarrow> [] | Some region \<Rightarrow> [region])"

section \<open>Runs\<close>

definition public_ip :: "knode \<Rightarrow> string option" where
  "public_ip n = (case gm_get (kn_Annotations n) ''k3s.io/external-ip'' of
     Some ip \<Rightarrow> Some ip | None \<Rightarrow> gm_get (kn_Labels n) ''kloudlite.io/public-ip'')"

lemma node_ips_eq: "node_ips ns = map the (filter (\<lambda>x. x \<noteq> None) (map public_ip ns))"
  by (induction ns) (auto simp: public_ip_def split: option.splits)

definition region_upsert :: "rg_env \<Rightarrow> region_spec resource \<Rightarrow> knode list \<Rightarrow> http_req" where
  "region_upsert E obj nodes = upsert_domain_req (rg_server E) (region_domain obj) (node_ips nodes)"

definition listed :: "(region_spec, rg_call, unit) rstate \<Rightarrow> (region_spec, rg_call) hist" where
  "listed s = rs_hist s @ [ECall (RGListNodes (region_selector (rs_obj s)))]"

lemma onDisplayVars_run:
  assumes "rj_ok (st_DisplayVars (r_status (rs_obj s)))"
  shows "onDisplayVars (rj_Set k v) s
    = (Ret None, updStatus (\<lambda>st. st\<lparr>st_DisplayVars := rj_put k v (st_DisplayVars st)\<rparr>) s)"
  using assms by (simp add: onDisplayVars_def updStatus_def)

text \<open>The state in which the record step of a region settles its check, and the run up to there.\<close>

definition sent_state :: "rg_env \<Rightarrow> knode list \<Rightarrow> (region_spec, rg_call, unit) rstate \<Rightarrow> (region_spec, rg_call, unit) rstate" where
  "sent_state E nodes s = (updStatus (\<lambda>st. st\<lparr>st_DisplayVars := rj_put ''kloudlite.io/node-ips''
       (json_strs (node_ips nodes)) (st_DisplayVars st)\<rparr>) s)
     \<lparr>rs_hist := listed s @ [ECall (RGHttp (region_upsert E (rs_obj s) nodes))]\<rparr>"

lemma Region_recon_sends:
  assumes "rj_ok (st_DisplayVars (r_status (rs_obj s)))" and "rg_nodes E (listed s) = Inr nodes"
    and "rg_bad_url E (hq_url (region_upsert E (rs_obj s) nodes)) = None"
  shows "Region_reconUpdateRecord E s = (case rg_http E (rs_hist (sent_state E nodes s)) of
      Inl e \<Rightarrow> CheckFailed E DomainReady (CheckGen (om_Generation (r_meta (rs_obj s)))) (errmsg e) (sent_state E nodes s)
    | Inr _ \<Rightarrow> settleCheck E RecoardUpToDate (CheckGen (om_Generation (r_meta (rs_obj s)))) (sent_state E nodes s))"
proof -
  let ?u = "s\<lparr>rs_hist := listed s\<rparr>"
  have d: "onDisplayVars (rj_Set k v) ?u
      = (Ret None, updStatus (\<lambda>st. st\<lparr>st_DisplayVars := rj_put k v (st_DisplayVars st)\<rparr>) ?u)" for k v
    using assms(1) by (intro onDisplayVars_run) simp
  have st: "(updStatus f ?u)\<lparr>rs_hist := h\<rparr> = (updStatus f s)\<lparr>rs_hist := h\<rparr>" for f h
    by (simp add: updStatus_def)
  show ?thesis
    using assms(2,3)
    by (simp add: d st Region_reconUpdateRecord_def Let_def ask_def andThen_apply listed_def [symmetric] UpsertDomain_def
        error_only_def ns_do_def rg_send_def region_upsert_def ret_def sent_state_def split: sum.split)
qed

lemma sent_state_sel [simp]:
  "rs_hist (sent_state E nodes s) = listed s @ [ECall (RGHttp (region_upsert E (rs_obj s) nodes))]"
  "st_Checks (r_status (rs_obj (sent_state E nodes s))) = st_Checks (r_status (rs_obj s))"
  "st_Message (r_status (rs_obj (sent_state E nodes s))) = st_Message (r_status (rs_obj s))"
  by (simp_all add: sent_state_def updStatus_def)

lemma sent_state_ready: "status_ready s \<Longrightarrow> status_ready (sent_state E nodes s)"
  by (simp add: status_ready_def)

section \<open>Properties\<close>

text \<open>C30. A region is never released: a pass over a region being deleted sends status updates only, so
  its finalizers are never removed.\<close>

theorem Region_never_released:
  assumes "deleting s" and "Region_Reconcile E s = (r, t)"
  shows "emits status_event s t"
proof -
  have "keeps (emits status_event) (andStep (Region_finalize E) (ret (ctrl_zero, None)))"
    and "keeps (emits status_event) (andStep (EnsureChecks E [RecoardUpToDate]) (ret (ctrl_zero, None)))"
    unfolding Region_finalize_def andStep_def by (auto intro!: keeps_intros)
  then show ?thesis
    using assms(2) unfolding Region_Reconcile_def frame_deleting [OF assms(1)]
    by (auto split: if_splits elim: keepsE)
qed

text \<open>C29. Each time the record step lists the nodes it sends one request with the addresses of all
  nodes that have one, in the order listed, the annotation before the label, under the domain
  of the region; nothing else but status updates follows.\<close>

theorem Region_sends_public_addresses:
  assumes "rj_ok (st_DisplayVars (r_status (rs_obj s)))" and "rg_nodes E (listed s) = Inr nodes"
    and "rg_bad_url E (hq_url (region_upsert E (rs_obj s) nodes)) = None"
  shows "\<exists>ds. (\<forall>e \<in> set ds. status_event e) \<and> rs_hist (snd (Region_reconUpdateRecord E s))
      = listed s @ ECall (RGHttp (upsert_domain_req (rg_server E) (region_domain (rs_obj s))
          (map the (filter (\<lambda>x. x \<noteq> None) (map public_ip nodes))))) # ds"
proof -
  have "emits status_event (sent_state E nodes s) (snd (Region_reconUpdateRecord E s))"
    unfolding Region_recon_sends [OF assms]
    by (cases "rg_http E (rs_hist (sent_state E nodes s))")
      (auto intro: status_runs(2) status_runs(6) prod.collapse [symmetric])
  then show ?thesis unfolding node_ips_eq [symmetric] by (auto simp: emits_def region_upsert_def)
qed

text \<open>A failure of a region is recorded under \<open>domain-ready\<close> and a success under
  \<open>record-up-to-date\<close>: once failed, the first check and its message stay in every status that a
  pass in which everything succeeds sends, up to the one that calls the region ready.\<close>

theorem Region_failure_never_cleared:
  assumes "status_ready s" and "gm_ok (st_Checks (r_status (rs_obj s)))"
    and "rj_ok (st_DisplayVars (r_status (rs_obj s)))" and "rg_nodes E (listed s) = Inr nodes"
    and "rg_bad_url E (hq_url (region_upsert E (rs_obj s) nodes)) = None"
    and "rg_http E (rs_hist (sent_state E nodes s)) = Inr res"
    and "gm_get (st_Checks (r_status (rs_obj s))) DomainReady = Some d" and "\<not> ck_Status d"
    and "rs_hist (snd (andStep (Region_reconUpdateRecord E) (complete E) s)) = rs_hist s @ es"
  shows "\<forall>x. EStatusUpdate x \<in> set es \<longrightarrow> gm_get (st_Checks (r_status x)) DomainReady = Some d
    \<and> rj_lookup (st_Message (r_status x)) DomainReady = rj_lookup (st_Message (r_status (rs_obj s))) DomainReady"
proof -
  let ?u = "sent_state E nodes s" and ?c = "CheckGen (om_Generation (r_meta (rs_obj s)))"
  have run: "Region_reconUpdateRecord E s = settleCheck E RecoardUpToDate ?c ?u"
    using Region_recon_sends [OF assms(3-5)] assms(6) by simp
  have hist: "rs_hist ?u = rs_hist s @ [ECall (RGListNodes (region_selector (rs_obj s))),
      ECall (RGHttp (region_upsert E (rs_obj s) nodes))]"
    by (simp add: listed_def)
  have ok: "gm_ok (st_Checks (r_status (rs_obj ?u)))" using assms(2) by simp
  have fail: "gm_get (st_Checks (r_status (rs_obj ?u))) DomainReady = Some d' \<Longrightarrow> \<not> ck_Status d'" for d'
    using assms(7,8) by simp
  have ne: "DomainReady \<noteq> RecoardUpToDate" by (simp add: DomainReady_def RecoardUpToDate_def)
  show ?thesis
  proof (rule settleCheck_others [OF sent_state_ready [OF assms(1)] ok ne fail, of E ?c])
    assume "settleCheck E RecoardUpToDate ?c ?u = (Ret (Continue New True), ?u)"
    then show ?thesis
      using assms(7,9) run hist
      by (simp add: andStep_def andThen_apply ShouldProceed_def Continue_def New_def complete_def ret_def) (auto simp: listed_def)
  next
    fix r x
    assume x: "settleCheck E RecoardUpToDate ?c ?u = (Ret r, answered E x)" "\<not> ShouldProceed r" "rs_hist x = rs_hist ?u"
      "gm_get (st_Checks (r_status (rs_obj x))) DomainReady = gm_get (st_Checks (r_status (rs_obj ?u))) DomainReady"
      "rj_lookup (st_Message (r_status (rs_obj x))) DomainReady = rj_lookup (st_Message (r_status (rs_obj ?u))) DomainReady"
    then have "es = [ECall (RGListNodes (region_selector (rs_obj s))), ECall (RGHttp (region_upsert E (rs_obj s) nodes)),
        EStatusUpdate (rs_obj x)]"
      using assms(9) run hist by (simp add: andStep_def andThen_apply ret_def)
    then show ?thesis using x(4,5) assms(7) by auto
  qed
qed

section \<open>Witnesses\<close>

definition sample_region :: "bool \<Rightarrow> check gomap \<Rightarrow> (region_spec, rg_call, unit) rstate" where
  "sample_region del cs = \<lparr>rs_obj = \<lparr>r_meta = sample_meta\<lparr>om_Deleting := del\<rparr>,
     r_spec = \<lparr>rg_AccountName = ''acc'', rg_IsMaster = False\<rparr>, r_status = status0\<lparr>st_Checks := cs\<rparr>\<rparr>,
     rs_hist = [], rs_locals = []\<rparr>"

definition sample_nodes :: "knode list" where
  "sample_nodes = [\<lparr>kn_Annotations = None, kn_Labels = Some [(''kloudlite.io/public-ip'', ''1.1.1.1'')]\<rparr>,
     \<lparr>kn_Annotations = None, kn_Labels = None\<rparr>]"

definition sample_rg_env :: rg_env where
  "sample_rg_env = kenv.extend storing_env \<lparr>rg_server = NewClient ''http://ns'' ''u'' ''p'', rg_bad_url = (\<lambda>_. None),
     rg_http = (\<lambda>_. Inr \<lparr>hr_status = 500, hr_body = Inr ''''\<rparr>), rg_nodes = (\<lambda>_. Inr sample_nodes)\<rparr>"

lemma sample_rg_sel [simp]:
  "rg_bad_url sample_rg_env url = None" "rg_http sample_rg_env h = Inr \<lparr>hr_status = 500, hr_body = Inr ''''\<rparr>"
  "rg_nodes sample_rg_env h = Inr sample_nodes"
  by (simp_all add: sample_rg_env_def kenv.extend_def)

lemma sample_region_sel [simp]:
  "rj_ok (st_DisplayVars (r_status (rs_obj (sample_region del cs))))"
  "rj_ok (st_Message (r_status (rs_obj (sample_region del cs))))"
  "st_Checks (r_status (rs_obj (sample_region del cs))) = cs" "rs_hist (sample_region del cs) = []"
  by (simp_all add: sample_region_def status0_def)

lemma Region_never_released_witness:
  "emits status_event (sample_region True None) (snd (Region_Reconcile sample_rg_env (sample_region True None)))"
  by (rule Region_never_released [of "sample_region True None" sample_rg_env
        "fst (Region_Reconcile sample_rg_env (sample_region True None))"])
    (simp_all add: deleting_def sample_region_def)

lemma Region_sends_public_addresses_witness:
  "\<exists>ds. rs_hist (snd (Region_reconUpdateRecord sample_rg_env (sample_region False None)))
     = listed (sample_region False None) @ ECall (RGHttp (upsert_domain_req (rg_server sample_rg_env)
         (region_domain (rs_obj (sample_region False None))) [''1.1.1.1''])) # ds"
  using Region_sends_public_addresses [of "sample_region False None" sample_rg_env sample_nodes]
  by (auto simp: sample_nodes_def public_ip_def gm_get_def)

lemma Region_failure_never_cleared_witness:
  "\<exists>es. rs_hist (snd (andStep (Region_reconUpdateRecord sample_rg_env) (complete sample_rg_env)
       (sample_region False (Some [(DomainReady, Check0)])))) = es
     \<and> (\<forall>x. EStatusUpdate x \<in> set es \<longrightarrow> gm_get (st_Checks (r_status x)) DomainReady = Some Check0)"
proof -
  let ?s = "sample_region False (Some [(DomainReady, Check0)])"
  have "status_ready ?s" "gm_ok (st_Checks (r_status (rs_obj ?s)))"
    "gm_get (st_Checks (r_status (rs_obj ?s))) DomainReady = Some Check0" "\<not> ck_Status Check0"
    by (simp_all add: status_ready_def gm_ok_def gm_get_def gm_entries_def Check0_def)
  then show ?thesis
    using Region_failure_never_cleared [of ?s sample_rg_env sample_nodes _ Check0
        "rs_hist (snd (andStep (Region_reconUpdateRecord sample_rg_env) (complete sample_rg_env) ?s))"] by simp
qed

end
