(* ===== verification/Json.thy ===== *)
theory Json
  imports Std
begin

text \<open>
  The encoder of \<open>encoding/json\<close> as the controllers use it (\<open>json.Marshal\<close>, which escapes for
  HTML), and that the decoder of \<open>Std\<close> reads back what it writes, within the fuel it is given.
\<close>

section \<open>Encoding\<close>

definition hex_digit :: "nat \<Rightarrow> char" where
  "hex_digit n = (if n < 10 then char_of (48 + n) else char_of (87 + n))"

definition u00 :: "nat \<Rightarrow> string" where
  "u00 n = [backslash, CHR ''u'', CHR ''0'', CHR ''0'', hex_digit (n div 16), hex_digit (n mod 16)]"

definition json_char :: "char \<Rightarrow> string" where
  "json_char c = (let n = of_char c :: nat in
     if c = dquote \<or> c = backslash then [backslash, c]
     else if c = CHR 0x0A then [backslash, CHR ''n'']
     else if c = CHR 0x0D then [backslash, CHR ''r'']
     else if c = CHR 0x09 then [backslash, CHR ''t'']
     else if n < 32 \<or> c = CHR ''<'' \<or> c = CHR ''>'' \<or> c = CHR 0x26 then u00 n
     else [c])"

text \<open>The line separators U+2028 and U+2029 are escaped too.\<close>

definition line_sep :: "string \<Rightarrow> bool" where
  "line_sep s \<longleftrightarrow> take 3 s = [CHR 0xE2, CHR 0x80, CHR 0xA8] \<or> take 3 s = [CHR 0xE2, CHR 0x80, CHR 0xA9]"

fun json_text :: "string \<Rightarrow> string" where
  "json_text [] = []"
| "json_text (c # cs) = (if line_sep (c # cs)
     then [backslash, CHR ''u'', CHR ''2'', CHR ''0'', CHR ''2'', hex_digit (of_char (cs ! 1) - 160)] @ json_text (drop 2 cs)
     else json_char c @ json_text cs)"

fun json_print :: "json \<Rightarrow> string"
  and json_items :: "json list \<Rightarrow> string"
  and json_fields :: "(string \<times> json) list \<Rightarrow> string" where
  "json_print JNull = ''null''"
| "json_print (JBool b) = (if b then ''true'' else ''false'')"
| "json_print (JInt i) = itoa i"
| "json_print (JNum s) = s"
| "json_print (JStr s) = dquote # json_text s @ [dquote]"
| "json_print (JArr vs) = ''['' @ (case vs of [] \<Rightarrow> '']'' | _ \<Rightarrow> json_items vs)"
| "json_print (JObj kvs) = ''{'' @ (case kvs of [] \<Rightarrow> ''}'' | _ \<Rightarrow> json_fields kvs)"
| "json_items [] = []"
| "json_items (v # vs) = json_print v @ (case vs of [] \<Rightarrow> '']'' | _ \<Rightarrow> '','' @ json_items vs)"
| "json_fields [] = []"
| "json_fields ((k, v) # kvs) = (dquote # json_text k @ [dquote]) @ '':'' @ json_print v
     @ (case kvs of [] \<Rightarrow> ''}'' | _ \<Rightarrow> '','' @ json_fields kvs)"

text \<open>Documents without fractions and exponents, the literals of which are kept as text.\<close>

fun whole :: "json \<Rightarrow> bool" where
  "whole (JNum s) = False"
| "whole (JArr vs) = (\<forall>v \<in> set vs. whole v)"
| "whole (JObj kvs) = (\<forall>kv \<in> set kvs. whole (snd kv))"
| "whole j = True"

section \<open>Strings\<close>

lemma of_char_less: "(of_char c :: nat) < 256"
  using nat_of_char_less_256 by simp

lemma hex_val_digit: "n < 16 \<Longrightarrow> hex_val (hex_digit n) = Some n"
  by (simp add: hex_val_def hex_digit_def)

lemma hex4_u00: "n < 256 \<Longrightarrow> hex4 (CHR ''0'' # CHR ''0'' # hex_digit (n div 16) # hex_digit (n mod 16) # r) = Some n"
proof -
  assume n: "n < 256"
  have "hex_val (hex_digit (n div 16)) = Some (n div 16)" "hex_val (hex_digit (n mod 16)) = Some (n mod 16)"
    using n by (simp_all add: hex_val_digit)
  moreover have "hex_val CHR ''0'' = Some 0" by (simp add: hex_val_def)
  ultimately show ?thesis by (simp add: hex4_def)
qed

lemma json_chars_plain:
  "n > 0 \<Longrightarrow> c \<noteq> dquote \<Longrightarrow> c \<noteq> backslash \<Longrightarrow> \<not> (of_char c :: nat) < 32
    \<Longrightarrow> json_chars n (c # cs) = map_option (\<lambda>(f, r). (c # f, r)) (json_chars (n - 1) cs)"
  by (cases n) auto

lemma backslash_props: "backslash \<noteq> dquote" "(of_char backslash :: nat) = 92"
  by (simp_all add: backslash_def dquote_def)

lemma json_chars_simple:
  "n > 0 \<Longrightarrow> simple_escape e = Some d \<Longrightarrow> e \<noteq> CHR ''u''
    \<Longrightarrow> json_chars n (backslash # e # cs) = map_option (\<lambda>(f, r). (d # f, r)) (json_chars (n - 1) cs)"
  by (cases n) (auto simp: backslash_props)

lemma json_chars_u:
  "n > 0 \<Longrightarrow> hex4 (a # b # c # d # cs) = Some v \<Longrightarrow> \<not> (0xD800 \<le> v \<and> v < 0xE000)
    \<Longrightarrow> json_chars n (backslash # CHR ''u'' # a # b # c # d # cs) = map_option (\<lambda>(f, r). (utf8 v @ f, r)) (json_chars (n - 1) cs)"
  by (cases n) (auto simp: backslash_props u_escape_def Let_def)

lemma simple_escapes:
  "simple_escape dquote = Some dquote" "simple_escape backslash = Some backslash"
  "simple_escape CHR ''n'' = Some CHR 0x0A" "simple_escape CHR ''r'' = Some CHR 0x0D" "simple_escape CHR ''t'' = Some CHR 0x09"
  "dquote \<noteq> CHR ''u''" "backslash \<noteq> CHR ''u''"
  by (simp_all add: simple_escape_def dquote_def backslash_def)

lemma json_chars_json_char:
  assumes "n > 0"
  shows "json_chars n (json_char c @ cs) = map_option (\<lambda>(f, r). (c # f, r)) (json_chars (n - 1) cs)"
proof -
  have u: "json_chars n (u00 (of_char c) @ cs) = map_option (\<lambda>(f, r). (c # f, r)) (json_chars (n - 1) cs)"
    if "(of_char c :: nat) < 128"
    using that assms hex4_u00 [of "of_char c" cs] json_chars_u [OF assms, of "CHR ''0''" "CHR ''0''" _ _ cs "of_char c"]
    by (simp add: u00_def utf8_def)
  have "(of_char c :: nat) < 128" if "(of_char c :: nat) < 32 \<or> c = CHR ''<'' \<or> c = CHR ''>'' \<or> c = CHR 0x26"
    using that by auto
  with u show ?thesis
    using assms by (auto simp: json_char_def Let_def json_chars_simple simple_escapes json_chars_plain)
qed

lemma line_sep_split:
  assumes "line_sep (c # cs)"
  shows "\<exists>d. (d = CHR 0xA8 \<or> d = CHR 0xA9) \<and> c # cs = CHR 0xE2 # CHR 0x80 # d # drop 2 cs"
  using assms unfolding line_sep_def by (cases cs; cases "tl cs") auto

lemma json_chars_line_sep:
  assumes "n > 0" and "d = CHR 0xA8 \<or> d = CHR 0xA9"
  shows "json_chars n ([backslash, CHR ''u'', CHR ''2'', CHR ''0'', CHR ''2'', hex_digit (of_char d - 160)] @ cs)
    = map_option (\<lambda>(f, r). ([CHR 0xE2, CHR 0x80, d] @ f, r)) (json_chars (n - 1) cs)"
proof -
  define v where "v = (0x2020 + (of_char d - 160) :: nat)"
  have v: "v = 0x2028 \<and> d = CHR 0xA8 \<or> v = 0x2029 \<and> d = CHR 0xA9" using assms(2) by (auto simp: v_def)
  have "hex4 (CHR ''2'' # CHR ''0'' # CHR ''2'' # hex_digit (of_char d - 160) # cs) = Some v"
    using v by (auto simp: hex4_def hex_val_def hex_digit_def)
  moreover have "utf8 0x2028 = [CHR 0xE2, CHR 0x80, CHR 0xA8]" "utf8 0x2029 = [CHR 0xE2, CHR 0x80, CHR 0xA9]"
    by (simp_all add: utf8_def char_of_def bit_0)
  then have "utf8 v = [CHR 0xE2, CHR 0x80, d]" using v by auto
  moreover have "\<not> (0xD800 \<le> v \<and> v < 0xE000)" using v by auto
  ultimately show ?thesis using json_chars_u [OF assms(1), of "CHR ''2''" "CHR ''0''" "CHR ''2''" _ cs v] by simp
qed

lemma json_chars_text:
  "length (json_text s) < n \<Longrightarrow> json_chars n (json_text s @ dquote # r) = Some (s, r)"
proof (induction s arbitrary: n rule: json_text.induct)
  case 1
  then show ?case by (cases n) auto
next
  case (2 c cs)
  show ?case
  proof (cases "line_sep (c # cs)")
    case True
    obtain d where d: "d = CHR 0xA8 \<or> d = CHR 0xA9" "c # cs = CHR 0xE2 # CHR 0x80 # d # drop 2 cs"
      using line_sep_split [OF True] by blast
    then have "cs ! 1 = d" by (cases cs; cases "tl cs") auto
    moreover have "json_chars (n - 1) (json_text (drop 2 cs) @ dquote # r) = Some (drop 2 cs, r)"
      using 2(1) [OF True, of "n - 1"] 2(3) True by simp
    ultimately show ?thesis
      using json_chars_line_sep [of n d "json_text (drop 2 cs) @ dquote # r"] d 2(3) True by simp
  next
    case False
    have "length (json_char c) > 0" by (simp add: json_char_def u00_def Let_def)
    moreover have "length (json_char c) + length (json_text cs) < n" using 2(3) False by simp
    ultimately have "length (json_text cs) < n - 1" by linarith
    then have "json_chars (n - 1) (json_text cs @ dquote # r) = Some (cs, r)"
      using 2(2) [OF False, of "n - 1"] by blast
    then show ?thesis
      using json_chars_json_char [of n c "json_text cs @ dquote # r"] 2(3) False by simp
  qed
qed

section \<open>Numbers\<close>

definition ends_value :: "string \<Rightarrow> bool" where
  "ends_value r \<longleftrightarrow> r = [] \<or> hd r = CHR '','' \<or> hd r = CHR '']'' \<or> hd r = CHR ''}''"

lemma ends_value_simps [simp]:
  "ends_value []" "ends_value (CHR '','' # r)" "ends_value (CHR '']'' # r)" "ends_value (CHR ''}'' # r)"
  by (simp_all add: ends_value_def)

lemma digit_leading: "d < 10 \<Longrightarrow> digit d = CHR ''0'' \<longleftrightarrow> d = 0"
proof -
  assume "d < 10"
  have "digit 0 = CHR ''0''" by (simp add: digit_def char_of_def bit_0)
  then show ?thesis using undigit_digit [OF \<open>d < 10\<close>] undigit_digit [of 0] by auto
qed

lemma nat_digits_leading: "length (nat_digits n) > 1 \<Longrightarrow> hd (nat_digits n) \<noteq> CHR ''0''"
proof (induction n rule: nat_digits.induct)
  case (1 n)
  then have n: "\<not> n < 10" by (auto simp: nat_digits.simps [of n])
  show ?case
  proof (cases "n div 10 < 10")
    case True
    moreover have "n div 10 \<noteq> 0" using n by simp
    ultimately show ?thesis
      using n digit_leading [of "n div 10"] by (simp add: nat_digits.simps [of n] nat_digits.simps [of "n div 10"])
  next
    case False
    then have "length (nat_digits (n div 10)) > 1"
      by (simp add: nat_digits.simps [of "n div 10"])
    with 1 n show ?thesis by (simp add: nat_digits.simps [of n])
  qed
qed

lemma takeWhile_digits:
  assumes "ends_value r"
  shows "takeWhile is_digit (nat_digits n @ r) = nat_digits n" "dropWhile is_digit (nat_digits n @ r) = r"
proof -
  have "\<not> is_digit (hd r)" if "r \<noteq> []" using assms that by (auto simp: ends_value_def is_digit_def)
  then have "takeWhile is_digit r = []" "dropWhile is_digit r = r" by (cases r; simp)+
  moreover have "\<forall>c \<in> set (nat_digits n). is_digit c" using nat_digits_digits [of n] by (simp add: list_all_iff)
  ultimately show "takeWhile is_digit (nat_digits n @ r) = nat_digits n" "dropWhile is_digit (nat_digits n @ r) = r"
    by (simp_all add: takeWhile_append2 dropWhile_append2)
qed

lemma itoa_dashes:
  "takeWhile (\<lambda>c. c = CHR ''-'') (itoa i @ r) = (if i < 0 then ''-'' else [])"
  "dropWhile (\<lambda>c. c = CHR ''-'') (itoa i @ r) = nat_digits (nat (if i < 0 then - i else i)) @ r"
proof -
  have "takeWhile (\<lambda>c. c = CHR ''-'') (nat_digits n @ r) = [] \<and> dropWhile (\<lambda>c. c = CHR ''-'') (nat_digits n @ r) = nat_digits n @ r" for n
    using dash_notin_nat_digits [of n] by (cases "nat_digits n") auto
  then show "takeWhile (\<lambda>c. c = CHR ''-'') (itoa i @ r) = (if i < 0 then ''-'' else [])"
    "dropWhile (\<lambda>c. c = CHR ''-'') (itoa i @ r) = nat_digits (nat (if i < 0 then - i else i)) @ r"
    by (simp_all add: itoa_def)
qed

lemma json_number_itoa:
  assumes "ends_value r"
  shows "json_number (itoa i @ r) = Some (JInt i, r)"
proof -
  let ?n = "nat (if i < 0 then - i else i)"
  have lead: "(length (nat_digits ?n) > 1 \<and> hd (nat_digits ?n) = CHR ''0'') = False" using nat_digits_leading by blast
  have none: "(case r of [] \<Rightarrow> None | c # r \<Rightarrow> if c = CHR ''.'' then Some (takeWhile is_digit r) else None) = None"
    "(case r of [] \<Rightarrow> None | c # r \<Rightarrow> if c = CHR ''e'' \<or> c = CHR ''E'' then Some r else None) = None"
    using assms by (cases r; auto simp: ends_value_def)+
  show ?thesis
    by (simp only: json_number_def itoa_dashes takeWhile_digits [OF assms] Let_def none option.case) (simp add: lead [simplified])
qed

section \<open>Values\<close>

lemma itoa_Cons: "\<exists>c cs. itoa i = c # cs \<and> (is_digit c \<or> c = CHR ''-'')"
  using nat_digits_Cons [of "nat i"] by (auto simp: itoa_def)

lemma json_print_Cons:
  assumes "whole j"
  shows "\<exists>c cs. json_print j = c # cs \<and> c \<notin> set [CHR 0x09, CHR 0x0A, CHR 0x0D, CHR 0x20, CHR '']'', CHR ''}'']"
proof (cases j)
  case (JInt i)
  then show ?thesis using itoa_Cons [of i] by (auto simp: is_digit_def)
qed (use assms in \<open>auto simp: dquote_def\<close>)

lemma skip_ws_print: "whole j \<Longrightarrow> skip_ws (json_print j @ r) = json_print j @ r"
  using json_print_Cons [of j] by auto

lemma skip_ws_quote: "skip_ws (dquote # r) = dquote # r"
  by (simp add: dquote_def)

lemma json_value_itoa:
  assumes "ends_value r" and "n > 0"
  shows "json_value n (itoa i @ r) = Some (JInt i, r)"
proof -
  obtain c cs where c: "itoa i = c # cs" "is_digit c \<or> c = CHR ''-''" using itoa_Cons [of i] by blast
  from c(2) have d: "c \<notin> set [CHR 0x09, CHR 0x0A, CHR 0x0D, CHR 0x20]" "c \<noteq> CHR ''{''" "c \<noteq> CHR ''[''" "c \<noteq> dquote"
    "c \<noteq> CHR ''t''" "c \<noteq> CHR ''f''" "c \<noteq> CHR ''n''"
    by (auto simp: is_digit_def dquote_def)
  have "json_value n (itoa i @ r) = json_number (itoa i @ r)"
    using assms(2) d unfolding c by (cases n) simp_all
  then show ?thesis by (simp add: json_number_itoa [OF assms(1)])
qed

lemma dquote_chars: "dquote \<noteq> CHR ''{''" "dquote \<noteq> CHR ''[''" "dquote \<noteq> CHR 0x09" "dquote \<noteq> CHR 0x0A"
  "dquote \<noteq> CHR 0x0D" "dquote \<noteq> CHR 0x20"
  by (simp_all add: dquote_def)

lemma json_value_string:
  "n > 0 \<Longrightarrow> json_value n (dquote # json_text s @ dquote # r) = Some (JStr s, r)"
  by (cases n) (simp_all add: json_chars_text dquote_chars skip_ws_quote del: json_chars.simps)

lemma json_items_Cons: "vs \<noteq> [] \<Longrightarrow> \<forall>v \<in> set vs. whole v
    \<Longrightarrow> \<exists>c cs. json_items vs = c # cs \<and> c \<notin> set [CHR 0x09, CHR 0x0A, CHR 0x0D, CHR 0x20, CHR '']'', CHR ''}'']"
  using json_print_Cons by (cases vs) fastforce+

lemma json_members_read:
  assumes "length (json_text k) + length (json_print v) < n" and "\<And>r m. ends_value r \<Longrightarrow> length (json_print v) < m \<Longrightarrow> json_value m (json_print v @ r) = Some (v, r)"
    and "ends_value (e # u)"
  shows "json_members (Suc n) (dquote # json_text k @ dquote # CHR '':'' # json_print v @ e # u)
    = (if e = CHR ''}'' then Some ([(k, v)], u)
       else if e = CHR '','' then map_option (\<lambda>(kvs, w). ((k, v) # kvs, w)) (json_members n u) else None)"
proof -
  have value_read: "json_value n (json_print v @ e # u) = Some (v, e # u)" using assms by simp
  have chars: "json_chars (length (dquote # json_text k @ dquote # CHR '':'' # json_print v @ e # u))
      (json_text k @ dquote # CHR '':'' # json_print v @ e # u) = Some (k, CHR '':'' # json_print v @ e # u)"
    by (rule json_chars_text) simp
  have "skip_ws (e # u) = e # u" using assms(3) by (auto simp: ends_value_def)
  moreover have "skip_ws (CHR '':'' # w) = CHR '':'' # w" for w by simp
  ultimately show ?thesis
    by (simp only: json_members.simps skip_ws_quote chars value_read list.case option.case prod.case simp_thms if_True if_False)
qed

lemma json_read:
  "whole j \<Longrightarrow> ends_value r \<Longrightarrow> length (json_print j) < n \<Longrightarrow> json_value n (json_print j @ r) = Some (j, r)"
  "\<forall>v \<in> set vs. whole v \<Longrightarrow> vs \<noteq> [] \<Longrightarrow> length (json_items vs) < n \<Longrightarrow> json_elems n (json_items vs @ r) = Some (vs, r)"
  "\<forall>kv \<in> set kvs. whole (snd kv) \<Longrightarrow> kvs \<noteq> [] \<Longrightarrow> length (json_fields kvs) < n
    \<Longrightarrow> json_members n (json_fields kvs @ r) = Some (kvs, r)"
proof (induction j and vs and kvs arbitrary: r n and r n and r n rule: json_print_json_items_json_fields.induct)
  case 1
  then show ?case by (cases n) (auto simp: dquote_def)
next
  case (2 b)
  then show ?case by (cases n) (auto simp: dquote_def)
next
  case (3 i)
  then show ?case by (simp add: json_value_itoa)
next
  case (5 s)
  then show ?case by (simp add: json_value_string)
next
  case (6 vs)
  show ?case
  proof (cases vs)
    case Nil
    with 6 show ?thesis by (cases n) (auto simp: dquote_def)
  next
    case (Cons v ws)
    obtain c cs where c: "json_items vs = c # cs" "c \<notin> set [CHR 0x09, CHR 0x0A, CHR 0x0D, CHR 0x20, CHR '']'', CHR ''}'']"
      using json_items_Cons [of vs] 6 Cons by auto
    have p: "json_print (JArr vs) = CHR ''['' # json_items vs" using Cons by simp
    obtain m where m: "n = Suc m" using 6(4) by (cases n) auto
    have "json_elems m (json_items vs @ r) = Some (vs, r)"
      using 6 Cons m unfolding p by (intro 6(1)) auto
    with c m show ?thesis unfolding p by (simp add: dquote_def)
  qed
next
  case (7 kvs)
  show ?case
  proof (cases kvs)
    case Nil
    with 7 show ?thesis by (cases n) (auto simp: dquote_def)
  next
    case (Cons kv ws)
    obtain cs where c: "json_fields kvs = dquote # cs" using Cons by (cases kv) simp
    have p: "json_print (JObj kvs) = CHR ''{'' # json_fields kvs" using Cons by simp
    obtain m where m: "n = Suc m" using 7(4) by (cases n) auto
    have "json_members m (json_fields kvs @ r) = Some (kvs, r)"
      using 7 Cons m unfolding p by (intro 7(1)) auto
    with c m show ?thesis unfolding p by (simp add: dquote_def)
  qed
next
  case (9 v vs)
  obtain m where m: "n = Suc m" using 9 by (cases n) auto
  show ?case
  proof (cases vs)
    case Nil
    then have "json_value m (json_print v @ CHR '']'' # r) = Some (v, CHR '']'' # r)" using 9 m by simp
    with Nil m show ?thesis by simp
  next
    case (Cons w ws)
    have "json_value m (json_print v @ CHR '','' # json_items vs @ r) = Some (v, CHR '','' # json_items vs @ r)"
      using 9(1,3,5) m Cons by (intro 9(1)) auto
    moreover have "json_elems m (json_items vs @ r) = Some (vs, r)" using 9(2) 9(3,5) m Cons by simp
    ultimately show ?thesis using Cons m by simp
  qed
next
  case (11 k v kvs)
  obtain m where m: "n = Suc m" using 11 by (cases n) auto
  have v: "\<And>r m. ends_value r \<Longrightarrow> length (json_print v) < m \<Longrightarrow> json_value m (json_print v @ r) = Some (v, r)"
    using 11 by simp
  have len: "length (json_text k) + length (json_print v) < m" using 11(5) m by simp
  show ?case
  proof (cases kvs)
    case Nil
    with json_members_read [OF len v, of "CHR ''}''" r] m show ?thesis by simp
  next
    case (Cons kw kws)
    have "json_members m (json_fields kvs @ r) = Some (kvs, r)" using 11(2) 11(3,5) m Cons by simp
    with json_members_read [OF len v, of "CHR '',''" "json_fields kvs @ r"] Cons m show ?thesis by simp
  qed
qed simp_all

theorem json_round_trip: "whole j \<Longrightarrow> json_parse (json_print j) = Some j"
  using json_read(1) [of j "[]" "Suc (length (json_print j))"] by (simp add: json_parse_def)

end
