(* ===== verification/ProxyConfig.thy ===== *)
theory ProxyConfig
  imports ApiTypes Json "HOL-Library.Multiset"
begin

text \<open>
  The device proxy configuration, the document through which the account controller
  (\<open>reconDevProxyConfig\<close> of \<open>controllers/common/account/account_controller.go\<close>) tells the
  device controller (\<open>updateServices\<close> of \<open>controllers/common/device_controller.go\<close>) which
  port of the proxy serves which port of which device.  Reading it, allocating ports, generating
  it, and looking ports up.  Go's \<open>sort.Slice\<close> leaves the order of equal elements open, so the
  sorting of services is a parameter, of which \<open>sorts_services\<close> states the documented behaviour;
  the random numbers are a parameter too.
\<close>

section \<open>Reading the document\<close>

record config_service =
  cs_Id :: string
  cs_Name :: string
  cs_ServicePort :: int
  cs_ProxyPort :: int

definition int32_ok :: "int \<Rightarrow> bool" where
  "int32_ok i \<longleftrightarrow> - (2 ^ 31) \<le> i \<and> i < 2 ^ 31"

text \<open>A member decoded into an \<open>int32\<close> field, with the error flag of \<open>dec_string\<close>.\<close>

fun dec_int32 :: "string \<Rightarrow> (string \<times> json) list \<Rightarrow> int \<Rightarrow> int \<times> bool" where
  "dec_int32 name [] acc = (acc, False)"
| "dec_int32 name ((k, v) # kvs) acc =
     (if lower k = lower name then (case v of
          JInt i \<Rightarrow> if int32_ok i then dec_int32 name kvs i else (fst (dec_int32 name kvs acc), True)
        | JNull \<Rightarrow> dec_int32 name kvs acc
        | _ \<Rightarrow> (fst (dec_int32 name kvs acc), True))
      else dec_int32 name kvs acc)"

definition dec_service :: "json \<Rightarrow> config_service \<times> bool" where
  "dec_service j = (case j of
     JObj kvs \<Rightarrow>
       (let i = dec_string ''id'' kvs ''''; n = dec_string ''name'' kvs '''';
            s = dec_int32 ''servicePort'' kvs 0; p = dec_int32 ''proxyPort'' kvs 0
        in (\<lparr>cs_Id = fst i, cs_Name = fst n, cs_ServicePort = fst s, cs_ProxyPort = fst p\<rparr>,
            snd i \<or> snd n \<or> snd s \<or> snd p))
   | JNull \<Rightarrow> (\<lparr>cs_Id = '''', cs_Name = '''', cs_ServicePort = 0, cs_ProxyPort = 0\<rparr>, False)
   | _ \<Rightarrow> (\<lparr>cs_Id = '''', cs_Name = '''', cs_ServicePort = 0, cs_ProxyPort = 0\<rparr>, True))"

definition dec_services :: "json \<Rightarrow> config_service list \<times> bool" where
  "dec_services j = (case j of
     JArr vs \<Rightarrow> (map (\<lambda>v. fst (dec_service v)) vs, list_ex (\<lambda>v. snd (dec_service v)) vs)
   | JNull \<Rightarrow> ([], False)
   | _ \<Rightarrow> ([], True))"

text \<open>\<open>json.Unmarshal\<close> into a \<open>map[string][]configService\<close>, and its entry \<open>services\<close>.\<close>

definition dec_proxy_config :: "string \<Rightarrow> error + config_service list" where
  "dec_proxy_config text = (case json_parse text of
     Some (JObj kvs) \<Rightarrow> if list_ex (\<lambda>(k, v). snd (dec_services v)) kvs then Inl json_error
       else Inr (case map_of (rev kvs) ''services'' of Some v \<Rightarrow> fst (dec_services v) | None \<Rightarrow> [])
   | Some JNull \<Rightarrow> Inr []
   | _ \<Rightarrow> Inl json_error)"

section \<open>Writing the document\<close>

definition service_json :: "config_service \<Rightarrow> json" where
  "service_json c = JObj [(''id'', JStr (cs_Id c)), (''name'', JStr (cs_Name c)),
     (''servicePort'', JInt (cs_ServicePort c)), (''proxyPort'', JInt (cs_ProxyPort c))]"

definition config_json :: "config_service list \<Rightarrow> json" where
  "config_json cs = JObj [(''services'', JArr (map service_json cs))]"

definition config_text :: "config_service list \<Rightarrow> string" where
  "config_text cs = json_print (config_json cs)"

text \<open>
  \<open>reflect.DeepEqual\<close> of two decoded documents: objects are compared as maps, of which the last
  member of a name counts.
\<close>

primrec json_norm :: "json \<Rightarrow> json" where
  "json_norm JNull = JNull"
| "json_norm (JBool b) = JBool b"
| "json_norm (JInt i) = JInt i"
| "json_norm (JNum s) = JNum s"
| "json_norm (JStr s) = JStr s"
| "json_norm (JArr vs) = JArr (map json_norm vs)"
| "json_norm (JObj kvs) = JObj (sort_key fst (obj_map (map (map_prod id json_norm) kvs)))"

definition JSONEqual :: "string \<Rightarrow> string \<Rightarrow> error + bool" where
  "JSONEqual a b = (case json_parse a of
     None \<Rightarrow> Inl json_error
   | Some j \<Rightarrow> (case json_parse b of
       None \<Rightarrow> Inl json_error
     | Some j2 \<Rightarrow> Inr (json_norm j2 = json_norm j)))"

section \<open>Allocating proxy ports\<close>

definition proxy_map :: "config_service list \<Rightarrow> (string \<times> config_service) list" where
  "proxy_map cs = fold (\<lambda>c. AList.update (cs_Id c) c) cs []"

definition isContains :: "(string \<times> config_service) list \<Rightarrow> int \<Rightarrow> bool" where
  "isContains svcs p = list_ex (\<lambda>(_, c). cs_ServicePort c = p) svcs"

text \<open>
  The search for a free port: at most 3002 draws, \<open>draw k\<close> being the \<open>k\<close>-th value of
  \<open>rand.Intn(3000)\<close> in the pass.  The result comes with the number of draws made so far.
\<close>

function pick_port :: "(int \<Rightarrow> bool) \<Rightarrow> (nat \<Rightarrow> int) \<Rightarrow> nat \<Rightarrow> nat \<Rightarrow> int \<times> nat" where
  "pick_port taken draw k cnt = (let r = draw k + 3000 in
     if \<not> taken r \<or> cnt > 3000 then (r, Suc k) else pick_port taken draw (Suc k) (Suc cnt))"
  by auto
termination by (relation "measure (\<lambda>(taken, draw, k, cnt). 3002 - cnt)") auto

declare pick_port.simps [simp del]

definition getTempPort :: "(string \<times> config_service) list \<Rightarrow> (nat \<Rightarrow> int) \<Rightarrow> string \<Rightarrow> nat \<Rightarrow> int \<times> nat" where
  "getTempPort svcs draw sid k = (case map_of svcs sid of
     Some c \<Rightarrow> (cs_ProxyPort c, k)
   | None \<Rightarrow> pick_port (isContains svcs) draw k 0)"

section \<open>Generating the services\<close>

definition service_id :: "string \<Rightarrow> int \<Rightarrow> string" where
  "service_id name p = name @ ''-'' @ itoa p"

type_synonym device = "device_spec resource"

fun port_services :: "(int \<Rightarrow> error + string) \<Rightarrow> (string \<times> config_service) list \<Rightarrow> (nat \<Rightarrow> int) \<Rightarrow> device
    \<Rightarrow> port list \<Rightarrow> nat \<Rightarrow> config_service list \<times> nat" where
  "port_services ip svcs draw d [] k = ([], k)"
| "port_services ip svcs draw d (p # ps) k =
     (let sid = service_id (om_Name (r_meta d)) (pt_Port p); t = getTempPort svcs draw sid k;
          rest = port_services ip svcs draw d ps (snd t)
      in case getRemoteDeviceIp ip (dv_Offset (r_spec d)) of
           Inl e \<Rightarrow> rest
         | Inr a \<Rightarrow> (\<lparr>cs_Id = sid, cs_Name = a,
               cs_ServicePort = (if pt_TargetPort p \<noteq> 0 then pt_TargetPort p else pt_Port p),
               cs_ProxyPort = fst t\<rparr> # fst rest, snd rest))"

fun device_services :: "(int \<Rightarrow> error + string) \<Rightarrow> (string \<times> config_service) list \<Rightarrow> (nat \<Rightarrow> int) \<Rightarrow> device list
    \<Rightarrow> nat \<Rightarrow> config_service list" where
  "device_services ip svcs draw [] k = []"
| "device_services ip svcs draw (d # ds) k =
     (let r = port_services ip svcs draw d (dv_Ports (r_spec d)) k
      in fst r @ device_services ip svcs draw ds (snd r))"

text \<open>The devices are sorted by their names, which are unique.\<close>

definition proxy_services :: "(int \<Rightarrow> error + string) \<Rightarrow> (config_service list \<Rightarrow> config_service list) \<Rightarrow> config_service list
    \<Rightarrow> (nat \<Rightarrow> int) \<Rightarrow> device list \<Rightarrow> config_service list" where
  "proxy_services ip sortf old draw devs =
     sortf (device_services ip (proxy_map old) draw (sort_key (\<lambda>d. om_Name (r_meta d)) devs) 0)"

definition sorts_services :: "(config_service list \<Rightarrow> config_service list) \<Rightarrow> bool" where
  "sorts_services sortf \<longleftrightarrow> (\<forall>cs. mset (sortf cs) = mset cs \<and> sorted (map cs_Name (sortf cs)))"

section \<open>Looking a port up\<close>

text \<open>\<open>getPort\<close> of the device controller.\<close>

fun getPort :: "config_service list \<Rightarrow> string \<Rightarrow> error + int" where
  "getPort [] sid = Inl (Failure ''proxy port not found in proxy config'')"
| "getPort (c # cs) sid = (if cs_Id c = sid then Inr (cs_ProxyPort c) else getPort cs sid)"

section \<open>Reading what was written\<close>

definition service_ok :: "config_service \<Rightarrow> bool" where
  "service_ok c \<longleftrightarrow> int32_ok (cs_ServicePort c) \<and> int32_ok (cs_ProxyPort c)"

lemma lower_field_names [simp]:
  "lower ''id'' = ''id''" "lower ''name'' = ''name''" "lower ''servicePort'' = ''serviceport''"
  "lower ''proxyPort'' = ''proxyport''"
  by (simp_all add: lower_def) code_simp+

lemma dec_service_json: "service_ok c \<Longrightarrow> dec_service (service_json c) = (c, False)"
  by (simp add: dec_service_def service_json_def service_ok_def)

lemma dec_services_json:
  assumes "\<forall>c \<in> set cs. service_ok c"
  shows "dec_services (JArr (map service_json cs)) = (cs, False)"
  using assms by (induction cs) (auto simp: dec_services_def dec_service_json list_ex_iff)

lemma config_text_read: "json_parse (config_text cs) = Some (config_json cs)"
  unfolding config_text_def by (rule json_round_trip) (auto simp: config_json_def service_json_def)

lemma dec_config_text: "\<forall>c \<in> set cs. service_ok c \<Longrightarrow> dec_proxy_config (config_text cs) = Inr cs"
  unfolding dec_proxy_config_def config_text_read by (simp add: config_json_def dec_services_json)

lemma JSONEqual_same: "JSONEqual (config_text cs) (config_text cs) = Inr True"
  by (simp add: JSONEqual_def config_text_read)

lemma JSONEqual_length: "JSONEqual (config_text cs) (config_text ds) = Inr True \<Longrightarrow> length cs = length ds"
  by (auto simp: JSONEqual_def config_text_read config_json_def obj_map_def dest!: arg_cong [where f = length])

section \<open>The map of the old services\<close>

lemma proxy_map_fold_absent:
  "sid \<notin> cs_Id ` set cs \<Longrightarrow> map_of (fold (\<lambda>c. AList.update (cs_Id c) c) cs m) sid = map_of m sid"
  by (induction cs arbitrary: m) (auto simp: update_conv')

lemma proxy_map_fold:
  "distinct (map cs_Id cs) \<Longrightarrow> c \<in> set cs \<Longrightarrow> map_of (fold (\<lambda>c. AList.update (cs_Id c) c) cs m) (cs_Id c) = Some c"
proof (induction cs arbitrary: m)
  case (Cons d cs)
  then show ?case
    by (cases "c = d") (auto simp: proxy_map_fold_absent update_conv')
qed simp

lemma proxy_map_get: "distinct (map cs_Id cs) \<Longrightarrow> c \<in> set cs \<Longrightarrow> map_of (proxy_map cs) (cs_Id c) = Some c"
  by (simp add: proxy_map_def proxy_map_fold)

lemma getPort_get: "distinct (map cs_Id cs) \<Longrightarrow> c \<in> set cs \<Longrightarrow> getPort cs (cs_Id c) = Inr (cs_ProxyPort c)"
  by (induction cs) (auto simp: image_iff)

section \<open>The services generated\<close>

lemma sorts_set: "sorts_services sortf \<Longrightarrow> set (sortf cs) = set cs"
  by (metis mset_eq_setD sorts_services_def)

lemma sorts_distinct: "sorts_services sortf \<Longrightarrow> distinct (map cs_Id (sortf cs)) = distinct (map cs_Id cs)"
  by (metis mset_eq_imp_distinct_iff mset_map sorts_services_def)

text \<open>Every service generated is one of a port of a device, keeps its old port if it has one, and
  the services of a map that agrees with them are generated again, whatever is drawn.\<close>

lemma port_services_fixed:
  assumes "\<forall>c \<in> set (fst (port_services ip svcs draw d ps k)). map_of svcs' (cs_Id c) = Some c"
  shows "fst (port_services ip svcs' draw' d ps k') = fst (port_services ip svcs draw d ps k)"
  using assms
proof (induction ps arbitrary: k k')
  case (Cons p ps)
  then show ?case
    by (auto simp: Let_def getTempPort_def split: sum.splits)
qed simp

lemma device_services_fixed:
  assumes "\<forall>c \<in> set (device_services ip svcs draw ds k). map_of svcs' (cs_Id c) = Some c"
  shows "device_services ip svcs' draw' ds k' = device_services ip svcs draw ds k"
  using assms
proof (induction ds arbitrary: k k')
  case (Cons d ds)
  have "fst (port_services ip svcs' draw' d (dv_Ports (r_spec d)) k') = fst (port_services ip svcs draw d (dv_Ports (r_spec d)) k)"
    using Cons.prems by (intro port_services_fixed) (simp add: Let_def)
  moreover have "device_services ip svcs' draw' ds j = device_services ip svcs draw ds (snd (port_services ip svcs draw d (dv_Ports (r_spec d)) k))" for j
    using Cons.prems by (intro Cons.IH) (simp add: Let_def)
  ultimately show ?case by (simp add: Let_def)
qed simp

text \<open>The identities of the services, when the addresses of the devices can be computed.\<close>

definition has_ip :: "(int \<Rightarrow> error + string) \<Rightarrow> device \<Rightarrow> bool" where
  "has_ip ip d \<longleftrightarrow> (\<exists>a. getRemoteDeviceIp ip (dv_Offset (r_spec d)) = Inr a)"

definition port_ids :: "device \<Rightarrow> string list" where
  "port_ids d = map (\<lambda>p. service_id (om_Name (r_meta d)) (pt_Port p)) (dv_Ports (r_spec d))"

lemma port_services_ids:
  "has_ip ip d \<Longrightarrow> map cs_Id (fst (port_services ip svcs draw d ps k))
     = map (\<lambda>p. service_id (om_Name (r_meta d)) (pt_Port p)) ps"
  by (induction ps arbitrary: k) (auto simp: has_ip_def Let_def)

lemma device_services_ids:
  "\<forall>d \<in> set ds. has_ip ip d \<Longrightarrow> map cs_Id (device_services ip svcs draw ds k) = concat (map port_ids ds)"
  by (induction ds arbitrary: k) (auto simp: Let_def port_services_ids port_ids_def)

text \<open>Devices as the cluster has them: unique names, no port twice, no negative port.\<close>

definition devices_ok :: "device list \<Rightarrow> bool" where
  "devices_ok ds \<longleftrightarrow> distinct (map (\<lambda>d. om_Name (r_meta d)) ds)
     \<and> (\<forall>d \<in> set ds. distinct (map pt_Port (dv_Ports (r_spec d))) \<and> (\<forall>p \<in> set (dv_Ports (r_spec d)). 0 \<le> pt_Port p))"

lemma port_ids_inj:
  assumes "0 \<le> i" "0 \<le> j" "service_id n i = service_id m j"
  shows "n = m \<and> i = j"
  using dashed_inject [OF assms(3) [unfolded service_id_def] assms(1,2)] .

lemma port_ids_distinct: "devices_ok ds \<Longrightarrow> distinct (concat (map port_ids ds))"
proof (induction ds)
  case (Cons d ds)
  have "distinct (port_ids d)"
    using Cons.prems unfolding devices_ok_def port_ids_def
    by (auto simp: distinct_map inj_on_def dest!: port_ids_inj [rotated 2])
  moreover have "devices_ok ds" using Cons.prems by (simp add: devices_ok_def)
  moreover have "set (port_ids d) \<inter> set (port_ids e) = {}" if "e \<in> set ds" for e
    using Cons.prems that unfolding devices_ok_def port_ids_def
    by (fastforce dest: port_ids_inj [rotated 2])
  ultimately show ?case using Cons.IH by auto
qed (simp add: devices_ok_def)

lemma devices_ok_sort: "devices_ok (sort_key f ds) = devices_ok ds"
proof -
  have "distinct (map (\<lambda>d. om_Name (r_meta d)) (sort_key f ds)) = distinct (map (\<lambda>d. om_Name (r_meta d)) ds)"
    by (rule mset_eq_imp_distinct_iff) simp
  then show ?thesis by (simp add: devices_ok_def)
qed

lemma proxy_services_ids_distinct:
  assumes "sorts_services sortf" and "devices_ok devs" and "\<forall>d \<in> set devs. has_ip ip d"
  shows "distinct (map cs_Id (proxy_services ip sortf old draw devs))"
  using assms unfolding proxy_services_def sorts_distinct [OF assms(1)]
  by (subst device_services_ids) (simp_all add: port_ids_distinct devices_ok_sort)

lemma proxy_services_set:
  assumes "sorts_services sortf" and "\<forall>d \<in> set devs. has_ip ip d"
  shows "cs_Id ` set (proxy_services ip sortf old draw devs) = (\<Union>d \<in> set devs. set (port_ids d))"
proof -
  have "cs_Id ` set (proxy_services ip sortf old draw devs)
      = set (map cs_Id (device_services ip (proxy_map old) draw (sort_key (\<lambda>d. om_Name (r_meta d)) devs) 0))"
    by (simp add: proxy_services_def sorts_set [OF assms(1)])
  then show ?thesis using assms(2) by (simp add: device_services_ids)
qed

lemma proxy_services_fixed:
  assumes "sorts_services sortf" and "devices_ok devs" and "\<forall>d \<in> set devs. has_ip ip d"
    and "set new = set (proxy_services ip sortf old draw devs)" and "distinct (map cs_Id new)"
  shows "proxy_services ip sortf new draw' devs = proxy_services ip sortf old draw devs"
proof -
  let ?ds = "sort_key (\<lambda>d. om_Name (r_meta d)) devs"
  have "set new = set (device_services ip (proxy_map old) draw ?ds 0)"
    using assms(4) by (simp add: proxy_services_def sorts_set [OF assms(1)])
  then have "device_services ip (proxy_map new) draw' ?ds 0 = device_services ip (proxy_map old) draw ?ds 0"
    using assms(5) by (intro device_services_fixed) (auto intro: proxy_map_get)
  then show ?thesis by (simp add: proxy_services_def)
qed

section \<open>Ports kept and ports drawn\<close>

lemma pick_port_range:
  "(\<And>i. 0 \<le> draw i \<and> draw i < 3000) \<Longrightarrow> 3000 \<le> fst (pick_port taken draw k n) \<and> fst (pick_port taken draw k n) < 6000"
proof (induction taken draw k n rule: pick_port.induct)
  case (1 taken draw k n)
  have "0 \<le> draw k \<and> draw k < 3000" by (rule 1(2))
  then show ?case
    using 1 by (subst pick_port.simps; subst (2) pick_port.simps) (auto simp: Let_def)
qed

lemma port_services_ports:
  assumes "c \<in> set (fst (port_services ip svcs draw d ps k))"
  shows "(\<exists>old. map_of svcs (cs_Id c) = Some old \<and> cs_ProxyPort c = cs_ProxyPort old)
    \<or> (map_of svcs (cs_Id c) = None \<and> (\<exists>j. cs_ProxyPort c = fst (pick_port (isContains svcs) draw j 0)))"
  using assms
proof (induction ps arbitrary: k)
  case (Cons p ps)
  then show ?case by (auto simp: Let_def getTempPort_def split: sum.splits option.splits)
qed simp

lemma device_services_ports:
  assumes "c \<in> set (device_services ip svcs draw ds k)"
  shows "(\<exists>old. map_of svcs (cs_Id c) = Some old \<and> cs_ProxyPort c = cs_ProxyPort old)
    \<or> (map_of svcs (cs_Id c) = None \<and> (\<exists>j. cs_ProxyPort c = fst (pick_port (isContains svcs) draw j 0)))"
  using assms by (induction ds arbitrary: k) (auto simp: Let_def dest: port_services_ports)

end
