(* ===== verification/Device.thy ===== *)
theory Device
  imports ProxyConfig Nameserver
begin

text \<open>
  The device controller, \<open>controllers/common/device_controller.go\<close>: wireguard keys of a device, a
  service that sends its ports to the account's proxy, the rewrite rules of the account's DNS and
  one client configuration per region.  Templates are represented by the values they are rendered
  with; key generation and rendering are the environment's.  \<open>KubectlApply\<close> of
  \<open>lib/functions/kubectl.go\<close> is modelled for the secrets it is used on.
\<close>

section \<open>Calls and environment\<close>

type_synonym region = "region_spec resource"
type_synonym account = "account_spec resource"

text \<open>A Kubernetes service and a secret, as far as they are read or written.\<close>

record service_port =
  sp_Name :: string
  sp_Port :: int
  sp_TargetPort :: int

record kservice =
  ks_ClusterIP :: string
  ks_Selector :: "string gomap"
  ks_Ports :: "service_port list"

record service_doc =
  sd_Name :: string
  sd_Namespace :: string
  sd_Labels :: "(string \<times> string) list"
  sd_Owners :: "ownerref list"
  sd_Ports :: "service_port list"
  sd_Selector :: "(string \<times> string) list"

record secret_doc =
  sc_Namespace :: string
  sc_Name :: string
  sc_Labels :: "(string \<times> string) list"
  sc_Owners :: "ownerref list"
  sc_Data :: "string gomap"

text \<open>The values of a client configuration and of the DNS configuration.\<close>

record device_conf =
  dc_DeviceIp :: string
  dc_DevicePvtKey :: string
  dc_ServerPublicKey :: string
  dc_ServerEndpoint :: string
  dc_RewriteRules :: string
  dc_PodCidr :: string
  dc_SvcCidr :: string

record dns_doc =
  nd_account :: account
  nd_devices :: "string list"
  nd_rules :: string
  nd_dnsIp :: string

datatype dv_call =
    DVListRegions
  | DVListDevices "(string \<times> string) list"
  | DVGetConfigMap string string
  | DVGetService string string
  | DVGetSecret string string
  | DVGetAccount string
  | DVGenerateKeys
  | DVCreateSecret secret_doc
  | DVUpdateSecret string string "string gomap option"
  | DVApplyService service_doc
  | DVApplyDns dns_doc

datatype dv_local = LString string | LRegions "region list" | LDevices "device list" | LSecretData "string gomap"

type_synonym dv_hist = "(device_spec, dv_call) hist"

record dv_env = "(device_spec, dv_call) kenv" +
  dv_PodCidr :: string
  dv_SvcCidr :: string
  dv_ip :: "int \<Rightarrow> error + string"
  dv_regions :: "dv_hist \<Rightarrow> error + region list"
  dv_devices :: "dv_hist \<Rightarrow> error + device list"
  dv_configmap :: "dv_hist \<Rightarrow> error + string gomap"
  dv_service :: "dv_hist \<Rightarrow> error + kservice"
  dv_secret :: "dv_hist \<Rightarrow> error + string gomap"
  dv_account :: "dv_hist \<Rightarrow> error + account"
  dv_keys :: "dv_hist \<Rightarrow> error + string \<times> string"
  dv_write :: "dv_hist \<Rightarrow> error option"
  dv_render_service :: "service_doc \<Rightarrow> error option"
  dv_render_conf :: "device_conf \<Rightarrow> error + string"
  dv_render_dns :: "dns_doc \<Rightarrow> error option"

type_synonym 'a dv_act = "((device_spec, dv_call, dv_local) rstate, 'a) act"

definition WgKeysReady :: string where "WgKeysReady = ''wireguard-keys-ready''"
definition ServicesSynced :: string where "ServicesSynced = ''services-syncd''"
definition DnsRewriteRulesSynced :: string where "DnsRewriteRulesSynced = ''dns-rewrite-rules-syncd''"
definition deviceConfigSynced :: string where "deviceConfigSynced = ''device-config-syncd''"

definition wg_ns :: "string \<Rightarrow> string" where
  "wg_ns account = ''wg-'' @ account"

section \<open>Applying a secret\<close>

text \<open>
  \<open>KubectlApply\<close>: an existing object keeps what it has, but for its data when the new object
  has any: an empty map is left out of the JSON text.
\<close>

definition KubectlApply :: "dv_env \<Rightarrow> secret_doc \<Rightarrow> error option dv_act" where
  "KubectlApply E doc = andThen (ask (ECall (DVGetSecret (sc_Namespace doc) (sc_Name doc))) (dv_secret E)) (\<lambda>r. case r of
     Inl e \<Rightarrow> if \<not> IsNotFound e then ret (Some (Failure (''could not get k8s resource as '' @ errmsg e)))
              else ask (ECall (DVCreateSecret doc)) (dv_write E)
   | Inr _ \<Rightarrow> ask (ECall (DVUpdateSecret (sc_Namespace doc) (sc_Name doc)
       (if gm_entries (sc_Data doc) = [] then None else Some (sc_Data doc)))) (dv_write E))"

section \<open>What the steps need\<close>

definition Device_fetchRequired :: "dv_env \<Rightarrow> step_result dv_act" where
  "Device_fetchRequired E = andThen (gets rs_obj) (\<lambda>obj.
     let namespace = wg_ns (dv_AccountName (r_spec obj)) in
     andThen (ask (ECall DVListRegions) (dv_regions E)) (\<lambda>r.
     andThen (case r of Inr (g # gs) \<Rightarrow> SetLocal ''regions'' (LRegions (g # gs)) | _ \<Rightarrow> ret ()) (\<lambda>_.
     andThen (ask (ECall (DVGetConfigMap namespace ''coredns'')) (dv_configmap E)) (\<lambda>r.
     andThen (case r of Inr d \<Rightarrow> SetLocal ''dns-devices'' (LString (gm_str d ''devices'')) | Inl _ \<Rightarrow> ret ()) (\<lambda>_.
     andThen (ask (ECall (DVGetService namespace ''coredns'')) (dv_service E)) (\<lambda>r.
     andThen (case r of Inr svc \<Rightarrow> SetLocal ''dns-ip'' (LString (ks_ClusterIP svc)) | Inl _ \<Rightarrow> ret ()) (\<lambda>_.
     Next)))))))"

abbreviation str_local :: "dv_local \<Rightarrow> string option" where
  "str_local l \<equiv> (case l of LString t \<Rightarrow> Some t | _ \<Rightarrow> None)"

section \<open>Keys\<close>

definition keys_doc :: "device_spec resource \<Rightarrow> string \<Rightarrow> string \<Rightarrow> string \<Rightarrow> secret_doc" where
  "keys_doc obj pub pv ip = \<lparr>sc_Namespace = wg_ns (dv_AccountName (r_spec obj)),
     sc_Name = ''wg-device-keys-'' @ om_Name (r_meta obj),
     sc_Labels = [(''kloudlite.io/is-wg-key'', ''true''), (''kloudlite.io/device.name'', om_Name (r_meta obj))],
     sc_Owners = [AsOwner (r_meta obj) [True]],
     sc_Data = Some [(''private-key'', pv), (''public-key'', pub), (''ip'', ip)]\<rparr>"

definition Device_reconWgKeys :: "dv_env \<Rightarrow> step_result dv_act" where
  "Device_reconWgKeys E = andThen (gets rs_obj) (\<lambda>obj.
     let check = CheckGen (om_Generation (r_meta obj));
         failed = (\<lambda>err. CheckFailed E WgKeysReady check (errmsg err));
         name = ''wg-device-keys-'' @ om_Name (r_meta obj) in
     andThen (ask (ECall (DVGetSecret (wg_ns (dv_AccountName (r_spec obj))) name)) (dv_secret E)) (\<lambda>r. case r of
       Inl e \<Rightarrow> if \<not> IsNotFound e then failed e else
         andThen (ask (ECall DVGenerateKeys) (dv_keys E)) (\<lambda>r. case r of
           Inl e \<Rightarrow> FailWithOpError E (Some e) []
         | Inr (pub, pv) \<Rightarrow> (case getRemoteDeviceIp (dv_ip E) (dv_Offset (r_spec obj)) of
             Inl e \<Rightarrow> FailWithOpError E (Some e) []
           | Inr ip \<Rightarrow> andThen (KubectlApply E (keys_doc obj pub pv ip)) (\<lambda>err. case err of
               Some e \<Rightarrow> failed e
             | None \<Rightarrow> failed (Failure ''generating wg keys''))))
     | Inr secret \<Rightarrow>
         andThen (SetLocal ''device-ip'' (LString (gm_str secret ''ip''))) (\<lambda>_.
         andThen (SetLocal ''device-publickey'' (LString (gm_str secret ''public-key''))) (\<lambda>_.
         andThen (SetLocal ''device-privatekey'' (LString (gm_str secret ''private-key''))) (\<lambda>_.
         settleCheck E WgKeysReady check)))))"

section \<open>The service of the device\<close>

fun service_ports :: "config_service list \<Rightarrow> string \<Rightarrow> port list \<Rightarrow> error + service_port list" where
  "service_ports configs name [] = Inr []"
| "service_ports configs name (p # ps) = (case getPort configs (service_id name (pt_Port p)) of
     Inl e \<Rightarrow> Inl e
   | Inr proxyPort \<Rightarrow> (case service_ports configs name ps of
       Inl e \<Rightarrow> Inl e
     | Inr rest \<Rightarrow> Inr (\<lparr>sp_Name = service_id name (pt_Port p), sp_Port = pt_Port p, sp_TargetPort = proxyPort\<rparr> # rest)))"

definition temp_port :: service_port where
  "temp_port = \<lparr>sp_Name = ''temp'', sp_Port = 80, sp_TargetPort = 0\<rparr>"

definition device_service :: "device_spec resource \<Rightarrow> service_port list \<Rightarrow> service_doc" where
  "device_service obj sPorts = \<lparr>sd_Name = om_Name (r_meta obj), sd_Namespace = wg_ns (dv_AccountName (r_spec obj)),
     sd_Labels = [(''proxy-device-service'', ''true''), (''kloudlite.io/device.name'', om_Name (r_meta obj))],
     sd_Owners = [AsOwner (r_meta obj) [True]],
     sd_Ports = (if sPorts = [] then [temp_port] else sPorts),
     sd_Selector = [(''region'', dv_ActiveRegion (r_spec obj))]\<rparr>"

definition updateServices :: "dv_env \<Rightarrow> error option dv_act" where
  "updateServices E = andThen (gets rs_obj) (\<lambda>obj.
     andThen (ask (ECall (DVGetConfigMap (wg_ns (dv_AccountName (r_spec obj))) ''device-proxy-config'')) (dv_configmap E)) (\<lambda>r.
     case r of
       Inl e \<Rightarrow> ret (Some (if \<not> IsNotFound e then e else Failure ''proxy config not generated yet''))
     | Inr config \<Rightarrow> (case dec_proxy_config (gm_str config ''config.json'') of
         Inl e \<Rightarrow> ret (Some e)
       | Inr configData \<Rightarrow> (case service_ports configData (om_Name (r_meta obj)) (dv_Ports (r_spec obj)) of
           Inl e \<Rightarrow> ret (Some e)
         | Inr sPorts \<Rightarrow> (case dv_render_service E (device_service obj sPorts) of
             Some e \<Rightarrow> ret (Some e)
           | None \<Rightarrow> andThen (ask (ECall (DVApplyService (device_service obj sPorts))) (dv_write E)) (\<lambda>err. case err of
               Some e \<Rightarrow> ret (Some e)
             | None \<Rightarrow> ret (Some (Failure ''services being updated''))))))))"

text \<open>The ports are compared in order; the map of target ports built beside it is not used.\<close>

fun ports_differ :: "service_port list \<Rightarrow> port list \<Rightarrow> bool" where
  "ports_differ (t # ts) (p # ps) = (sp_Port t \<noteq> pt_Port p \<or> ports_differ ts ps)"
| "ports_differ ts ps = False"

definition checkPortsDiffer :: "service_port list \<Rightarrow> port list \<Rightarrow> bool" where
  "checkPortsDiffer target source = (length target \<noteq> length source \<or> ports_differ target source)"

definition Device_reconSyncServices :: "dv_env \<Rightarrow> step_result dv_act" where
  "Device_reconSyncServices E = andThen (gets rs_obj) (\<lambda>obj.
     let check = CheckGen (om_Generation (r_meta obj));
         failed = (\<lambda>err. CheckFailed E ServicesSynced check (errmsg err)) in
     andThen (ask (ECall (DVGetService (wg_ns (dv_AccountName (r_spec obj))) (om_Name (r_meta obj)))) (dv_service E)) (\<lambda>r.
     case r of
       Inl e \<Rightarrow> if \<not> IsNotFound e then failed e else
         andThen (updateServices E) (\<lambda>err. case err of
           Some e \<Rightarrow> failed e
         | None \<Rightarrow> crash ''nil pointer dereference'')
     | Inr service \<Rightarrow>
         andThen (if gm_str (ks_Selector service) ''region'' \<noteq> dv_ActiveRegion (r_spec obj)
             \<or> checkPortsDiffer (ks_Ports service) (dv_Ports (r_spec obj))
           then updateServices E else ret None) (\<lambda>err. case err of
           Some e \<Rightarrow> failed e
         | None \<Rightarrow> settleCheck E ServicesSynced check)))"

section \<open>The rewrite rules\<close>

text \<open>\<open>json.Unmarshal\<close> into a list of strings, whose error is dropped.\<close>

definition dec_strings :: "string \<Rightarrow> string list" where
  "dec_strings text = (case json_parse text of
     Some (JArr vs) \<Rightarrow> map (\<lambda>v. case v of JStr t \<Rightarrow> t | _ \<Rightarrow> '''') vs
   | _ \<Rightarrow> [])"

definition rewrite_rule :: "device \<Rightarrow> string" where
  "rewrite_rule d = (if om_Name (r_meta d) = '''' then '''' else
     ''rewrite name '' @ om_Name (r_meta d) @ ''.kl.local '' @ om_Name (r_meta d) @ ''.wg-''
       @ dv_AccountName (r_spec d) @ ''.svc.cluster.local'' @ [CHR 0x0A] @ ''        '')"

definition account_selector :: "device_spec resource \<Rightarrow> (string \<times> string) list" where
  "account_selector obj = [(''kloudlite.io/account.name'', dv_AccountName (r_spec obj))]"

text \<open>A command of \<open>functions.Kubectl\<close>.\<close>

definition run_kubectl :: "dv_env \<Rightarrow> string list \<Rightarrow> error option dv_act" where
  "run_kubectl E args = andThen (ask (EExec (''kubectl'' # args)) (k_exec E)) (\<lambda>r. ret (case r of
     ExecOk _ \<Rightarrow> None
   | ExecExit code stderr \<Rightarrow> Some (Failure (stderr @ '' as exit status '' @ itoa code))
   | ExecFail m \<Rightarrow> Some (Failure ('' as '' @ m))))"

definition updateDns :: "dv_env \<Rightarrow> error option dv_act" where
  "updateDns E = andThen (gets rs_obj) (\<lambda>obj.
     andThen (ask (ECall (DVGetService ''kube-system'' ''kube-dns'')) (dv_service E)) (\<lambda>r. case r of
       Inl e \<Rightarrow> ret (Some e)
     | Inr kubeDns \<Rightarrow> andThen (GetLocal (\<lambda>l. case l of LDevices ds \<Rightarrow> Some ds | _ \<Rightarrow> None) ''devices'') (\<lambda>l. case l of
         None \<Rightarrow> ret (Some (Failure ''devices not found''))
       | Some devices \<Rightarrow> andThen (ask (ECall (DVGetAccount (dv_AccountName (r_spec obj)))) (dv_account E)) (\<lambda>r. case r of
           Inl e \<Rightarrow> ret (Some e)
         | Inr account \<Rightarrow>
             let doc = \<lparr>nd_account = account, nd_devices = map (\<lambda>d. om_Name (r_meta d)) devices,
                        nd_rules = concat (map rewrite_rule devices), nd_dnsIp = ks_ClusterIP kubeDns\<rparr>
             in (case dv_render_dns E doc of
                 Some e \<Rightarrow> ret (Some e)
               | None \<Rightarrow> andThen (ask (ECall (DVApplyDns doc)) (dv_write E)) (\<lambda>err. case err of
                   Some e \<Rightarrow> ret (Some e)
                 | None \<Rightarrow> run_kubectl E [''-n'', wg_ns (dv_AccountName (r_spec obj)), ''rollout'', ''restart'',
                     ''deployment/coredns'']))))))"

text \<open>An empty list of devices without an error is reported through the nil error.\<close>

definition Device_reconDnsRewriteRules :: "dv_env \<Rightarrow> step_result dv_act" where
  "Device_reconDnsRewriteRules E = andThen (gets rs_obj) (\<lambda>obj.
     let check = CheckGen (om_Generation (r_meta obj));
         failed = (\<lambda>err. CheckFailed E DnsRewriteRulesSynced check (errmsg err)) in
     andThen (GetLocal str_local ''dns-devices'') (\<lambda>l.
     let dnsDevices = (case l of Some t \<Rightarrow> t | None \<Rightarrow> ''[]'') in
     andThen (ask (ECall (DVListDevices (account_selector obj))) (dv_devices E)) (\<lambda>r. case r of
       Inl e \<Rightarrow> if \<not> IsNotFound e then failed e else failed (Failure ''device not found'')
     | Inr [] \<Rightarrow> crash ''nil pointer dereference''
     | Inr (d # ds) \<Rightarrow>
         andThen (SetLocal ''devices'' (LDevices (d # ds))) (\<lambda>_.
         andThen (if sort (map (\<lambda>d. om_Name (r_meta d)) (d # ds)) = sort (dec_strings dnsDevices) then ret None
                  else updateDns E) (\<lambda>err. case err of
           Some e \<Rightarrow> failed e
         | None \<Rightarrow> settleCheck E DnsRewriteRulesSynced check)))))"

section \<open>The configurations of the device\<close>

text \<open>A method of a raw JSON value that belongs to no request.\<close>

definition on_value :: "(rawjson, 'a) act \<Rightarrow> rawjson \<Rightarrow> ('a \<times> rawjson) dv_act" where
  "on_value m j = (\<lambda>s. case m j of (Ret a, j') \<Rightarrow> (Ret (a, j'), s) | (Panic e, j') \<Rightarrow> (Panic e, s))"

text \<open>A server of the account: the region, its endpoint and the account's key.\<close>

definition endpoint :: "device_spec resource \<Rightarrow> region \<Rightarrow> string \<Rightarrow> string" where
  "endpoint obj region wgNodePort =
     (if rg_IsMaster (r_spec region) then om_Name (r_meta obj) @ ''.wg.khost.dev:'' @ wgNodePort
      else om_Name (r_meta region) @ ''.'' @ rg_AccountName (r_spec region) @ ''.wg.khost.dev:'' @ wgNodePort)"

fun server_configs :: "device_spec resource \<Rightarrow> region list \<Rightarrow> rawjson \<Rightarrow> (string \<times> string) list dv_act" where
  "server_configs obj [] vars = ret []"
| "server_configs obj (region # regions) vars =
     andThen (on_value (rj_GetString (''wg-nodeport-'' @ om_Name (r_meta region))) vars) (\<lambda>(np, vars').
     andThen (server_configs obj regions vars') (\<lambda>rest.
     ret (case np of None \<Rightarrow> rest
          | Some port \<Rightarrow> (om_Name (r_meta region), endpoint obj region port) # rest)))"

fun render_configs :: "dv_env \<Rightarrow> string \<Rightarrow> string \<Rightarrow> string \<Rightarrow> string \<Rightarrow> (string \<times> string) list \<Rightarrow> string gomap \<Rightarrow> string gomap" where
  "render_configs E ip key pub dns [] m = m"
| "render_configs E ip key pub dns ((region, server) # servers) m =
     (case dv_render_conf E \<lparr>dc_DeviceIp = ip, dc_DevicePvtKey = key, dc_ServerPublicKey = pub,
         dc_ServerEndpoint = server, dc_RewriteRules = dns, dc_PodCidr = dv_PodCidr E, dc_SvcCidr = dv_SvcCidr E\<rparr> of
        Inl e \<Rightarrow> render_configs E ip key pub dns servers m
      | Inr out \<Rightarrow> render_configs E ip key pub dns servers (gm_put (''config-'' @ region) out m))"

definition config_doc :: "device_spec resource \<Rightarrow> string gomap \<Rightarrow> secret_doc" where
  "config_doc obj wConfigs = \<lparr>sc_Namespace = wg_ns (dv_AccountName (r_spec obj)),
     sc_Name = ''wg-device-config-'' @ om_Name (r_meta obj),
     sc_Labels = [(''kloudlite.io/wg-device-config'', ''true''), (''kloudlite.io/account.name'', dv_AccountName (r_spec obj)),
       (''kloudlite.io/device.name'', om_Name (r_meta obj))],
     sc_Owners = [AsOwner (r_meta obj) [True]], sc_Data = wConfigs\<rparr>"

text \<open>The part of \<open>reconDeviceConfig\<close> from the account on.\<close>

definition writeConfigs :: "dv_env \<Rightarrow> region list \<Rightarrow> string \<Rightarrow> string \<Rightarrow> string \<Rightarrow> error option dv_act" where
  "writeConfigs E regions dnsIp privateKey deviceIp = andThen (gets rs_obj) (\<lambda>obj.
     andThen (ask (ECall (DVGetAccount (dv_AccountName (r_spec obj)))) (dv_account E)) (\<lambda>r. case r of
       Inl e \<Rightarrow> ret (Some e)
     | Inr account \<Rightarrow>
         andThen (on_value (rj_GetString ''wg-public-key'') (st_DisplayVars (r_status account))) (\<lambda>(key, vars). case key of
           None \<Rightarrow> ret (Some (Failure ''wg public key not available''))
         | Some wgPublicKey \<Rightarrow> andThen (server_configs obj regions vars) (\<lambda>servers.
             KubectlApply E (config_doc obj (render_configs E deviceIp privateKey wgPublicKey dnsIp servers (Some [])))))))"

definition Device_reconDeviceConfig :: "dv_env \<Rightarrow> step_result dv_act" where
  "Device_reconDeviceConfig E = andThen (gets rs_obj) (\<lambda>obj.
     let check = CheckGen (om_Generation (r_meta obj));
         failed = (\<lambda>err. CheckFailed E deviceConfigSynced check (errmsg err)) in
     andThen (HasLocal ''device-ip'') (\<lambda>hasIp.
     andThen (HasLocal ''device-privatekey'') (\<lambda>hasPv.
     andThen (HasLocal ''device-publickey'') (\<lambda>hasPub.
     if \<not> hasIp \<or> \<not> hasPv \<or> \<not> hasPub then failed (Failure ''all configs not found'') else
     andThen (GetLocal str_local ''dns-ip'') (\<lambda>dns. case dns of
       None \<Rightarrow> failed (Failure (''can'' @ [CHR 39] @ ''t get dns''))
     | Some dnsIp \<Rightarrow> andThen (GetLocal (\<lambda>l. case l of LRegions gs \<Rightarrow> Some gs | _ \<Rightarrow> None) ''regions'') (\<lambda>gs. case gs of
       None \<Rightarrow> failed (Failure ''regions not found'')
     | Some regions \<Rightarrow>
       andThen (ask (ECall (DVGetSecret (wg_ns (dv_AccountName (r_spec obj))) (''wg-device-config-'' @ om_Name (r_meta obj))))
         (dv_secret E)) (\<lambda>r.
       let go = andThen (GetLocal str_local ''device-privatekey'') (\<lambda>pv. case pv of
           None \<Rightarrow> failed (Failure ''PRIVATE KEY NOT FOUND'')
         | Some privateKey \<Rightarrow> andThen (GetLocal str_local ''device-ip'') (\<lambda>ip. case ip of
           None \<Rightarrow> failed (Failure ''DEVICE IP NOT FOUND'')
         | Some deviceIp \<Rightarrow> andThen (writeConfigs E regions dnsIp privateKey deviceIp) (\<lambda>err. case err of
           Some e \<Rightarrow> failed e
         | None \<Rightarrow> settleCheck E deviceConfigSynced check)))
       in case r of
            Inl e \<Rightarrow> if \<not> IsNotFound e then failed e else go
          | Inr c \<Rightarrow> andThen (SetLocal ''WGConfig'' (LSecretData c)) (\<lambda>_. go))))))))"

section \<open>The reconcile\<close>

definition Device_finalize :: "dv_env \<Rightarrow> step_result dv_act" where
  "Device_finalize E = Finalize E"

definition Device_steps :: "dv_env \<Rightarrow> (device_spec, dv_call, dv_local) reconcile" where
  "Device_steps E = andStep (Device_fetchRequired E) (andStep (Device_reconWgKeys E) (andStep (Device_reconSyncServices E)
     (andStep (Device_reconDnsRewriteRules E) (andStep (Device_reconDeviceConfig E) (complete E)))))"

definition Device_Reconcile :: "dv_env \<Rightarrow> (device_spec, dv_call, dv_local) reconcile" where
  "Device_Reconcile E = reconcile_frame E (Device_methods (dv_ip E))
     [WgKeysReady, ServicesSynced, DnsRewriteRulesSynced, deviceConfigSynced] (Device_finalize E) (Device_steps E)"

text \<open>The watch of the manager: the device a service's label names.\<close>

definition Device_watch :: "string gomap \<Rightarrow> string list" where
  "Device_watch labels = (if gm_str labels ''kloudlite.io/device.name'' = '''' then []
     else [gm_str labels ''kloudlite.io/device.name''])"

end
