(* ===== verification/RequestTriples.thy ===== *)
theory RequestTriples
  imports RequestProps
begin

text \<open>
  A program logic for the steps of a pass: \<open>during ok P Q m\<close> says that a run of \<open>m\<close> from a state
  with \<open>P\<close> makes only calls that \<open>ok\<close> allows, whether it ends normally or panics, and that \<open>Q\<close>
  holds of its result and of the state when it ends normally.  Steps that go on leave the object as
  it was: what stops a pass is every write of it.
\<close>

section \<open>Triples\<close>

definition during :: "(('sp, 'ev) event \<Rightarrow> bool) \<Rightarrow> (('sp, 'ev, 'lv) rstate \<Rightarrow> bool)
    \<Rightarrow> ('a \<Rightarrow> ('sp, 'ev, 'lv) rstate \<Rightarrow> bool) \<Rightarrow> ('sp, 'ev, 'lv, 'a) ract \<Rightarrow> bool" where
  "during ok P Q m \<longleftrightarrow> (\<forall>s. P s \<longrightarrow> emits ok s (snd (m s)) \<and> (\<forall>a. fst (m s) = Ret a \<longrightarrow> Q a (snd (m s))))"

lemma duringI: "(\<And>s r t. P s \<Longrightarrow> m s = (r, t) \<Longrightarrow> emits ok s t \<and> (\<forall>a. r = Ret a \<longrightarrow> Q a t)) \<Longrightarrow> during ok P Q m"
  unfolding during_def by (metis prod.collapse)

lemma during_emits: "during ok P Q m \<Longrightarrow> P s \<Longrightarrow> m s = (r, t) \<Longrightarrow> emits ok s t"
  unfolding during_def by (metis snd_conv)

lemma during_result: "during ok P Q m \<Longrightarrow> P s \<Longrightarrow> m s = (Ret a, t) \<Longrightarrow> Q a t"
  unfolding during_def by (metis fst_conv snd_conv)

lemma during_mono:
  "during ok P Q m \<Longrightarrow> (\<And>s. P' s \<Longrightarrow> P s) \<Longrightarrow> (\<And>a s. Q a s \<Longrightarrow> Q' a s) \<Longrightarrow> during ok P' Q' m"
  unfolding during_def by blast

lemma during_assume: "(\<And>s. P s \<Longrightarrow> during ok (\<lambda>t. t = s) Q m) \<Longrightarrow> during ok P Q m"
  unfolding during_def by blast

lemma during_pre: "(A \<Longrightarrow> during ok P Q m) \<Longrightarrow> during ok (\<lambda>s. A \<and> P s) Q m"
  unfolding during_def by blast

lemma during_keeps: "keeps (emits ok) m \<Longrightarrow> during ok P (\<lambda>_ _. True) m"
  by (simp add: during_def keeps_def)

lemma during_conj: "(A \<Longrightarrow> during ok P Q m) \<Longrightarrow> during ok (\<lambda>s. P s \<and> A) Q m"
  unfolding during_def by blast

lemma duringI_keeps:
  assumes "keeps (emits ok) m" and "\<And>s a t. P s \<Longrightarrow> m s = (Ret a, t) \<Longrightarrow> Q a t"
  shows "during ok P Q m"
proof (rule duringI)
  fix s r t
  assume "P s" and run: "m s = (r, t)"
  then show "emits ok s t \<and> (\<forall>a. r = Ret a \<longrightarrow> Q a t)"
    using keepsE [OF assms(1) run] assms(2) by blast
qed

lemma during_andThen:
  assumes "during ok P R m" and "\<And>a. during ok (R a) Q (k a)"
  shows "during ok P Q (andThen m k)"
proof (rule duringI)
  fix s r t
  assume P: "P s" and run: "andThen m k s = (r, t)"
  obtain x u where m: "m s = (x, u)" by fastforce
  from during_emits [OF assms(1) P m] have su: "emits ok s u" .
  show "emits ok s t \<and> (\<forall>a. r = Ret a \<longrightarrow> Q a t)"
  proof (cases x)
    case (Ret a)
    with run m have k: "k a u = (r, t)" by (simp add: andThen_apply)
    from during_result [OF assms(1) P m [unfolded Ret]] have R: "R a u" .
    from during_emits [OF assms(2) R k] su have "emits ok s t" by (blast intro: emits_trans)
    moreover have "\<forall>a'. r = Ret a' \<longrightarrow> Q a' t" using during_result [OF assms(2) R] k by blast
    ultimately show ?thesis by blast
  next
    case (Panic e)
    with run m su show ?thesis by (auto simp: andThen_apply)
  qed
qed

lemma during_ret: "(\<And>s. P s \<Longrightarrow> Q a s) \<Longrightarrow> during ok P Q (ret a)"
  by (simp add: during_def ret_def emits_refl)

lemma during_Pair: "(\<And>s. P s \<Longrightarrow> Q a s) \<Longrightarrow> during ok P Q (Pair (Ret a))"
  by (simp add: during_def emits_refl)

lemma during_crash: "during ok P Q (crash e)"
  by (simp add: during_def crash_def emits_refl)

lemma during_gets: "(\<And>s. P s \<Longrightarrow> Q (f s) s) \<Longrightarrow> during ok P Q (gets f)"
  by (simp add: during_def gets_def emits_refl)

lemma during_if: "(b \<Longrightarrow> during ok P Q m) \<Longrightarrow> (\<not> b \<Longrightarrow> during ok P Q n) \<Longrightarrow> during ok P Q (if b then m else n)"
  by simp

lemma during_option: "(x = None \<Longrightarrow> during ok P Q m) \<Longrightarrow> (\<And>y. x = Some y \<Longrightarrow> during ok P Q (n y))
    \<Longrightarrow> during ok P Q (case x of None \<Rightarrow> m | Some y \<Rightarrow> n y)"
  by (cases x) auto

lemma during_sum: "(\<And>e. x = Inl e \<Longrightarrow> during ok P Q (m e)) \<Longrightarrow> (\<And>y. x = Inr y \<Longrightarrow> during ok P Q (n y))
    \<Longrightarrow> during ok P Q (case x of Inl e \<Rightarrow> m e | Inr y \<Rightarrow> n y)"
  by (cases x) auto

lemma during_prod: "(\<And>a b. x = (a, b) \<Longrightarrow> during ok P Q (f a b)) \<Longrightarrow> during ok P Q (case x of (a, b) \<Rightarrow> f a b)"
  by (cases x) auto

lemma during_list: "(x = [] \<Longrightarrow> during ok P Q m) \<Longrightarrow> (\<And>y ys. x = y # ys \<Longrightarrow> during ok P Q (n y ys))
    \<Longrightarrow> during ok P Q (case x of [] \<Rightarrow> m | y # ys \<Rightarrow> n y ys)"
  by (cases x) auto

text \<open>Predicates that say nothing of the calls made so far.\<close>

definition stable :: "(('sp, 'ev, 'lv) rstate \<Rightarrow> bool) \<Rightarrow> bool" where
  "stable P \<longleftrightarrow> (\<forall>s h. P s \<longrightarrow> P (s\<lparr>rs_hist := h\<rparr>))"

lemma during_ask: "stable P \<Longrightarrow> ok ev \<Longrightarrow> during ok P (\<lambda>_. P) (ask ev f)"
  by (simp add: during_def ask_def emits_def stable_def)

lemma during_ask_result:
  "stable P \<Longrightarrow> ok ev \<Longrightarrow> during ok P (\<lambda>x s. P s \<and> (\<exists>h. x = f (h @ [ev]))) (ask ev f)"
  by (auto simp: during_def ask_def emits_def stable_def)

abbreviation same_obj :: "'sp resource \<Rightarrow> ('sp, 'ev, 'lv) rstate \<Rightarrow> bool" where
  "same_obj obj s \<equiv> rs_obj s = obj"

lemma stable_obj [simp]: "stable (same_obj obj)"
  by (simp add: stable_def)

lemma stable_conj [simp]: "stable P \<Longrightarrow> stable Q \<Longrightarrow> stable (\<lambda>s. P s \<and> Q s)"
  by (simp add: stable_def)

lemma during_obj:
  assumes "\<And>s. P s \<Longrightarrow> rs_obj s = obj" and "during ok P Q (k obj)"
  shows "during ok P Q (andThen (gets rs_obj) k)"
  by (rule during_andThen [OF during_gets [where P = P and Q = "\<lambda>x s. x = obj \<and> P s"]]) (use assms in \<open>auto intro: during_pre\<close>)

lemma during_SetLocal:
  "(\<And>s. P s \<Longrightarrow> Q (s\<lparr>rs_locals := AList.update k v (rs_locals s)\<rparr>)) \<Longrightarrow> during ok P (\<lambda>_. Q) (SetLocal k v)"
  by (simp add: during_def SetLocal_def modify_def emits_def)

lemma during_GetLocal:
  "during ok P (\<lambda>x s. P s \<and> x = (case map_of (rs_locals s) k of None \<Rightarrow> None | Some y \<Rightarrow> prj y)) (GetLocal prj k)"
  unfolding GetLocal_def by (rule during_gets) simp

lemma during_HasLocal: "during ok P (\<lambda>_. P) (HasLocal k)"
  unfolding HasLocal_def by (rule during_gets)

section \<open>Steps that leave the object as it is\<close>

abbreviation goes_on :: "(('sp, 'ev) event \<Rightarrow> bool) \<Rightarrow> (('sp, 'ev, 'lv) rstate \<Rightarrow> bool)
    \<Rightarrow> ('sp, 'ev, 'lv, step_result) ract \<Rightarrow> bool" where
  "goes_on ok P m \<equiv> during ok P (\<lambda>r s. ShouldProceed r \<longrightarrow> P s) m"

lemma CheckFailed_ends: "CheckFailed E n c m s = (Ret r, t) \<Longrightarrow> \<not> sr_toContinue r"
  by (auto simp: CheckFailed_def andThen_eq_Ret ret_def New_def Err_def split: option.splits)

lemma Done_ends: "Done E rs s = (Ret r, t) \<Longrightarrow> \<not> sr_toContinue r"
  by (auto simp: Done_def andThen_eq_Ret ret_def New_def Err_def RequeueAfter_def split: option.splits list.splits)

lemma CheckFailed_stops: "CheckFailed E n c m s = (Ret r, t) \<Longrightarrow> \<not> ShouldProceed r"
  by (simp add: CheckFailed_ends ShouldProceed_def)

lemma UpdateStatus_stops: "UpdateStatus E s = (Ret r, t) \<Longrightarrow> \<not> ShouldProceed r"
  by (auto simp: UpdateStatus_def andThen_eq_Ret ret_def split: option.splits)

lemma settleCheck_proceeds: "settleCheck E n c s = (Ret r, t) \<Longrightarrow> ShouldProceed r \<Longrightarrow> t = s"
  by (auto simp: settleCheck_def Let_def andThen_apply ret_def Next_def dest: UpdateStatus_stops
      split: if_splits res.splits prod.splits)

text \<open>\<open>ends\<close>: the method ends the pass.\<close>

abbreviation ends :: "(('sp, 'ev) event \<Rightarrow> bool) \<Rightarrow> ('sp, 'ev, 'lv, step_result) ract \<Rightarrow> bool" where
  "ends ok m \<equiv> during ok (\<lambda>_. True) (\<lambda>r _. \<not> sr_toContinue r) m"

lemma ends_CheckFailed: "status_ok ok \<Longrightarrow> ends ok (CheckFailed E n c m)"
  by (rule duringI_keeps, rule keeps_intros) (simp_all add: CheckFailed_ends)

lemma ends_Done: "status_ok ok \<Longrightarrow> ends ok (Done E rs)"
  by (rule duringI_keeps, rule keeps_intros) (simp_all add: Done_ends)

lemma ends_ret: "ends ok m \<Longrightarrow> (\<And>r. sr_toContinue (f r) = sr_toContinue r) \<Longrightarrow> ends ok (andThen m (\<lambda>r. ret (f r)))"
  by (erule during_andThen, rule during_ret) simp

lemma ends_keeps: "keeps (emits ok) m \<Longrightarrow> (\<And>a. ends ok (k a)) \<Longrightarrow> ends ok (andThen m k)"
  by (rule during_andThen [OF during_keeps]) auto

lemma ends_option: "(x = None \<Longrightarrow> ends ok m) \<Longrightarrow> (\<And>y. x = Some y \<Longrightarrow> ends ok (n y))
    \<Longrightarrow> ends ok (case x of None \<Rightarrow> m | Some y \<Rightarrow> n y)"
  by (rule during_option)

lemma FailWithOpError_stops: "FailWithOpError E (Some e) cs s = (Ret r, t) \<Longrightarrow> \<not> ShouldProceed r"
  by (auto simp: FailWithOpError_def andThen_eq_Ret ret_def Let_def split: prod.splits option.splits)

lemma ends_stops: "ends ok m \<Longrightarrow> during ok P (\<lambda>r s. ShouldProceed r \<longrightarrow> Q r s) m"
  by (erule during_mono) (auto simp: ShouldProceed_def)

lemma stops_FailWithOpError_during:
  "status_ok ok \<Longrightarrow> during ok P (\<lambda>r s. ShouldProceed r \<longrightarrow> Q r s) (FailWithOpError E (Some e) cs)"
  by (rule duringI_keeps, rule keeps_intros) (simp_all add: FailWithOpError_stops)

lemma goes_on_ends: "ends ok m \<Longrightarrow> goes_on ok P m"
  by (erule during_mono) (auto simp: ShouldProceed_def)

lemmas goes_on_CheckFailed = goes_on_ends [OF ends_CheckFailed]
lemmas goes_on_Done = goes_on_ends [OF ends_Done]

lemma goes_on_settleCheck: "status_ok ok \<Longrightarrow> goes_on ok P (settleCheck E n c)"
  by (rule duringI_keeps, rule keeps_intros) (auto dest: settleCheck_proceeds)

lemma goes_on_Next: "goes_on ok P Next"
  by (rule duringI) (auto simp: Next_def ret_def emits_refl)

lemmas goes_on_intros = during_option during_sum during_if goes_on_CheckFailed goes_on_Done goes_on_settleCheck goes_on_Next

lemma during_andStep:
  assumes "during ok P (\<lambda>r s. ShouldProceed r \<longrightarrow> R s) m" and "during ok R Q k"
    and "\<And>r s. \<not> ShouldProceed r \<Longrightarrow> Q (ReconcilerResponse r) s"
  shows "during ok P Q (andStep m k)"
  unfolding andStep_def
proof (rule during_andThen [OF assms(1)])
  fix r
  have "during ok (\<lambda>s. ShouldProceed r \<longrightarrow> R s) Q (ret (ReconcilerResponse r))" if "\<not> ShouldProceed r"
    by (rule during_ret) (rule assms(3) [OF that])
  then show "during ok (\<lambda>s. ShouldProceed r \<longrightarrow> R s) Q (if ShouldProceed r then k else ret (ReconcilerResponse r))"
    using assms(2) by auto
qed

section \<open>Methods that leave the object as it is throughout\<close>

text \<open>What a step needs to be shown to make only calls of a kind when it works on one object: the rules go
  through the method, and what is left is that each call is allowed.\<close>

lemma same_andThen:
  "during ok (same_obj obj) (\<lambda>_. same_obj obj) m \<Longrightarrow> (\<And>a. during ok (same_obj obj) Q (k a)) \<Longrightarrow> during ok (same_obj obj) Q (andThen m k)"
  by (rule during_andThen)

lemma same_gets: "during ok (same_obj obj) Q (k obj) \<Longrightarrow> during ok (same_obj obj) Q (andThen (gets rs_obj) k)"
  by (rule during_obj)

lemma same_ask: "ok ev \<Longrightarrow> during ok (same_obj obj) (\<lambda>_. same_obj obj) (ask ev f)"
  by (rule during_ask) simp

lemma same_SetLocal: "during ok (same_obj obj) (\<lambda>_. same_obj obj) (SetLocal k v)"
  by (rule during_SetLocal) simp

lemma same_GetLocal: "during ok (same_obj obj) (\<lambda>_. same_obj obj) (GetLocal prj k)"
  by (rule during_mono [OF during_GetLocal]) auto

lemma same_ret: "during ok (same_obj obj) (\<lambda>_. same_obj obj) (ret a)" "during ok (same_obj obj) (\<lambda>_. same_obj obj) (Pair (Ret a))"
  by (rule during_ret during_Pair, assumption)+

lemmas same_rules = same_gets same_andThen same_ask same_SetLocal same_GetLocal same_ret during_HasLocal during_crash
  during_if during_option during_sum during_list during_prod goes_on_CheckFailed goes_on_Done goes_on_settleCheck goes_on_Next
  stops_FailWithOpError_during

end
