(* ===== verification/DeviceProps.thy ===== *)
theory DeviceProps
  imports Device Region RequestTriples
begin

text \<open>
  Properties of the device controller: what the service of a device is compared with and sent,
  how it meets the proxy configuration the account controller writes, and how the endpoints of
  its configurations meet the domains the region controller maintains.
\<close>

section \<open>The steps on a service\<close>

lemma updateServices_total: "\<exists>e h. updateServices E s = (Ret (Some e), s\<lparr>rs_hist := h\<rparr>)"
  by (auto simp: updateServices_def andThen_apply ask_def ret_def split: sum.splits option.splits)

definition service_event :: "device_spec resource \<Rightarrow> (device_spec, dv_call) event" where
  "service_event obj = ECall (DVGetService (wg_ns (dv_AccountName (r_spec obj))) (om_Name (r_meta obj)))"

text \<open>The service that is there serves the device as its spec wants it.\<close>

definition service_matches :: "device_spec resource \<Rightarrow> kservice \<Rightarrow> bool" where
  "service_matches obj svc \<longleftrightarrow> gm_str (ks_Selector svc) ''region'' = dv_ActiveRegion (r_spec obj)
     \<and> map sp_Port (ks_Ports svc) = map pt_Port (dv_Ports (r_spec obj))"

lemma ports_differ_iff: "length ts = length ps \<Longrightarrow> ports_differ ts ps \<longleftrightarrow> map sp_Port ts \<noteq> map pt_Port ps"
  by (induction ts ps rule: ports_differ.induct) auto

lemma checkPortsDiffer_iff: "checkPortsDiffer ts ps \<longleftrightarrow> map sp_Port ts \<noteq> map pt_Port ps"
  unfolding checkPortsDiffer_def by (metis length_map ports_differ_iff)

lemma sync_proceeds:
  assumes "Device_reconSyncServices E s = (Ret r, t)" and "ShouldProceed r"
  shows "\<exists>svc. dv_service E (rs_hist s @ [service_event (rs_obj s)]) = Inr svc \<and> service_matches (rs_obj s) svc"
proof -
  let ?u = "s\<lparr>rs_hist := rs_hist s @ [service_event (rs_obj s)]\<rparr>"
  obtain e v where upd: "updateServices E ?u = (Ret (Some e), v)" using updateServices_total by metis
  show ?thesis
  proof (cases "dv_service E (rs_hist ?u)")
    case (Inl e')
    then have "\<exists>m w. CheckFailed E ServicesSynced (CheckGen (om_Generation (r_meta (rs_obj s)))) m w = (Ret r, t)"
      using assms(1) upd
      by (auto simp: Device_reconSyncServices_def Let_def ask_def andThen_apply service_event_def split: if_splits)
    then show ?thesis using CheckFailed_stops assms(2) by blast
  next
    case (Inr svc)
    have "service_matches (rs_obj s) svc"
    proof (rule ccontr)
      assume "\<not> ?thesis"
      then have "\<exists>m w. CheckFailed E ServicesSynced (CheckGen (om_Generation (r_meta (rs_obj s)))) m w = (Ret r, t)"
        using assms(1) upd Inr
        by (auto simp: Device_reconSyncServices_def Let_def ask_def andThen_apply service_event_def service_matches_def
            checkPortsDiffer_iff split: if_splits)
      then show False using CheckFailed_stops assms(2) by blast
    qed
    then show ?thesis using Inr by auto
  qed
qed

lemma settleCheck_returns: "status_ready s \<Longrightarrow> \<exists>r t. settleCheck E n c s = (Ret r, t)"
  by (rule settleCheck_cases [of s E n c]) auto

lemma CheckFailed_returns: "status_ready s \<Longrightarrow> \<exists>r t. CheckFailed E n c m s = (Ret r, t)"
  by (simp add: CheckFailed_run Let_def)

lemma ready_hist [simp]: "status_ready (s\<lparr>rs_hist := h\<rparr>) = status_ready s"
  by (simp add: status_ready_def)

text \<open>The step does not panic on a status with checks and a readable message object.\<close>

lemma sync_returns:
  assumes "status_ready s"
  shows "\<exists>r t. Device_reconSyncServices E s = (Ret r, t)"
proof -
  let ?u = "s\<lparr>rs_hist := rs_hist s @ [service_event (rs_obj s)]\<rparr>"
  obtain e h where upd: "updateServices E ?u = (Ret (Some e), s\<lparr>rs_hist := h\<rparr>)"
    using updateServices_total [of E ?u] by auto
  show ?thesis
    using upd assms
    by (simp add: Device_reconSyncServices_def Let_def ask_def andThen_apply service_event_def
        CheckFailed_returns settleCheck_returns split: sum.split)
qed

section \<open>The entries of the proxy configuration\<close>

definition entry_of :: "(int \<Rightarrow> error + string) \<Rightarrow> device \<Rightarrow> port \<Rightarrow> config_service \<Rightarrow> bool" where
  "entry_of ip d p c \<longleftrightarrow> cs_Id c = service_id (om_Name (r_meta d)) (pt_Port p)
     \<and> getRemoteDeviceIp ip (dv_Offset (r_spec d)) = Inr (cs_Name c)
     \<and> cs_ServicePort c = (if pt_TargetPort p \<noteq> 0 then pt_TargetPort p else pt_Port p)"

lemma port_services_entry:
  "has_ip ip d \<Longrightarrow> p \<in> set ps \<Longrightarrow> \<exists>c \<in> set (fst (port_services ip svcs draw d ps k)). entry_of ip d p c"
proof (induction ps arbitrary: k)
  case (Cons q ps)
  then show ?case by (fastforce simp: has_ip_def Let_def entry_of_def)
qed simp

lemma device_services_entry:
  assumes "has_ip ip d" and "d \<in> set ds" and "p \<in> set (dv_Ports (r_spec d))"
  shows "\<exists>c \<in> set (device_services ip svcs draw ds k). entry_of ip d p c"
  using assms(2)
proof (induction ds arbitrary: k)
  case (Cons e ds)
  then show ?case using port_services_entry [OF assms(1,3)] by (fastforce simp: Let_def)
qed simp

lemma proxy_services_entry:
  assumes "sorts_services sortf" and "has_ip ip d" and "d \<in> set devs" and "p \<in> set (dv_Ports (r_spec d))"
  shows "\<exists>c \<in> set (proxy_services ip sortf old draw devs). entry_of ip d p c"
  using device_services_entry [OF assms(2) _ assms(4)] assms(3) by (simp add: proxy_services_def sorts_set [OF assms(1)])

lemma service_ports_found:
  assumes "\<forall>p \<in> set ps. getPort cs (service_id name (pt_Port p)) = Inr (f p)"
  shows "service_ports cs name ps
    = Inr (map (\<lambda>p. \<lparr>sp_Name = service_id name (pt_Port p), sp_Port = pt_Port p, sp_TargetPort = f p\<rparr>) ps)"
  using assms by (induction ps) auto

lemma service_ports_entries:
  assumes "sorts_services sortf" and "devices_ok devs" and "\<forall>d \<in> set devs. has_ip ip d" and "obj \<in> set devs"
  obtains c where "\<And>p. p \<in> set (dv_Ports (r_spec obj)) \<Longrightarrow>
      c p \<in> set (proxy_services ip sortf old draw devs) \<and> entry_of ip obj p (c p)"
    and "service_ports (proxy_services ip sortf old draw devs) (om_Name (r_meta obj)) (dv_Ports (r_spec obj))
      = Inr (map (\<lambda>p. \<lparr>sp_Name = service_id (om_Name (r_meta obj)) (pt_Port p), sp_Port = pt_Port p,
          sp_TargetPort = cs_ProxyPort (c p)\<rparr>) (dv_Ports (r_spec obj)))"
proof -
  let ?cs = "proxy_services ip sortf old draw devs"
  have dist: "distinct (map cs_Id ?cs)" by (rule proxy_services_ids_distinct [OF assms(1-3)])
  have "\<exists>c \<in> set ?cs. entry_of ip obj p c" if "p \<in> set (dv_Ports (r_spec obj))" for p
    using assms that by (intro proxy_services_entry) auto
  then obtain c where c: "\<And>p. p \<in> set (dv_Ports (r_spec obj)) \<Longrightarrow> c p \<in> set ?cs \<and> entry_of ip obj p (c p)" by metis
  then have "\<forall>p \<in> set (dv_Ports (r_spec obj)). getPort ?cs (service_id (om_Name (r_meta obj)) (pt_Port p)) = Inr (cs_ProxyPort (c p))"
    using getPort_get [OF dist] by (metis entry_of_def)
  from service_ports_found [OF this] c that show thesis by blast
qed

section \<open>Properties\<close>

text \<open>C31. A device without ports never gets past its services: as long as its service has a port, as
  every service does, the step ends the pass, also after the service of its own making, which has
  a placeholder port.\<close>

theorem Device_without_ports_never_ready:
  assumes "dv_Ports (r_spec (rs_obj s)) = []"
    and "\<And>svc. dv_service E (rs_hist s @ [service_event (rs_obj s)]) = Inr svc \<Longrightarrow> ks_Ports svc \<noteq> []"
    and "Device_reconSyncServices E s = (Ret r, t)"
  shows "\<not> ShouldProceed r \<and> sd_Ports (device_service (rs_obj s) []) \<noteq> []"
  using sync_proceeds [OF assms(3)] assms(1,2) by (auto simp: service_matches_def device_service_def)

text \<open>The service of a device leads to the proxy entries of its own ports: when the configuration
  map holds what the account controller generates for devices among which this one is, the
  service applied has exactly the ports of the spec in their order, each sent to the proxy port
  of an entry with the device's address and the wanted target port.\<close>

theorem Device_ports_reach_proxy:
  fixes E :: dv_env and s :: "(device_spec, dv_call, dv_local) rstate" and sortf old draw devs
  defines "obj \<equiv> rs_obj s"
  defines "get \<equiv> ECall (DVGetConfigMap (wg_ns (dv_AccountName (r_spec obj))) ''device-proxy-config'')"
  defines "cs \<equiv> proxy_services (dv_ip E) sortf old draw devs"
  assumes "sorts_services sortf" and "devices_ok devs" and "\<forall>d \<in> set devs. has_ip (dv_ip E) d" and "obj \<in> set devs"
    and "dv_configmap E (rs_hist s @ [get]) = Inr config"
    and "gm_str config ''config.json'' = config_text cs" and "\<forall>c \<in> set cs. service_ok c"
    and "\<And>doc. dv_render_service E doc = None" and "dv_Ports (r_spec obj) \<noteq> []"
  shows "\<exists>sd. rs_hist (snd (updateServices E s)) = rs_hist s @ [get, ECall (DVApplyService sd)]
    \<and> map sp_Port (sd_Ports sd) = map pt_Port (dv_Ports (r_spec obj))
    \<and> list_all2 (\<lambda>sp p. \<exists>c \<in> set cs. entry_of (dv_ip E) obj p c \<and> sp_TargetPort sp = cs_ProxyPort c)
        (sd_Ports sd) (dv_Ports (r_spec obj))"
proof -
  let ?ps = "dv_Ports (r_spec obj)" and ?n = "om_Name (r_meta obj)"
  obtain c where c: "\<And>p. p \<in> set ?ps \<Longrightarrow> c p \<in> set cs \<and> entry_of (dv_ip E) obj p (c p)"
    and ports: "service_ports cs ?n ?ps = Inr (map (\<lambda>p. \<lparr>sp_Name = service_id ?n (pt_Port p), sp_Port = pt_Port p,
      sp_TargetPort = cs_ProxyPort (c p)\<rparr>) ?ps)"
    using service_ports_entries [OF assms(4-7)] unfolding cs_def by blast
  let ?sp = "map (\<lambda>p. \<lparr>sp_Name = service_id ?n (pt_Port p), sp_Port = pt_Port p, sp_TargetPort = cs_ProxyPort (c p)\<rparr>) ?ps"
  let ?sd = "device_service obj ?sp"
  have "dec_proxy_config (gm_str config ''config.json'') = Inr cs" using assms(9,10) by (simp add: dec_config_text)
  then have "rs_hist (snd (updateServices E s)) = rs_hist s @ [get, ECall (DVApplyService ?sd)]"
    using assms(8,11) ports unfolding obj_def get_def
    by (simp add: updateServices_def ask_def andThen_apply ret_def split: option.split)
  moreover have "sd_Ports ?sd = ?sp" using assms(12) by (simp add: device_service_def)
  moreover have "list_all2 (\<lambda>sp p. \<exists>c \<in> set cs. entry_of (dv_ip E) obj p c \<and> sp_TargetPort sp = cs_ProxyPort c) ?sp ?ps"
    using c by (simp add: list_all2_map1 list_all2_same) blast
  ultimately show ?thesis by (intro exI [of _ ?sd]) simp
qed

text \<open>The endpoint in a configuration of a device is the domain the region controller keeps up to
  date, except for the master region, where it is named after the device: it is right there only
  if the device is called like the region.\<close>

lemma Device_endpoint_is_region_domain:
  "endpoint obj region np = region_domain region @ '':'' @ np
    \<longleftrightarrow> (if rg_IsMaster (r_spec region) then om_Name (r_meta obj) = om_Name (r_meta region) else True)"
  by (auto simp: endpoint_def region_domain_def)

section \<open>Witnesses\<close>

definition sample_dv :: "port list \<Rightarrow> (device_spec, dv_call, dv_local) rstate" where
  "sample_dv ps = sample_state \<lparr>dv_AccountName = ''acc'', dv_ActiveRegion = ''r'', dv_Offset = 0, dv_Ports = ps\<rparr>"

definition sample_dv_env :: "service_port list \<Rightarrow> string \<Rightarrow> dv_env" where
  "sample_dv_env ps text = kenv.extend storing_env \<lparr>dv_PodCidr = '''', dv_SvcCidr = '''', dv_ip = (\<lambda>_. Inr ''10.13.0.2''),
     dv_regions = (\<lambda>_. Inr []), dv_devices = (\<lambda>_. Inr []), dv_configmap = (\<lambda>_. Inr (Some [(''config.json'', text)])),
     dv_service = (\<lambda>_. Inr \<lparr>ks_ClusterIP = '''', ks_Selector = Some [(''region'', ''r'')], ks_Ports = ps\<rparr>),
     dv_secret = (\<lambda>_. Inl (NotFound ''secret'')), dv_account = (\<lambda>_. Inl (NotFound ''account'')),
     dv_keys = (\<lambda>_. Inr (''pub'', ''pv'')), dv_write = (\<lambda>_. None), dv_render_service = (\<lambda>_. None),
     dv_render_conf = (\<lambda>_. Inr ''conf''), dv_render_dns = (\<lambda>_. None)\<rparr>"

lemma sample_dv_sel [simp]:
  "dv_service (sample_dv_env ps text) h = Inr \<lparr>ks_ClusterIP = '''', ks_Selector = Some [(''region'', ''r'')], ks_Ports = ps\<rparr>"
  "dv_configmap (sample_dv_env ps text) h = Inr (Some [(''config.json'', text)])"
  "dv_ip (sample_dv_env ps text) = (\<lambda>_. Inr ''10.13.0.2'')" "dv_render_service (sample_dv_env ps text) doc = None"
  by (simp_all add: sample_dv_env_def kenv.extend_def)

lemma sample_dv_obj [simp]: "dv_Ports (r_spec (rs_obj (sample_dv ps))) = ps" "rs_hist (sample_dv ps) = []"
  by (simp_all add: sample_dv_def sample_state_def)

definition checked_dv :: "port list \<Rightarrow> (device_spec, dv_call, dv_local) rstate" where
  "checked_dv ps = updStatus (\<lambda>st. st\<lparr>st_Checks := Some []\<rparr>) (sample_dv ps)"

lemma checked_dv_ready: "status_ready (checked_dv ps)"
  by (simp add: status_ready_def checked_dv_def sample_dv_def sample_state_def updStatus_def status0_def)

lemma Device_without_ports_never_ready_witness:
  "\<exists>r t. Device_reconSyncServices (sample_dv_env [temp_port] '''') (checked_dv []) = (Ret r, t) \<and> \<not> ShouldProceed r"
proof -
  from sync_returns [OF checked_dv_ready] have "\<exists>r t. Device_reconSyncServices (sample_dv_env [temp_port] '''') (checked_dv []) = (Ret r, t)" .
  then obtain r t where run: "Device_reconSyncServices (sample_dv_env [temp_port] '''') (checked_dv []) = (Ret r, t)" by blast
  from Device_without_ports_never_ready [OF _ _ run] run show ?thesis
    by (auto simp: checked_dv_def)
qed

definition sample_port :: port where
  "sample_port = \<lparr>pt_Port = 80, pt_TargetPort = 8080\<rparr>"

lemma sample_port_sel: "pt_Port sample_port = 80"
  by (simp add: sample_port_def)

definition sample_services :: "config_service list" where
  "sample_services = [\<lparr>cs_Id = ''edge-80'', cs_Name = ''10.13.0.2'', cs_ServicePort = 8080, cs_ProxyPort = 3000\<rparr>]"

definition sample_config_text :: string where
  "sample_config_text = config_text sample_services"

lemma sorts_services_sort_key: "sorts_services (sort_key cs_Name)"
  by (simp add: sorts_services_def)

lemma sample_proxy_services:
  "proxy_services (\<lambda>_. Inr ''10.13.0.2'') (sort_key cs_Name) [] (\<lambda>_. 0) [rs_obj (sample_dv [sample_port])] = sample_services"
  by code_simp

lemma Device_ports_reach_proxy_witness:
  "\<exists>sd. rs_hist (snd (updateServices (sample_dv_env [] sample_config_text) (sample_dv [sample_port])))
     = [ECall (DVGetConfigMap ''wg-acc'' ''device-proxy-config''), ECall (DVApplyService sd)]
     \<and> map sp_Port (sd_Ports sd) = [80]"
proof -
  let ?s = "sample_dv [sample_port]"
  have "devices_ok [rs_obj ?s]" "wg_ns (dv_AccountName (r_spec (rs_obj ?s))) = ''wg-acc''"
    by (simp_all add: devices_ok_def sample_port_sel sample_dv_def sample_state_def wg_ns_def)
  moreover have "has_ip (\<lambda>_. Inr ''10.13.0.2'') d" for d by (simp add: has_ip_def getRemoteDeviceIp_def)
  moreover have "\<forall>c \<in> set sample_services. service_ok c" by (simp add: sample_services_def service_ok_def int32_ok_def)
  moreover have "gm_str (Some [(''config.json'', sample_config_text)]) ''config.json'' = sample_config_text"
    by (simp add: gm_str_def gm_get_def)
  ultimately show ?thesis
    using Device_ports_reach_proxy [where E = "sample_dv_env [] sample_config_text" and s = ?s
        and sortf = "sort_key cs_Name" and old = "[]" and draw = "\<lambda>_. 0" and devs = "[rs_obj ?s]"
        and config = "Some [(''config.json'', sample_config_text)]"]
    by (simp add: sorts_services_sort_key sample_proxy_services sample_config_text_def sample_port_sel) (elim exE conjE, intro exI conjI, assumption+)
qed

end
