(* ===== verification/Account.thy ===== *)
theory Account
  imports Device
begin

text \<open>
  The account controller, \<open>controllers/common/account/account_controller.go\<close>: the namespace of an
  account, the keys and configuration of its wireguard server, the proxy configuration of its
  devices, the deployments of its active regions, their node ports, and its DNS.  Templates are
  represented by the values they are rendered with, a JSON document by its value; random numbers
  and the sorting of services are parameters.
\<close>

section \<open>Calls and environment\<close>

text \<open>A secret of a device, and a service with its node ports.\<close>

record named_secret =
  se_Name :: string
  se_Data :: "string gomap"

record wg_service =
  ws_NodePorts :: "int list"
  ws_Labels :: "string gomap"

record wg_conf =
  wc_Ip :: string
  wc_PvtKey :: string
  wc_Peers :: "(string \<times> string) list"

datatype ac_call =
    ACGetNamespace string
  | ACCreateNamespace string "(string \<times> string) list" "ownerref list"
  | ACListRegions "(string \<times> string) list"
  | ACGetRegion string
  | ACListDevices "(string \<times> string) list"
  | ACListDeploys string "(string \<times> string) list"
  | ACGenerateKeys
  | ACGetSecret string string
  | ACCreateSecret string string "string gomap" "ownerref list"
  | ACUpdateSecret string string "string gomap"
  | ACListSecrets string "(string \<times> string) list"
  | ACPost string string
  | ACDeleteDeploy string string
  | ACApplyDeploy account region
  | ACGetDeploy string string
  | ACGetConfigMap string string
  | ACCreateConfigMap string string "ownerref list" string
  | ACUpdateConfigMap string string "ownerref list" string
  | ACApplyCoredns account bool "ownerref list" string
  | ACListServices string "(string \<times> string) list"
  | ACListDomains "(string \<times> string) list"
  | ACGetDomain string
  | ACCreateDomain "domain_spec resource"
  | ACUpdateDomain "domain_spec resource"

datatype ac_local = ALRegions "region list" | ALDevices "device list" | ALDeploys "string list" | ALString string

type_synonym ac_hist = "(account_spec, ac_call) hist"

record ac_env = "(account_spec, ac_call) kenv" +
  ac_ip :: "int \<Rightarrow> error + string"
  ac_draw :: "ac_hist \<Rightarrow> nat \<Rightarrow> int"
  ac_sort :: "config_service list \<Rightarrow> config_service list"
  ac_namespace :: "ac_hist \<Rightarrow> error option"
  ac_write :: "ac_hist \<Rightarrow> error option"
  ac_regions :: "ac_hist \<Rightarrow> error + region list"
  ac_region :: "ac_hist \<Rightarrow> error + region"
  ac_devices :: "ac_hist \<Rightarrow> error + device list"
  ac_deploys :: "ac_hist \<Rightarrow> error + string list"
  ac_deploy :: "ac_hist \<Rightarrow> error option"
  ac_keys :: "ac_hist \<Rightarrow> error + string \<times> string"
  ac_secret :: "ac_hist \<Rightarrow> error + string gomap"
  ac_secrets :: "ac_hist \<Rightarrow> error + named_secret list"
  ac_configmap :: "ac_hist \<Rightarrow> error + string gomap"
  ac_services :: "ac_hist \<Rightarrow> error + wg_service list"
  ac_domains :: "ac_hist \<Rightarrow> error + domain_spec resource list"
  ac_domain :: "ac_hist \<Rightarrow> error + domain_spec resource"
  ac_post :: "ac_hist \<Rightarrow> error option"
  ac_render_wg :: "wg_conf \<Rightarrow> error + string"
  ac_render_deploy :: "account \<Rightarrow> region \<Rightarrow> error option"
  ac_render_coredns :: "account \<Rightarrow> bool \<Rightarrow> string \<Rightarrow> error option"

type_synonym 'a ac_act = "((account_spec, ac_call, ac_local) rstate, 'a) act"

definition AccountNSReady :: string where "AccountNSReady = ''namespace-ready''"
definition AccountWGSKeysReady :: string where "AccountWGSKeysReady = ''wg-server-keys-ready''"
definition AccountWGSConfigReady :: string where "AccountWGSConfigReady = ''wg-server-config-ready''"
definition DeviceProxyReady :: string where "DeviceProxyReady = ''device-proxy-ready''"
definition WGDeploysReady :: string where "WGDeploysReady = ''wg-deployments-ready''"
definition CorednsDeployReady :: string where "CorednsDeployReady = ''coredns-deployment-ready''"

abbreviation regions_local :: "ac_local \<Rightarrow> region list option" where
  "regions_local l \<equiv> (case l of ALRegions rs \<Rightarrow> Some rs | _ \<Rightarrow> None)"

abbreviation devices_local :: "ac_local \<Rightarrow> device list option" where
  "devices_local l \<equiv> (case l of ALDevices ds \<Rightarrow> Some ds | _ \<Rightarrow> None)"

abbreviation deploys_local :: "ac_local \<Rightarrow> string list option" where
  "deploys_local l \<equiv> (case l of ALDeploys ns \<Rightarrow> Some ns | _ \<Rightarrow> None)"

text \<open>
  The end of a step whose status update is not looked at: the pass goes on.  \<open>settleCheck\<close> stops
  it after the update.
\<close>

definition settleAndGo :: "ac_env \<Rightarrow> string \<Rightarrow> check \<Rightarrow> step_result ac_act" where
  "settleAndGo E name c = andThen (getStatus st_Checks) (\<lambda>checks.
     let c' = c\<lparr>ck_Status := True\<rparr> in
     if c' \<noteq> (case gm_get checks name of None \<Rightarrow> Check0 | Some d \<Rightarrow> d) then
       andThen (putCheck name c') (\<lambda>_. andThen (UpdateStatus E) (\<lambda>_. Next))
     else Next)"

section \<open>The namespace and what the steps need\<close>

definition account_ns :: "account \<Rightarrow> string" where
  "account_ns obj = wg_ns (om_Name (r_meta obj))"

definition Account_reconNamespace :: "ac_env \<Rightarrow> step_result ac_act" where
  "Account_reconNamespace E = andThen (gets rs_obj) (\<lambda>obj.
     let check = CheckGen (om_Generation (r_meta obj));
         failed = (\<lambda>err. CheckFailed E AccountNSReady check (errmsg err)) in
     andThen (ask (ECall (ACGetNamespace (account_ns obj))) (ac_namespace E)) (\<lambda>err. case err of
       Some e \<Rightarrow> if \<not> IsNotFound e then failed e else
         andThen (ask (ECall (ACCreateNamespace (account_ns obj) [(AccountNameKey, om_Name (r_meta obj))]
             [AsOwner (r_meta obj) [True]])) (ac_write E)) (\<lambda>err. case err of
           Some e \<Rightarrow> failed e
         | None \<Rightarrow> failed (Failure ''namespacef for account is scheduled to create''))
     | None \<Rightarrow> settleAndGo E AccountNSReady check))"

definition found :: "error + 'a list \<Rightarrow> 'a list" where
  "found r = (case r of Inl e \<Rightarrow> [] | Inr xs \<Rightarrow> xs)"

definition Account_fetchRequired :: "ac_env \<Rightarrow> step_result ac_act" where
  "Account_fetchRequired E = andThen (gets rs_obj) (\<lambda>obj.
     andThen (ask (ECall (ACListRegions [(AccountNameKey, om_Name (r_meta obj))])) (ac_regions E)) (\<lambda>own.
     andThen (ask (ECall (ACListRegions [(AccountNameKey, ''kl-core'')])) (ac_regions E)) (\<lambda>kl.
     andThen (ask (ECall (ACGetRegion ''master'')) (ac_region E)) (\<lambda>master.
     let regions = found own @ (case master of Inr m \<Rightarrow> [m] | Inl _ \<Rightarrow> []) @ found kl in
     andThen (if regions = [] then ret () else SetLocal ''regions'' (ALRegions regions)) (\<lambda>_.
     andThen (ask (ECall (ACListDevices [(AccountNameKey, om_Name (r_meta obj))])) (ac_devices E)) (\<lambda>devices.
     andThen (SetLocal ''devices'' (ALDevices (found devices))) (\<lambda>_.
     andThen (ask (ECall (ACListDeploys (account_ns obj) [(WgDeploy, ''true'')])) (ac_deploys E)) (\<lambda>deploys.
     andThen (SetLocal ''wg-deployments'' (ALDeploys (found deploys))) (\<lambda>_.
     Next)))))))))"

section \<open>The server's keys\<close>

definition Account_reconWGServerKey :: "ac_env \<Rightarrow> step_result ac_act" where
  "Account_reconWGServerKey E = andThen (gets rs_obj) (\<lambda>obj.
     let check = CheckGen (om_Generation (r_meta obj));
         failed = (\<lambda>err. CheckFailed E AccountWGSKeysReady check (errmsg err));
         generating = Failure ''keys are being generated'' in
     andThen (ask (ECall (ACGetSecret (account_ns obj) ''wg-server-keys'')) (ac_secret E)) (\<lambda>r. case r of
       Inl e \<Rightarrow> if \<not> IsNotFound e then failed e else
         andThen (ask (ECall ACGenerateKeys) (ac_keys E)) (\<lambda>r. case r of
           Inl e \<Rightarrow> failed e
         | Inr (pub, priv) \<Rightarrow>
             andThen (ask (ECall (ACCreateSecret (account_ns obj) ''wg-server-keys''
               (Some [(''private-key'', priv), (''public-key'', pub)]) [AsOwner (r_meta obj) [True]])) (ac_write E)) (\<lambda>err. case err of
               Some e \<Rightarrow> failed e
             | None \<Rightarrow> andThen (onDisplayVars (rj_Set ''wg-public-key'' (JStr pub))) (\<lambda>_.
                 andThen (UpdateStatus E) (\<lambda>_. failed generating))))
     | Inr secret \<Rightarrow>
         andThen (SetLocal ''wg-private-key'' (ALString (gm_str secret ''private-key''))) (\<lambda>_.
         andThen (onDisplayVars (rj_GetString ''wg-public-key'')) (\<lambda>existing.
         let pub = gm_str secret ''public-key'' in
         case existing of
           Some key \<Rightarrow> if pub \<noteq> key then
               andThen (onDisplayVars (rj_Set ''wg-public-key'' (JStr pub))) (\<lambda>_.
               andThen (UpdateStatus E) (\<lambda>_. failed generating))
             else settleCheck E AccountWGSKeysReady check
         | None \<Rightarrow> andThen (onDisplayVars (rj_Set ''wg-public-key'' (JStr pub))) (\<lambda>_. failed generating)))))"

section \<open>The server's configuration\<close>

fun wg_peers :: "named_secret list \<Rightarrow> (string \<times> string) list" where
  "wg_peers [] = []"
| "wg_peers (d # ds) = (case gm_get (se_Data d) ''ip'' of
     None \<Rightarrow> wg_peers ds
   | Some ip \<Rightarrow> (case gm_get (se_Data d) ''public-key'' of
       None \<Rightarrow> wg_peers ds
     | Some key \<Rightarrow> (key, ip @ ''/32'') # wg_peers ds))"

text \<open>The secrets of a namespace have names of their own.\<close>

definition server_conf :: "string \<Rightarrow> named_secret list \<Rightarrow> wg_conf" where
  "server_conf privateKey secrets = \<lparr>wc_Ip = ''10.13.13.1/32'', wc_PvtKey = privateKey,
     wc_Peers = wg_peers (sort_key se_Name secrets)\<rparr>"

definition active :: "device list \<Rightarrow> string \<Rightarrow> bool" where
  "active devices region = list_ex (\<lambda>d. dv_ActiveRegion (r_spec d) \<noteq> '''' \<and> dv_ActiveRegion (r_spec d) = region) devices"

definition wg_url :: "string \<Rightarrow> account \<Rightarrow> region \<Rightarrow> string" where
  "wg_url port obj region = ''http://wg-api-service-'' @ om_Name (r_meta region) @ ''.wg-'' @ om_Name (r_meta obj)
     @ ''.svc.cluster.local:'' @ port @ ''/post''"

text \<open>Errors of the posts are logged.\<close>

definition post_all :: "ac_env \<Rightarrow> string \<Rightarrow> string \<Rightarrow> device list \<Rightarrow> region list \<Rightarrow> unit ac_act" where
  "post_all E port body devices regions = andThen (gets rs_obj) (\<lambda>obj.
     forA (filter (\<lambda>g. active devices (om_Name (r_meta g))) regions)
       (\<lambda>g. andThen (ask (ECall (ACPost (wg_url port obj g) body)) (ac_post E)) (\<lambda>_. ret ())))"

text \<open>\<open>failed(err)\<close> with an error that may be nil: its message cannot be read then.\<close>

definition failed_with :: "ac_env \<Rightarrow> string \<Rightarrow> check \<Rightarrow> error option \<Rightarrow> step_result ac_act" where
  "failed_with E name check err = (case err of
     None \<Rightarrow> crash ''nil pointer dereference''
   | Some e \<Rightarrow> CheckFailed E name check (errmsg e))"

text \<open>Writing the configuration and sending it to the active regions.  \<open>err\<close> is the error of the
  lookup that came before.\<close>

definition write_server_config :: "ac_env \<Rightarrow> check \<Rightarrow> error option \<Rightarrow> string \<Rightarrow> step_result ac_act" where
  "write_server_config E check err text = andThen (gets rs_obj) (\<lambda>obj.
     andThen (ask (ECall (ACUpdateSecret (account_ns obj) ''wg-server-config'' (Some [(''data'', text)]))) (ac_write E)) (\<lambda>e.
     if e \<noteq> None then failed_with E AccountWGSConfigReady check err else
     andThen (GetLocal regions_local ''regions'') (\<lambda>rs. case rs of
       None \<Rightarrow> CheckFailed E AccountWGSConfigReady check ''regions not found''
     | Some regions \<Rightarrow> andThen (GetLocal devices_local ''devices'') (\<lambda>ds. case ds of
         None \<Rightarrow> CheckFailed E AccountWGSConfigReady check ''devices not found''
       | Some devices \<Rightarrow> andThen (post_all E ''2998'' text devices regions)
           (\<lambda>_. settleAndGo E AccountWGSConfigReady check)))))"

definition Account_reconWGServerConfig :: "ac_env \<Rightarrow> step_result ac_act" where
  "Account_reconWGServerConfig E = andThen (gets rs_obj) (\<lambda>obj.
     let check = CheckGen (om_Generation (r_meta obj));
         failed = (\<lambda>err. CheckFailed E AccountWGSConfigReady check (errmsg err)) in
     andThen (GetLocal (\<lambda>l. case l of ALString t \<Rightarrow> Some t | _ \<Rightarrow> None) ''wg-private-key'') (\<lambda>key. case key of
       None \<Rightarrow> failed (Failure (''can'' @ [CHR 39] @ ''t find wireguard private key''))
     | Some privateKey \<Rightarrow>
       andThen (ask (ECall (ACListSecrets (account_ns obj) [(DeviceWgKey, ''true'')])) (ac_secrets E)) (\<lambda>r. case r of
         Inl e \<Rightarrow> failed e
       | Inr secrets \<Rightarrow> (case ac_render_wg E (server_conf privateKey secrets) of
           Inl e \<Rightarrow> failed e
         | Inr text \<Rightarrow>
           andThen (ask (ECall (ACGetSecret (account_ns obj) ''wg-server-config'')) (ac_secret E)) (\<lambda>r. case r of
             Inl e \<Rightarrow>
               andThen (ask (ECall (ACCreateSecret (account_ns obj) ''wg-server-config'' (Some [(''data'', text)]) []))
                 (ac_write E)) (\<lambda>e'. if e' \<noteq> None then failed e else write_server_config E check (Some e) text)
           | Inr existing \<Rightarrow>
               if gm_str existing ''data'' \<noteq> text then write_server_config E check None text
               else settleAndGo E AccountWGSConfigReady check)))))"

section \<open>The deployments\<close>

definition deploy_name :: "region \<Rightarrow> string" where
  "deploy_name g = ''wireguard-deployment-'' @ om_Name (r_meta g)"

text \<open>One region after the other, up to the first error.\<close>

fun update_regions :: "ac_env \<Rightarrow> account \<Rightarrow> string list \<Rightarrow> device list \<Rightarrow> region list \<Rightarrow> error option ac_act" where
  "update_regions E obj deploys devices [] = ret None"
| "update_regions E obj deploys devices (g # gs) =
     (if \<not> active devices (om_Name (r_meta g)) then
        (if deploy_name g \<in> set deploys then
           andThen (ask (ECall (ACDeleteDeploy (account_ns obj) (deploy_name g))) (ac_write E)) (\<lambda>err. case err of
             Some e \<Rightarrow> ret (Some e)
           | None \<Rightarrow> update_regions E obj deploys devices gs)
         else update_regions E obj deploys devices gs)
      else if deploy_name g \<in> set deploys then update_regions E obj deploys devices gs
      else (case ac_render_deploy E obj g of
          Some e \<Rightarrow> ret (Some e)
        | None \<Rightarrow> andThen (ask (ECall (ACApplyDeploy obj g)) (ac_write E)) (\<lambda>err. case err of
            Some e \<Rightarrow> ret (Some e)
          | None \<Rightarrow> update_regions E obj deploys devices gs)))"

definition updateDeployments :: "ac_env \<Rightarrow> error option ac_act" where
  "updateDeployments E = andThen (gets rs_obj) (\<lambda>obj.
     andThen (GetLocal regions_local ''regions'') (\<lambda>rs. case rs of
       None \<Rightarrow> ret (Some (Failure ''regions not found''))
     | Some regions \<Rightarrow> andThen (GetLocal devices_local ''devices'') (\<lambda>ds. case ds of
         None \<Rightarrow> ret (Some (Failure ''devices not found''))
       | Some devices \<Rightarrow> andThen (GetLocal deploys_local ''wg-deployments'') (\<lambda>ps. case ps of
           None \<Rightarrow> ret (Some (Failure (''cant'' @ [CHR 39] @ ''t find deployments'')))
         | Some deploys \<Rightarrow> update_regions E obj deploys devices regions))))"

text \<open>The node ports of the services; a service without ports is indexed out of range.\<close>

fun record_ports :: "wg_service list \<Rightarrow> bool \<Rightarrow> bool ac_act" where
  "record_ports [] updated = ret updated"
| "record_ports (svc # svcs) updated = (case ws_NodePorts svc of
     [] \<Rightarrow> crash ''index out of range''
   | nodePort # _ \<Rightarrow>
       if nodePort = 0 then record_ports svcs updated
       else (case gm_get (ws_Labels svc) ''region'' of
           None \<Rightarrow> record_ports svcs updated
         | Some region \<Rightarrow>
             andThen (onDisplayVars (rj_GetString (''wg-nodeport-'' @ region))) (\<lambda>np.
             if np \<noteq> Some (itoa nodePort) then
               andThen (onDisplayVars (rj_Set (''wg-nodeport-'' @ region) (JStr (itoa nodePort))))
                 (\<lambda>_. record_ports svcs True)
             else record_ports svcs updated)))"

definition Account_reconDeployments :: "ac_env \<Rightarrow> step_result ac_act" where
  "Account_reconDeployments E = andThen (gets rs_obj) (\<lambda>obj.
     let check = CheckGen (om_Generation (r_meta obj));
         failed = (\<lambda>err. CheckFailed E WGDeploysReady check (errmsg err)) in
     andThen (GetLocal regions_local ''regions'') (\<lambda>rs. case rs of
       None \<Rightarrow> failed (Failure ''regions not found'')
     | Some regions \<Rightarrow> andThen (GetLocal deploys_local ''wg-deployments'') (\<lambda>ps.
       andThen (if ps = None \<or> the ps = [] \<or> length (the ps) \<noteq> length regions then updateDeployments E else ret None) (\<lambda>err.
       case err of
         Some e \<Rightarrow> failed e
       | None \<Rightarrow>
         andThen (ask (ECall (ACListServices (account_ns obj) [(WgService, ''true'')])) (ac_services E)) (\<lambda>r.
         andThen (if found r = [] \<or> length (found r) \<noteq> length regions then
             (case r of Inl e \<Rightarrow> if \<not> IsNotFound e then ret (Some e) else updateDeployments E | Inr _ \<Rightarrow> updateDeployments E)
           else ret None) (\<lambda>err. case err of
           Some e \<Rightarrow> failed e
         | None \<Rightarrow> andThen (record_ports (found r) False) (\<lambda>updated.
             if updated then andThen (UpdateStatus E) (\<lambda>_. failed (Failure ''display vars are being updated''))
             else settleCheck E WGDeploysReady check)))))))"

section \<open>DNS\<close>

text \<open>The last region of the account \<open>kl-core\<close>.\<close>

definition kl_region :: "region list \<Rightarrow> string" where
  "kl_region regions = (case rev (filter (\<lambda>g. rg_AccountName (r_spec g) = ''kl-core'') regions) of
     [] \<Rightarrow> '''' | g # _ \<Rightarrow> om_Name (r_meta g))"

definition Account_reconCoredns :: "ac_env \<Rightarrow> step_result ac_act" where
  "Account_reconCoredns E = andThen (gets rs_obj) (\<lambda>obj.
     let check = CheckGen (om_Generation (r_meta obj));
         failed = (\<lambda>err. CheckFailed E CorednsDeployReady check (errmsg err)) in
     andThen (ask (ECall (ACGetDeploy (account_ns obj) ''coredns'')) (ac_deploy E)) (\<lambda>err. case err of
       None \<Rightarrow> settleCheck E CorednsDeployReady check
     | Some e \<Rightarrow> if \<not> IsNotFound e then failed e else
         andThen (ask (ECall (ACGetConfigMap (account_ns obj) ''coredns'')) (ac_configmap E)) (\<lambda>r.
         let configExists = (case r of Inl _ \<Rightarrow> False | Inr _ \<Rightarrow> True) in
         andThen (GetLocal regions_local ''regions'') (\<lambda>rs. case rs of
           None \<Rightarrow> failed (Failure ''regions not found'')
         | Some regions \<Rightarrow> (case ac_render_coredns E obj configExists (kl_region regions) of
             Some e \<Rightarrow> failed e
           | None \<Rightarrow> andThen (ask (ECall (ACApplyCoredns obj configExists [AsOwner (r_meta obj) [True]]
                 (kl_region regions))) (ac_write E)) (\<lambda>err. case err of
               Some e \<Rightarrow> failed e
             | None \<Rightarrow> settleCheck E CorednsDeployReady check))))))"

section \<open>The proxy configuration\<close>

definition proxy_config_name :: string where
  "proxy_config_name = ''device-proxy-config''"

definition proxy_owner :: "account \<Rightarrow> ownerref list" where
  "proxy_owner obj = [AsOwner (r_meta obj) []]"

text \<open>
  Writing a new configuration, sorted once more.  The error of a failed update is reported as
  another, which is nil here.
\<close>

definition write_proxy_config :: "ac_env \<Rightarrow> check \<Rightarrow> device list \<Rightarrow> config_service list \<Rightarrow> step_result ac_act" where
  "write_proxy_config E check devices configs = andThen (gets rs_obj) (\<lambda>obj.
     let doc = config_text (ac_sort E configs) in
     andThen (ask (ECall (ACUpdateConfigMap (account_ns obj) proxy_config_name (proxy_owner obj) doc)) (ac_write E)) (\<lambda>e.
     if e \<noteq> None then failed_with E DeviceProxyReady check None else
     andThen (GetLocal regions_local ''regions'') (\<lambda>rs. case rs of
       None \<Rightarrow> CheckFailed E DeviceProxyReady check ''regions not found''
     | Some regions \<Rightarrow> andThen (post_all E ''2999'' doc devices regions)
         (\<lambda>_. settleCheck E DeviceProxyReady check))))"

definition Account_reconDevProxyConfig :: "ac_env \<Rightarrow> step_result ac_act" where
  "Account_reconDevProxyConfig E = andThen (gets rs_obj) (\<lambda>obj.
     let check = CheckGen (om_Generation (r_meta obj));
         failed = (\<lambda>err. CheckFailed E DeviceProxyReady check (errmsg err)) in
     andThen (ask (ECall (ACGetConfigMap (account_ns obj) proxy_config_name)) (ac_configmap E)) (\<lambda>r. case r of
       Inl e \<Rightarrow> if \<not> IsNotFound e then failed e else
         andThen (ask (ECall (ACCreateConfigMap (account_ns obj) proxy_config_name (proxy_owner obj) (config_text [])))
           (ac_write E)) (\<lambda>err. case err of
           Some e \<Rightarrow> failed e
         | None \<Rightarrow> failed (Failure ''services are not upto date''))
     | Inr config \<Rightarrow> (case dec_proxy_config (gm_str config ''config.json'') of
         Inl e \<Rightarrow> failed (Failure (''can'' @ [CHR 39] @ ''t unmarshal config.json''))
       | Inr old \<Rightarrow> andThen (GetLocal devices_local ''devices'') (\<lambda>ds. case ds of
           None \<Rightarrow> failed (Failure ''devices not found'')
         | Some devices \<Rightarrow> andThen (gets (\<lambda>s. ac_draw E (rs_hist s))) (\<lambda>draw.
             let configs = proxy_services (ac_ip E) (ac_sort E) old draw devices in
             case JSONEqual (gm_str config ''config.json'') (config_text configs) of
               Inl e \<Rightarrow> failed e
             | Inr equal \<Rightarrow>
                 if \<not> equal \<and> configs \<noteq> [] then write_proxy_config E check devices configs
                 else settleCheck E DeviceProxyReady check)))))"

section \<open>The reconcile\<close>

definition Account_finalize :: "ac_env \<Rightarrow> step_result ac_act" where
  "Account_finalize E = Finalize E"

definition Account_steps :: "ac_env \<Rightarrow> (account_spec, ac_call, ac_local) reconcile" where
  "Account_steps E = andStep (Account_reconNamespace E) (andStep (Account_fetchRequired E)
     (andStep (Account_reconWGServerKey E) (andStep (Account_reconWGServerConfig E)
     (andStep (Account_reconDevProxyConfig E) (andStep (Account_reconDeployments E)
     (andStep (Account_reconCoredns E) (complete E)))))))"

definition Account_Reconcile :: "ac_env \<Rightarrow> (account_spec, ac_call, ac_local) reconcile" where
  "Account_Reconcile E = reconcile_frame E Account_methods
     [AccountNSReady, AccountWGSKeysReady, AccountWGSConfigReady, DeviceProxyReady, WGDeploysReady, CorednsDeployReady]
     (Account_finalize E) (Account_steps E)"

text \<open>The watches of the manager: on devices, and on regions, of which one without an account
  concerns all accounts.\<close>

definition Account_watch_device :: "string gomap \<Rightarrow> string list" where
  "Account_watch_device labels = (case gm_get labels ''kloudlite.io/account.name'' of None \<Rightarrow> [] | Some a \<Rightarrow> [a])"

definition Account_watch_region :: "error + account list \<Rightarrow> error + account \<Rightarrow> string gomap \<Rightarrow> string list" where
  "Account_watch_region all one labels = (if labels = None then []
     else if gm_str labels ''kloudlite.io/account.name'' = '''' then map (\<lambda>a. om_Name (r_meta a)) (found all)
     else (case one of Inl e \<Rightarrow> [] | Inr a \<Rightarrow> [om_Name (r_meta a)]))"

end
