(* ===== verification/AccountProps.thy ===== *)
theory AccountProps
  imports Account DeviceProps
begin

text \<open>
  Properties of the account controller: its proxy configuration settles and keeps the ports given
  out, but two services may share one; the deployments follow the active regions; the server
  configuration is written and sent when it changes; failed writes that are reported through an
  error of another call.
\<close>

section \<open>Ends of steps\<close>

lemma keeps_settleAndGo [keeps_intros]: "status_ok Q \<Longrightarrow> keeps (emits Q) (settleAndGo E n c)"
  unfolding settleAndGo_def Let_def
  by (auto intro!: keeps_intros split: option.split list.split prod.split)

lemma settleAndGo_status: "settleAndGo E n c s = (r, t) \<Longrightarrow> emits status_event s t"
  by (erule keepsE [rotated], intro keeps_intros, simp)

lemma forA_posts:
  "forA gs (\<lambda>g. andThen (ask (ECall (f g)) h) (\<lambda>_. ret ())) s
    = (Ret (), s\<lparr>rs_hist := rs_hist s @ map (\<lambda>g. ECall (f g)) gs\<rparr>)"
  by (induction gs arbitrary: s) (simp_all add: andThen_apply ask_def ret_def)

text \<open>The regions that get a post.\<close>

definition active_regions :: "device list \<Rightarrow> region list \<Rightarrow> region list" where
  "active_regions devices regions = filter (\<lambda>g. active devices (om_Name (r_meta g))) regions"

lemma post_all_run:
  "post_all E port body devices regions s = (Ret (), s\<lparr>rs_hist := rs_hist s
     @ map (\<lambda>g. ECall (ACPost (wg_url port (rs_obj s) g) body)) (active_regions devices regions)\<rparr>)"
  by (simp add: post_all_def active_regions_def forA_posts)

section \<open>The deployments\<close>

text \<open>What the calls do to the set of deployments of the namespace.\<close>

fun deploy_effect :: "(account_spec, ac_call) event \<Rightarrow> string set \<Rightarrow> string set" where
  "deploy_effect (ECall (ACDeleteDeploy ns n)) ds = ds - {n}"
| "deploy_effect (ECall (ACApplyDeploy obj g)) ds = insert (deploy_name g) ds"
| "deploy_effect e ds = ds"

text \<open>The specification: of the deployments of regions, those of the active ones.\<close>

definition wanted_deploys :: "device list \<Rightarrow> region list \<Rightarrow> string set \<Rightarrow> string set" where
  "wanted_deploys devices regions ds =
     (ds - deploy_name ` set regions) \<union> deploy_name ` set (active_regions devices regions)"

lemma deploy_name_inj: "deploy_name g = deploy_name h \<longleftrightarrow> om_Name (r_meta g) = om_Name (r_meta h)"
  by (simp add: deploy_name_def)

definition dropped :: "device list \<Rightarrow> string list \<Rightarrow> region list \<Rightarrow> string set" where
  "dropped devices deploys gs = {n. \<exists>g \<in> set gs. \<not> active devices (om_Name (r_meta g)) \<and> n = deploy_name g \<and> n \<in> set deploys}"

definition added :: "device list \<Rightarrow> string list \<Rightarrow> region list \<Rightarrow> string set" where
  "added devices deploys gs = {n. \<exists>g \<in> set gs. active devices (om_Name (r_meta g)) \<and> n = deploy_name g \<and> n \<notin> set deploys}"

lemma dropped_Cons: "dropped devices deploys (g # gs)
    = (if \<not> active devices (om_Name (r_meta g)) \<and> deploy_name g \<in> set deploys then insert (deploy_name g) (dropped devices deploys gs)
       else dropped devices deploys gs)"
  by (auto simp: dropped_def)

lemma added_Cons: "added devices deploys (g # gs)
    = (if active devices (om_Name (r_meta g)) \<and> deploy_name g \<notin> set deploys then insert (deploy_name g) (added devices deploys gs)
       else added devices deploys gs)"
  by (auto simp: added_def)

lemma update_regions_effect:
  assumes "update_regions E obj deploys devices gs s = (Ret None, t)"
  shows "\<exists>es. rs_hist t = rs_hist s @ es
    \<and> (\<forall>D. fold deploy_effect es D = (D - dropped devices deploys gs) \<union> added devices deploys gs)"
  using assms
proof (induction gs arbitrary: s)
  case Nil
  then show ?case by (simp add: ret_def dropped_def added_def)
next
  case (Cons g gs)
  let ?rest = "update_regions E obj deploys devices gs"
  consider (del) "\<not> active devices (om_Name (r_meta g))" "deploy_name g \<in> set deploys"
    | (add) "active devices (om_Name (r_meta g))" "deploy_name g \<notin> set deploys"
    | (keep) "active devices (om_Name (r_meta g)) \<longleftrightarrow> deploy_name g \<in> set deploys" by blast
  then show ?case
  proof cases
    case del
    let ?ev = "ECall (ACDeleteDeploy (account_ns obj) (deploy_name g))"
    have "?rest (s\<lparr>rs_hist := rs_hist s @ [?ev]\<rparr>) = (Ret None, t)"
      using Cons.prems del by (simp add: ask_def andThen_apply ret_def split: option.splits)
    from Cons.IH [OF this] obtain es where "rs_hist t = rs_hist s @ ?ev # es"
      "\<forall>D. fold deploy_effect es D = (D - dropped devices deploys gs) \<union> added devices deploys gs" by auto
    then show ?thesis using del
      by (intro exI [of _ "?ev # es"]) (auto simp: dropped_Cons added_Cons)
  next
    case add
    let ?ev = "ECall (ACApplyDeploy obj g)"
    have "?rest (s\<lparr>rs_hist := rs_hist s @ [?ev]\<rparr>) = (Ret None, t)"
      using Cons.prems add by (simp add: ask_def andThen_apply ret_def split: option.splits)
    from Cons.IH [OF this] obtain es where "rs_hist t = rs_hist s @ ?ev # es"
      "\<forall>D. fold deploy_effect es D = (D - dropped devices deploys gs) \<union> added devices deploys gs" by auto
    moreover have "deploy_name g \<notin> dropped devices deploys gs" using add by (simp add: dropped_def)
    ultimately show ?thesis using add
      by (intro exI [of _ "?ev # es"]) (auto simp: dropped_Cons added_Cons)
  next
    case keep
    then have "?rest s = (Ret None, t)" using Cons.prems by (auto split: if_splits)
    then show ?thesis using Cons.IH keep by (auto simp: dropped_Cons added_Cons)
  qed
qed

lemma wanted_deploys_eq:
  "(set deploys - dropped devices deploys gs) \<union> added devices deploys gs = wanted_deploys devices gs (set deploys)"
proof -
  have act: "active devices (om_Name (r_meta g)) = active devices (om_Name (r_meta h))" if "deploy_name g = deploy_name h" for g h
    using that by (simp add: deploy_name_inj)
  show ?thesis
  proof (intro equalityI subsetI)
    fix x assume x: "x \<in> (set deploys - dropped devices deploys gs) \<union> added devices deploys gs"
    show "x \<in> wanted_deploys devices gs (set deploys)"
      using x by (cases "x \<in> deploy_name ` set gs")
        (auto simp: wanted_deploys_def dropped_def added_def active_regions_def)
  next
    fix x assume x: "x \<in> wanted_deploys devices gs (set deploys)"
    show "x \<in> (set deploys - dropped devices deploys gs) \<union> added devices deploys gs"
    proof (cases "x \<in> set deploys")
      case True
      have "x \<notin> dropped devices deploys gs"
      proof
        assume "x \<in> dropped devices deploys gs"
        then obtain g where g: "g \<in> set gs" "\<not> active devices (om_Name (r_meta g))" "x = deploy_name g"
          by (auto simp: dropped_def)
        then obtain h where "h \<in> set gs" "active devices (om_Name (r_meta h))" "x = deploy_name h"
          using x by (auto simp: wanted_deploys_def active_regions_def)
        then show False using act [of g h] g by simp
      qed
      with True show ?thesis by blast
    qed (use x in \<open>auto simp: wanted_deploys_def added_def active_regions_def\<close>)
  qed
qed

section \<open>Properties\<close>

text \<open>C32. Updating the deployments leaves one for every active region and none for the inactive ones,
  and touches no other: when it ends without an error, what its calls do to the deployments that
  were listed is to keep those of other names and to have the active regions' ones.\<close>

theorem Account_deployments_follow_active_regions:
  assumes "map_of (rs_locals s) ''regions'' = Some (ALRegions regions)"
    and "map_of (rs_locals s) ''devices'' = Some (ALDevices devices)"
    and "map_of (rs_locals s) ''wg-deployments'' = Some (ALDeploys deploys)"
    and "updateDeployments E s = (Ret None, t)" and "rs_hist t = rs_hist s @ es"
  shows "fold deploy_effect es (set deploys) = wanted_deploys devices regions (set deploys)"
proof -
  have "update_regions E (rs_obj s) deploys devices regions s = (Ret None, t)"
    using assms(1-4) by (simp add: updateDeployments_def GetLocal_def andThen_apply)
  from update_regions_effect [OF this] show ?thesis
    using assms(5) by (auto simp: wanted_deploys_eq)
qed


text \<open>A port is drawn against the service ports of the old services, not against their proxy ports.\<close>

lemma mset_map_eq: "mset xs = mset ys \<Longrightarrow> mset (map f xs) = mset (map f ys)"
  by simp

lemma proxy_services_collide:
  assumes "sorts_services sortf" and "has_ip ip d" and "dv_Ports (r_spec d) = [p1, p2]"
    and "cs_Id c = service_id (om_Name (r_meta d)) (pt_Port p1)" and "cs_Id c \<noteq> service_id (om_Name (r_meta d)) (pt_Port p2)"
    and "cs_ServicePort c \<noteq> cs_ProxyPort c" and "draw 0 + 3000 = cs_ProxyPort c"
  shows "mset (map (\<lambda>e. (cs_Id e, cs_ProxyPort e)) (proxy_services ip sortf [c] draw [d]))
    = {#(cs_Id c, cs_ProxyPort c), (service_id (om_Name (r_meta d)) (pt_Port p2), cs_ProxyPort c)#}"
proof -
  have "pick_port (isContains (proxy_map [c])) draw 0 0 = (cs_ProxyPort c, 1)"
    using assms(6,7) by (simp add: pick_port.simps isContains_def proxy_map_def)
  then have pairs: "map (\<lambda>e. (cs_Id e, cs_ProxyPort e)) (device_services ip (proxy_map [c]) draw [d] 0)
      = [(cs_Id c, cs_ProxyPort c), (service_id (om_Name (r_meta d)) (pt_Port p2), cs_ProxyPort c)]"
    using assms(2-5) by (auto simp: has_ip_def Let_def getTempPort_def proxy_map_def update_conv')
  have "mset (proxy_services ip sortf [c] draw [d]) = mset (device_services ip (proxy_map [c]) draw [d] 0)"
    using assms(1) by (simp add: proxy_services_def sorts_services_def)
  from mset_map_eq [OF this, of "\<lambda>e. (cs_Id e, cs_ProxyPort e)"] show ?thesis unfolding pairs by (simp only: mset.simps)
qed

text \<open>Two ports of a device can be given the same proxy port: when a second port is added to a
  device whose first one has a proxy port that is no device's own port, and that port is drawn, the
  configuration stored has both, and the proxy listens on one port for two services.\<close>

theorem Account_proxy_ports_can_collide:
  fixes E :: ac_env and s :: "(account_spec, ac_call, ac_local) rstate" and d :: device
  defines "get \<equiv> ECall (ACGetConfigMap (account_ns (rs_obj s)) proxy_config_name)"
  assumes "sorts_services (ac_sort E)" and "has_ip (ac_ip E) d" and "dv_Ports (r_spec d) = [p1, p2]"
    and "cs_Id c = service_id (om_Name (r_meta d)) (pt_Port p1)" and "cs_Id c \<noteq> service_id (om_Name (r_meta d)) (pt_Port p2)"
    and "cs_ServicePort c \<noteq> cs_ProxyPort c" and "service_ok c"
    and "ac_draw E (rs_hist s @ [get]) 0 + 3000 = cs_ProxyPort c"
    and "ac_configmap E (rs_hist s @ [get]) = Inr config"
    and "gm_str config ''config.json'' = config_text [c]"
    and "map_of (rs_locals s) ''devices'' = Some (ALDevices [d])"
    and "map_of (rs_locals s) ''regions'' = Some (ALRegions regions)"
    and "\<And>h. ac_write E h = None"
  shows "\<exists>cs rest. rs_hist (snd (Account_reconDevProxyConfig E s)) = rs_hist s @ get
      # ECall (ACUpdateConfigMap (account_ns (rs_obj s)) proxy_config_name (proxy_owner (rs_obj s)) (config_text cs)) # rest
    \<and> mset (map (\<lambda>e. (cs_Id e, cs_ProxyPort e)) cs)
      = {#(cs_Id c, cs_ProxyPort c), (service_id (om_Name (r_meta d)) (pt_Port p2), cs_ProxyPort c)#}"
proof -
  let ?configs = "proxy_services (ac_ip E) (ac_sort E) [c] (ac_draw E (rs_hist s @ [get])) [d]"
  let ?check = "CheckGen (om_Generation (r_meta (rs_obj s)))"
  let ?w = "ECall (ACUpdateConfigMap (account_ns (rs_obj s)) proxy_config_name (proxy_owner (rs_obj s)) (config_text (ac_sort E ?configs)))"
  let ?u = "s\<lparr>rs_hist := (rs_hist s @ [get, ?w]) @ map (\<lambda>g. ECall (ACPost (wg_url ''2999'' (rs_obj s) g)
    (config_text (ac_sort E ?configs)))) (active_regions [d] regions)\<rparr>"
  have pairs: "mset (map (\<lambda>e. (cs_Id e, cs_ProxyPort e)) ?configs)
      = {#(cs_Id c, cs_ProxyPort c), (service_id (om_Name (r_meta d)) (pt_Port p2), cs_ProxyPort c)#}"
    using assms(2-7,9) by (rule proxy_services_collide [where draw = "ac_draw E (rs_hist s @ [get])"])
  from arg_cong [OF this, of size] have len: "length ?configs = 2" by simp
  have diff: "JSONEqual (gm_str config ''config.json'') (config_text ?configs) = Inr False"
  proof -
    have "JSONEqual (config_text [c]) (config_text ?configs) \<noteq> Inr True"
      using JSONEqual_length [of "[c]" ?configs] len by auto
    then show ?thesis unfolding assms(11) by (auto simp: JSONEqual_def config_text_read)
  qed
  have dec: "dec_proxy_config (gm_str config ''config.json'') = Inr [c]" using assms(8,11) by (simp add: dec_config_text)
  have "Account_reconDevProxyConfig E s = settleCheck E DeviceProxyReady ?check ?u"
    using assms(10,12-14) dec diff len unfolding get_def
    by (auto simp: Account_reconDevProxyConfig_def write_proxy_config_def Let_def ask_def andThen_apply GetLocal_def gets_def post_all_run)
  moreover have "emits status_event ?u (snd (settleCheck E DeviceProxyReady ?check ?u))"
    by (rule status_runs(6) [OF prod.collapse [symmetric]])
  ultimately have "\<exists>rest. rs_hist (snd (Account_reconDevProxyConfig E s)) = rs_hist s @ get # ?w # rest" by (auto simp: emits_def)
  then obtain rest where rest: "rs_hist (snd (Account_reconDevProxyConfig E s)) = rs_hist s @ get # ?w # rest" ..
  have "mset (ac_sort E ?configs) = mset ?configs" using assms(2) by (simp add: sorts_services_def)
  from mset_map_eq [OF this, of "\<lambda>e. (cs_Id e, cs_ProxyPort e)"] pairs
  have "mset (map (\<lambda>e. (cs_Id e, cs_ProxyPort e)) (ac_sort E ?configs))
      = {#(cs_Id c, cs_ProxyPort c), (service_id (om_Name (r_meta d)) (pt_Port p2), cs_ProxyPort c)#}" by (rule trans)
  with rest show ?thesis by blast
qed

text \<open>The calls with which the server configuration is looked up, written and sent.\<close>

definition list_secrets :: "account \<Rightarrow> (account_spec, ac_call) event" where
  "list_secrets obj = ECall (ACListSecrets (account_ns obj) [(DeviceWgKey, ''true'')])"

definition get_config :: "account \<Rightarrow> (account_spec, ac_call) event" where
  "get_config obj = ECall (ACGetSecret (account_ns obj) ''wg-server-config'')"

definition update_config :: "account \<Rightarrow> string \<Rightarrow> (account_spec, ac_call) event" where
  "update_config obj conf = ECall (ACUpdateSecret (account_ns obj) ''wg-server-config'' (Some [(''data'', conf)]))"

lemma server_config_found:
  fixes E :: ac_env and s :: "(account_spec, ac_call, ac_local) rstate"
  defines "obj \<equiv> rs_obj s"
  assumes "map_of (rs_locals s) ''wg-private-key'' = Some (ALString key)"
    and "ac_secrets E (rs_hist s @ [list_secrets obj]) = Inr secrets"
    and "ac_render_wg E (server_conf key secrets) = Inr conf"
    and "ac_secret E (rs_hist s @ [list_secrets obj, get_config obj]) = Inr existing"
  shows "Account_reconWGServerConfig E s
    = (let u = s\<lparr>rs_hist := rs_hist s @ [list_secrets obj, get_config obj]\<rparr>; c = CheckGen (om_Generation (r_meta obj)) in
       if gm_str existing ''data'' \<noteq> conf then write_server_config E c None conf u
       else settleAndGo E AccountWGSConfigReady c u)"
  using assms(2-5) unfolding obj_def list_secrets_def get_config_def
  by (simp add: Account_reconWGServerConfig_def Let_def ask_def andThen_apply GetLocal_def)

text \<open>C34. The configuration of the wireguard server is written exactly when the one rendered from the
  private key and the devices' secrets differs from the one stored; it is then sent once to each
  region that a device has active, in the order of the regions, and to no other.\<close>

theorem Account_server_config_sent_when_changed:
  fixes E :: ac_env and s :: "(account_spec, ac_call, ac_local) rstate"
  defines "obj \<equiv> rs_obj s"
  assumes "map_of (rs_locals s) ''wg-private-key'' = Some (ALString key)"
    and "map_of (rs_locals s) ''regions'' = Some (ALRegions regions)"
    and "map_of (rs_locals s) ''devices'' = Some (ALDevices devices)"
    and "ac_secrets E (rs_hist s @ [list_secrets obj]) = Inr secrets"
    and "ac_render_wg E (server_conf key secrets) = Inr conf"
    and "ac_secret E (rs_hist s @ [list_secrets obj, get_config obj]) = Inr existing"
    and "ac_write E (rs_hist s @ [list_secrets obj, get_config obj, update_config obj conf]) = None"
  shows "\<exists>ds. (\<forall>e \<in> set ds. status_event e) \<and> rs_hist (snd (Account_reconWGServerConfig E s))
    = rs_hist s @ [list_secrets obj, get_config obj]
      @ (if gm_str existing ''data'' = conf then []
         else update_config obj conf # map (\<lambda>g. ECall (ACPost (wg_url ''2998'' obj g) conf)) (active_regions devices regions))
      @ ds"
proof -
  let ?c = "CheckGen (om_Generation (r_meta obj))"
  let ?h = "rs_hist s @ [list_secrets obj, get_config obj]
      @ (if gm_str existing ''data'' = conf then []
         else update_config obj conf # map (\<lambda>g. ECall (ACPost (wg_url ''2998'' obj g) conf)) (active_regions devices regions))"
  have "Account_reconWGServerConfig E s = settleAndGo E AccountWGSConfigReady ?c (s\<lparr>rs_hist := ?h\<rparr>)"
    using assms(3,4,8) unfolding obj_def server_config_found [OF assms(2,5-7) [unfolded obj_def]]
    by (simp add: Let_def write_server_config_def ask_def andThen_apply GetLocal_def update_config_def [symmetric] post_all_run)
  moreover have "emits status_event (s\<lparr>rs_hist := ?h\<rparr>) (snd (settleAndGo E AccountWGSConfigReady ?c (s\<lparr>rs_hist := ?h\<rparr>)))"
    by (rule settleAndGo_status [OF prod.collapse [symmetric]])
  ultimately show ?thesis by (auto simp: emits_def)
qed

text \<open>When the stored configuration was found and has to be replaced, a failure of the update ends
  the pass in a panic: what is reported is the error of the lookup, which is nil.\<close>

theorem Account_config_update_failure_panics:
  fixes E :: ac_env and s :: "(account_spec, ac_call, ac_local) rstate"
  defines "obj \<equiv> rs_obj s"
  assumes "map_of (rs_locals s) ''wg-private-key'' = Some (ALString key)"
    and "ac_secrets E (rs_hist s @ [list_secrets obj]) = Inr secrets"
    and "ac_render_wg E (server_conf key secrets) = Inr conf"
    and "ac_secret E (rs_hist s @ [list_secrets obj, get_config obj]) = Inr existing"
    and "gm_str existing ''data'' \<noteq> conf"
    and "ac_write E (rs_hist s @ [list_secrets obj, get_config obj, update_config obj conf]) = Some e"
  shows "fst (Account_reconWGServerConfig E s) = Panic ''nil pointer dereference''"
  using assms(6,7) unfolding obj_def server_config_found [OF assms(2-5) [unfolded obj_def]]
  by (simp add: Let_def write_server_config_def ask_def andThen_apply update_config_def failed_with_def)

section \<open>Witnesses\<close>

definition sample_ac :: "(string \<times> ac_local) list \<Rightarrow> (account_spec, ac_call, ac_local) rstate" where
  "sample_ac ls = (updStatus (\<lambda>st. st\<lparr>st_Checks := Some []\<rparr>) (sample_state \<lparr>ac_OwnedDomains = []\<rparr>))\<lparr>rs_locals := ls\<rparr>"

definition sample_ac_env :: "string \<Rightarrow> error option \<Rightarrow> ac_env" where
  "sample_ac_env text w = kenv.extend storing_env \<lparr>ac_ip = (\<lambda>_. Inr ''10.13.0.2''), ac_draw = (\<lambda>_ _. 0), ac_sort = sort_key cs_Name,
     ac_namespace = (\<lambda>_. None), ac_write = (\<lambda>_. w), ac_regions = (\<lambda>_. Inr []), ac_region = (\<lambda>_. Inl (NotFound ''region'')),
     ac_devices = (\<lambda>_. Inr []), ac_deploys = (\<lambda>_. Inr []), ac_deploy = (\<lambda>_. None), ac_keys = (\<lambda>_. Inr (''pub'', ''pv'')),
     ac_secret = (\<lambda>_. Inr (Some [(''data'', ''old'')])), ac_secrets = (\<lambda>_. Inr []),
     ac_configmap = (\<lambda>_. Inr (Some [(''config.json'', text)])), ac_services = (\<lambda>_. Inr []),
     ac_domains = (\<lambda>_. Inr []), ac_domain = (\<lambda>_. Inl (NotFound ''domain'')), ac_post = (\<lambda>_. None),
     ac_render_wg = (\<lambda>_. Inr ''new''), ac_render_deploy = (\<lambda>_ _. None), ac_render_coredns = (\<lambda>_ _ _. None)\<rparr>"

lemma sample_ac_sel [simp]:
  "ac_ip (sample_ac_env t w) = (\<lambda>_. Inr ''10.13.0.2'')" "ac_draw (sample_ac_env t w) h = (\<lambda>_. 0)"
  "ac_sort (sample_ac_env t w) = sort_key cs_Name" "ac_write (sample_ac_env t w) h = w"
  "ac_secret (sample_ac_env t w) h = Inr (Some [(''data'', ''old'')])" "ac_secrets (sample_ac_env t w) h = Inr []"
  "ac_configmap (sample_ac_env t w) h = Inr (Some [(''config.json'', t)])" "ac_render_wg (sample_ac_env t w) c = Inr ''new''"
  "ac_render_deploy (sample_ac_env t w) a g = None"
  by (simp_all add: sample_ac_env_def kenv.extend_def)

lemma sample_ac_state [simp]: "rs_hist (sample_ac ls) = []" "rs_locals (sample_ac ls) = ls"
  by (simp_all add: sample_ac_def sample_state_def)

definition sample_ac_region :: "string \<Rightarrow> region" where
  "sample_ac_region n = \<lparr>r_meta = sample_meta\<lparr>om_Name := n\<rparr>, r_spec = \<lparr>rg_AccountName = ''acc'', rg_IsMaster = False\<rparr>, r_status = status0\<rparr>"

text \<open>A device of region \<open>r\<close>.\<close>

definition sample_ac_device :: "port list \<Rightarrow> device" where
  "sample_ac_device ps = rs_obj (sample_dv ps)"

lemma sample_ac_device_sel [simp]:
  "dv_ActiveRegion (r_spec (sample_ac_device ps)) = ''r''" "dv_Ports (r_spec (sample_ac_device ps)) = ps"
  by (simp_all add: sample_ac_device_def sample_dv_def sample_state_def)

lemma sample_regions_sel [simp]: "om_Name (r_meta (sample_ac_region n)) = n"
  by (simp add: sample_ac_region_def)

definition sample_ac_locals :: "(string \<times> ac_local) list" where
  "sample_ac_locals = [(''wg-private-key'', ALString ''key''), (''regions'', ALRegions [sample_ac_region ''r'', sample_ac_region ''q'']),
     (''devices'', ALDevices [sample_ac_device [sample_port]]), (''wg-deployments'', ALDeploys [''wireguard-deployment-q''])]"

lemma sample_ac_locals_get:
  "map_of sample_ac_locals ''wg-private-key'' = Some (ALString ''key'')"
  "map_of sample_ac_locals ''regions'' = Some (ALRegions [sample_ac_region ''r'', sample_ac_region ''q''])"
  "map_of sample_ac_locals ''devices'' = Some (ALDevices [sample_ac_device [sample_port]])"
  "map_of sample_ac_locals ''wg-deployments'' = Some (ALDeploys [''wireguard-deployment-q''])"
  by (simp_all add: sample_ac_locals_def)

lemma Account_deployments_follow_active_regions_witness:
  "\<exists>t. updateDeployments (sample_ac_env '''' None) (sample_ac sample_ac_locals) = (Ret None, t)
     \<and> fold deploy_effect (rs_hist t) {''wireguard-deployment-q''} = {''wireguard-deployment-r''}"
proof -
  let ?s = "sample_ac sample_ac_locals"
  obtain t where t: "updateDeployments (sample_ac_env '''' None) ?s = (Ret None, t)"
    by (simp add: updateDeployments_def GetLocal_def andThen_apply sample_ac_locals_get ask_def ret_def active_def deploy_name_def)
  have "wanted_deploys [sample_ac_device [sample_port]] [sample_ac_region ''r'', sample_ac_region ''q''] {''wireguard-deployment-q''}
      = {''wireguard-deployment-r''}"
    by (auto simp: wanted_deploys_def active_regions_def active_def deploy_name_def)
  then show ?thesis
    using Account_deployments_follow_active_regions [OF _ _ _ t, of "[sample_ac_region ''r'', sample_ac_region ''q'']"
        "[sample_ac_device [sample_port]]" "[''wireguard-deployment-q'']" "rs_hist t"] t by (simp add: sample_ac_locals_get)
qed


definition sample_port2 :: port where
  "sample_port2 = \<lparr>pt_Port = 443, pt_TargetPort = 0\<rparr>"

definition sample_ac_locals2 :: "(string \<times> ac_local) list" where
  "sample_ac_locals2 = [(''devices'', ALDevices [sample_ac_device [sample_port, sample_port2]]), (''regions'', ALRegions [])]"

lemma sample_ac_locals2_get:
  "map_of sample_ac_locals2 ''devices'' = Some (ALDevices [sample_ac_device [sample_port, sample_port2]])"
  "map_of sample_ac_locals2 ''regions'' = Some (ALRegions [])"
  by (simp_all add: sample_ac_locals2_def)

lemma sample_ac_device_ids:
  "service_id (om_Name (r_meta (sample_ac_device ps))) (pt_Port sample_port) = ''edge-80''"
  "service_id (om_Name (r_meta (sample_ac_device ps))) (pt_Port sample_port2) = ''edge-443''"
  by (simp_all add: sample_ac_device_def sample_dv_def sample_state_def sample_meta_def sample_port_def sample_port2_def) code_simp+

lemma Account_proxy_ports_can_collide_witness:
  "\<exists>cs rest. rs_hist (snd (Account_reconDevProxyConfig (sample_ac_env sample_config_text None) (sample_ac sample_ac_locals2)))
     = ECall (ACGetConfigMap (account_ns (rs_obj (sample_ac sample_ac_locals2))) proxy_config_name)
     # ECall (ACUpdateConfigMap (account_ns (rs_obj (sample_ac sample_ac_locals2))) proxy_config_name
         (proxy_owner (rs_obj (sample_ac sample_ac_locals2))) (config_text cs)) # rest
   \<and> mset (map (\<lambda>e. (cs_Id e, cs_ProxyPort e)) cs) = {#(''edge-80'', 3000), (''edge-443'', 3000)#}"
proof -
  let ?E = "sample_ac_env sample_config_text None" and ?d = "sample_ac_device [sample_port, sample_port2]"
  let ?c = "\<lparr>cs_Id = ''edge-80'', cs_Name = ''10.13.0.2'', cs_ServicePort = 8080, cs_ProxyPort = 3000\<rparr>"
  have parse: "gm_str (Some [(''config.json'', sample_config_text)]) ''config.json'' = config_text [?c]"
    using sample_config_text_def by (simp add: sample_services_def gm_str_def gm_get_def)
  show ?thesis
    using Account_proxy_ports_can_collide [of ?E ?d sample_port sample_port2 ?c "sample_ac sample_ac_locals2"
        "Some [(''config.json'', sample_config_text)]" "[]"] parse
    by (simp add: sorts_services_sort_key has_ip_def getRemoteDeviceIp_def sample_ac_device_ids sample_ac_locals2_get
        service_ok_def int32_ok_def)
qed

lemma Account_server_config_sent_when_changed_witness:
  "\<exists>ds. rs_hist (snd (Account_reconWGServerConfig (sample_ac_env '''' None) (sample_ac sample_ac_locals)))
     = [list_secrets (rs_obj (sample_ac sample_ac_locals)), get_config (rs_obj (sample_ac sample_ac_locals)),
        update_config (rs_obj (sample_ac sample_ac_locals)) ''new'',
        ECall (ACPost (wg_url ''2998'' (rs_obj (sample_ac sample_ac_locals)) (sample_ac_region ''r'')) ''new'')] @ ds"
  using Account_server_config_sent_when_changed [of "sample_ac sample_ac_locals" "''key''"
      "[sample_ac_region ''r'', sample_ac_region ''q'']" "[sample_ac_device [sample_port]]" "sample_ac_env '''' None" "[]" "''new''"
      "Some [(''data'', ''old'')]"]
  by (auto simp: sample_ac_locals_get gm_str_def gm_get_def active_regions_def active_def)

lemma Account_config_update_failure_panics_witness:
  "fst (Account_reconWGServerConfig (sample_ac_env '''' (Some (Failure ''conflict''))) (sample_ac sample_ac_locals))
     = Panic ''nil pointer dereference''"
  by (rule Account_config_update_failure_panics [where key = "''key''" and conf = "''new''" and secrets = "[]"
        and existing = "Some [(''data'', ''old'')]" and e = "Failure ''conflict''"])
    (simp_all add: sample_ac_locals_get gm_str_def gm_get_def)

end
