(* ===== verification/AccountDomain.thy ===== *)
theory AccountDomain
  imports Account Region
begin

text \<open>
  The two steps of the account controller that no pass runs, \<open>reconWGDomain\<close> and \<open>reconDomain\<close> of
  \<open>controllers/common/account/account_controller.go\<close>: a domain name of its own for the account,
  and a \<open>Domain\<close> object for each region with the addresses the region shows.  The name generator
  is a parameter, the sequence of its names.
\<close>

section \<open>A name for the account\<close>

text \<open>The search for a name that no domain has; \<open>None\<close> when the fuel is used up.\<close>

fun free_name :: "ac_env \<Rightarrow> (nat \<Rightarrow> string) \<Rightarrow> nat \<Rightarrow> nat \<Rightarrow> string option ac_act" where
  "free_name E gen 0 k = ret None"
| "free_name E gen (Suc n) k = andThen (ask (ECall (ACListDomains [(WgDomain, gen k)])) (ac_domains E)) (\<lambda>r. case r of
     Inl e \<Rightarrow> ret (Some (gen k))
   | Inr domains \<Rightarrow> if domains = [] then ret (Some (gen k)) else free_name E gen n (Suc k))"

definition Account_reconWGDomain :: "ac_env \<Rightarrow> (nat \<Rightarrow> string) \<Rightarrow> nat \<Rightarrow> step_result option ac_act" where
  "Account_reconWGDomain E gen n = andThen (onGeneratedVars (rj_GetString ''wg-domain'')) (\<lambda>dm. case dm of
     None \<Rightarrow> andThen (free_name E gen n 0) (\<lambda>r. case r of
         None \<Rightarrow> ret None
       | Some domainName \<Rightarrow> andThen (onGeneratedVars (rj_Set ''wg-domain'' (JStr domainName))) (\<lambda>_.
           andThen (UpdateStatus E) (\<lambda>r. ret (Some r))))
   | Some dm \<Rightarrow> andThen (SetLocal ''wg-domain'' (ALString dm)) (\<lambda>_. andThen Next (\<lambda>r. ret (Some r))))"

section \<open>The domains of the regions\<close>

text \<open>\<open>ip.(string)\<close> for each address.\<close>

fun strings_of :: "json list \<Rightarrow> string list option" where
  "strings_of [] = Some []"
| "strings_of (JStr t # vs) = map_option ((#) t) (strings_of vs)"
| "strings_of _ = None"

text \<open>The addresses a region shows: none when they are missing or no list.\<close>

definition shown_ips :: "region \<Rightarrow> json list option res" where
  "shown_ips g = (case fst (rj_Get NodeIps (st_DisplayVars (r_status g))) of
     Panic m \<Rightarrow> Panic m
   | Ret r \<Rightarrow> Ret (case r of Inr (JArr vs) \<Rightarrow> Some vs | Inr JNull \<Rightarrow> Some [] | _ \<Rightarrow> None))"

definition domain_object :: "region \<Rightarrow> account \<Rightarrow> string" where
  "domain_object g obj = ''wg-'' @ om_Name (r_meta g) @ ''-'' @ om_Name (r_meta obj)"

definition account_domain :: "account \<Rightarrow> region \<Rightarrow> string \<Rightarrow> string \<Rightarrow> string list \<Rightarrow> domain_spec resource" where
  "account_domain obj g wgDomain base ips = \<lparr>
     r_meta = \<lparr>om_APIVersion = ''management.kloudlite.io/v1'', om_Kind = ''Domain'',
       om_Name = domain_object g obj, om_Namespace = '''', om_UID = '''',
       om_Labels = Some [(''kloudlite.io/wg-domain'', wgDomain), (''kloudlite.io/wg-region'', om_Name (r_meta g)),
         (''kloudlite.io/wg-domain-account'', om_Name (r_meta obj))],
       om_Annotations = None, om_Finalizers = [], om_Owners = [AsOwner (r_meta obj) [], AsOwner (r_meta g) []],
       om_Generation = 0, om_Deleting = False\<rparr>,
     r_spec = \<lparr>dm_Name = om_Name (r_meta g) @ ''.'' @ wgDomain @ ''.wg.'' @ base, dm_Ips = ips\<rparr>,
     r_status = status0\<rparr>"

text \<open>\<open>functions.KubectlApply\<close> on a domain: an existing one gets the spec only.\<close>

definition apply_domain :: "ac_env \<Rightarrow> domain_spec resource \<Rightarrow> error option ac_act" where
  "apply_domain E doc = andThen (ask (ECall (ACGetDomain (om_Name (r_meta doc)))) (ac_domain E)) (\<lambda>r. case r of
     Inl e \<Rightarrow> if \<not> IsNotFound e then ret (Some (Failure (''could not get k8s resource as '' @ errmsg e)))
              else ask (ECall (ACCreateDomain doc)) (ac_write E)
   | Inr t \<Rightarrow> ask (ECall (ACUpdateDomain (t\<lparr>r_spec := r_spec doc\<rparr>))) (ac_write E))"

fun apply_domains :: "ac_env \<Rightarrow> string \<Rightarrow> account \<Rightarrow> region list \<Rightarrow> error option ac_act" where
  "apply_domains E base obj [] = ret None"
| "apply_domains E base obj (g # gs) =
     andThen (GetLocal (\<lambda>l. case l of ALString t \<Rightarrow> Some t | _ \<Rightarrow> None) ''wg-domain'') (\<lambda>dm. case dm of
       None \<Rightarrow> ret (Some (Failure (''can'' @ [CHR 39] @ ''t get wg domain'')))
     | Some wgDomain \<Rightarrow> (case shown_ips g of
         Panic m \<Rightarrow> crash m
       | Ret None \<Rightarrow> apply_domains E base obj gs
       | Ret (Some vs) \<Rightarrow> (case strings_of vs of
           None \<Rightarrow> crash ''interface conversion''
         | Some ips \<Rightarrow> andThen (apply_domain E (account_domain obj g wgDomain base ips)) (\<lambda>err. case err of
             Some e \<Rightarrow> ret (Some e)
           | None \<Rightarrow> apply_domains E base obj gs))))"

definition Account_reconDomain :: "ac_env \<Rightarrow> string \<Rightarrow> step_result ac_act" where
  "Account_reconDomain E base = andThen (gets rs_obj) (\<lambda>obj.
     let check = CheckGen (om_Generation (r_meta obj));
         failed = (\<lambda>err. CheckFailed E AccountWGSConfigReady check (errmsg err)) in
     andThen (GetLocal regions_local ''regions'') (\<lambda>rs. case rs of
       None \<Rightarrow> failed (Failure ''regions not found'')
     | Some regions \<Rightarrow> andThen (apply_domains E base obj regions) (\<lambda>err. case err of
         Some e \<Rightarrow> failed e
       | None \<Rightarrow> settleCheck E DomainReady check)))"

section \<open>What the steps do\<close>

text \<open>The search ends at the first name that is free or cannot be looked up, given as much fuel.\<close>

definition name_taken :: "ac_env \<Rightarrow> ac_hist \<Rightarrow> (nat \<Rightarrow> string) \<Rightarrow> nat \<Rightarrow> nat \<Rightarrow> bool" where
  "name_taken E h gen k i = (case ac_domains E (h @ map (\<lambda>j. ECall (ACListDomains [(WgDomain, gen j)])) [k..<Suc (k + i)]) of
     Inl e \<Rightarrow> False | Inr domains \<Rightarrow> domains \<noteq> [])"

lemma free_name_found:
  assumes "\<And>i. i < m \<Longrightarrow> name_taken E (rs_hist s) gen k i" and "\<not> name_taken E (rs_hist s) gen k m" and "m < n"
  shows "\<exists>t. free_name E gen n k s = (Ret (Some (gen (k + m))), t)"
  using assms
proof (induction n arbitrary: m k s)
  case (Suc n)
  let ?e = "ECall (ACListDomains [(WgDomain, gen k)])"
  let ?t = "s\<lparr>rs_hist := rs_hist s @ [?e]\<rparr>"
  show ?case
  proof (cases m)
    case 0
    then show ?thesis using Suc.prems(2) by (auto simp: name_taken_def ask_def andThen_apply split: sum.splits if_splits)
  next
    case (Suc m')
    have shift: "name_taken E (rs_hist ?t) gen (Suc k) i = name_taken E (rs_hist s) gen k (Suc i)" for i
      by (simp add: name_taken_def upt_conv_Cons del: upt_Suc)
    have "name_taken E (rs_hist s) gen k 0" using Suc.prems(1) Suc by simp
    then have "free_name E gen (Suc n) k s = free_name E gen n (Suc k) ?t"
      by (auto simp: name_taken_def ask_def andThen_apply split: sum.splits)
    moreover have "\<exists>t. free_name E gen n (Suc k) ?t = (Ret (Some (gen (Suc k + m'))), t)"
      using Suc.prems Suc by (intro Suc.IH) (simp_all only: shift, auto)
    ultimately show ?thesis using Suc by simp
  qed
qed simp

text \<open>An account that has a name keeps it, and the name is at hand for the steps that follow.\<close>

lemma Account_domain_kept:
  assumes "rj_ok (st_GeneratedVars (r_status (rs_obj s)))"
    and "rj_lookup (st_GeneratedVars (r_status (rs_obj s))) ''wg-domain'' = Some (JStr dm)"
  shows "\<exists>t r. Account_reconWGDomain E gen n s = (Ret (Some r), t) \<and> ShouldProceed r
    \<and> map_of (rs_locals t) ''wg-domain'' = Some (ALString dm) \<and> rs_hist t = rs_hist s"
  using assms rj_fillMap_ok [OF assms(1)]
  by (simp add: Account_reconWGDomain_def onGeneratedVars_def rj_GetString_def andThen_apply rj_lookup_def SetLocal_def
      Next_def update_conv')

text \<open>Domains of different regions or accounts differ in their address records, as long as the names have no dots.\<close>

lemma account_domain_names:
  assumes "dm_Name (r_spec (account_domain obj g d base ips)) = dm_Name (r_spec (account_domain obj' g' d base ips'))"
  shows "om_Name (r_meta g) = om_Name (r_meta g')"
  using assms by (simp add: account_domain_def)

text \<open>The step does not look at domains of regions that are gone: it makes and changes domains only.\<close>

lemma Account_domains_of_shown_regions:
  assumes "rs_hist (snd (apply_domains E base obj gs s)) = rs_hist s @ es" and "ECall (ACCreateDomain d) \<in> set es"
  shows "\<exists>g \<in> set gs. om_Name (r_meta d) = domain_object g obj"
proof -
  let ?Q = "\<lambda>gs e. \<forall>d. e = ECall (ACCreateDomain d) \<longrightarrow>
    (\<exists>g \<in> set gs. om_Name (r_meta d) = domain_object g obj)"
  have made: "keeps (emits (?Q gs)) (apply_domain E (account_domain obj g dm base ips))" if "g \<in> set gs" for g gs dm ips
    unfolding apply_domain_def using that
    by (auto intro!: keeps_intros bexI [of _ g] split: sum.split simp: account_domain_def)
  have "set gs' \<subseteq> set gs \<Longrightarrow> keeps (emits (?Q gs)) (apply_domains E base obj gs')" for gs'
    by (induction gs') (auto intro!: keeps_intros made split: option.split res.split)
  from keepsD [OF this [OF subset_refl], of s] show ?thesis using assms by (auto simp: emits_def)
qed

end
