(* ===== verification/RequestSafe.thy ===== *)
theory RequestSafe
  imports RequestProps
begin

text \<open>
  Panics.  A pass writes into the map of checks and into JSON fields of the status, which panics on
  a nil map and on a text that is no object.  \<open>well_formed\<close> and \<open>ready\<close> are what keeps it from
  that; the methods of a request preserve them, and the locale \<open>safe_controller\<close> derives that a
  controller never panics from the same of its own steps.
\<close>

section \<open>Well-formed objects\<close>

definition obj_ok :: "'sp resource \<Rightarrow> bool" where
  "obj_ok x \<longleftrightarrow> rj_ok (st_Message (r_status x)) \<and> rj_ok (st_DisplayVars (r_status x))"

definition well_formed :: "('sp, 'ev, 'lv) rstate \<Rightarrow> bool" where
  "well_formed s \<longleftrightarrow> obj_ok (rs_obj s)"

definition ready :: "('sp, 'ev, 'lv) rstate \<Rightarrow> bool" where
  "ready s \<longleftrightarrow> well_formed s \<and> st_Checks (r_status (rs_obj s)) \<noteq> None"

text \<open>
  A server whose objects have the JSON fields that the schema of the resource asks for: what it
  hands out, and what it answers with to a write of such an object.
\<close>

definition serves_ok :: "('sp, 'ev, 'z) kenv_scheme \<Rightarrow> bool" where
  "serves_ok E \<longleftrightarrow> (\<forall>h x. k_get E h = Inr x \<longrightarrow> obj_ok x)
     \<and> (\<forall>h x y. obj_ok x \<longrightarrow> k_update E (h @ [EUpdate x]) = Inr y \<or> k_status_update E (h @ [EStatusUpdate x]) = Inr y
          \<longrightarrow> obj_ok y)"

lemma served:
  assumes "serves_ok E"
  shows "k_get E h = Inr x \<Longrightarrow> obj_ok x"
    and "k_update E (h @ [EUpdate x]) = Inr y \<Longrightarrow> obj_ok x \<Longrightarrow> obj_ok y"
    and "k_status_update E (h @ [EStatusUpdate x]) = Inr y \<Longrightarrow> obj_ok x \<Longrightarrow> obj_ok y"
  using assms unfolding serves_ok_def by blast+

lemma ready_status: "ready s \<Longrightarrow> status_ready s"
  by (simp add: ready_def well_formed_def obj_ok_def status_ready_def)

lemma ready_well_formed: "ready s \<Longrightarrow> well_formed s"
  by (simp add: ready_def)

section \<open>Actions that end normally\<close>

definition always :: "('s \<Rightarrow> bool) \<Rightarrow> ('a \<Rightarrow> 's \<Rightarrow> bool) \<Rightarrow> ('s, 'a) act \<Rightarrow> bool" where
  "always P Q m \<longleftrightarrow> (\<forall>s. P s \<longrightarrow> (\<exists>r t. m s = (Ret r, t) \<and> Q r t))"

named_theorems always_intros \<open>structural rules for actions that end normally\<close>

lemma alwaysI: "(\<And>s. P s \<Longrightarrow> \<exists>r t. m s = (Ret r, t) \<and> Q r t) \<Longrightarrow> always P Q m"
  by (simp add: always_def)

lemma alwaysE:
  assumes "always P Q m" and "P s"
  obtains r t where "m s = (Ret r, t)" and "Q r t"
  using assms unfolding always_def by blast

lemma always_mono: "always P Q m \<Longrightarrow> (\<And>s. P' s \<Longrightarrow> P s) \<Longrightarrow> (\<And>r t. Q r t \<Longrightarrow> Q' r t) \<Longrightarrow> always P' Q' m"
  unfolding always_def by blast

lemma always_ret: "(\<And>s. P s \<Longrightarrow> Q a s) \<Longrightarrow> always P Q (ret a)"
  by (simp add: always_def ret_def)

lemma always_andThen: "always P R m \<Longrightarrow> (\<And>a. always (R a) Q (k a)) \<Longrightarrow> always P Q (andThen m k)"
  unfolding always_def by (fastforce simp: andThen_apply)

text \<open>Actions that leave a predicate of the object alone.\<close>

lemma always_gets: "always P (\<lambda>_. P) (gets f)"
  by (simp add: always_def gets_def)

lemma always_getMeta: "always P (\<lambda>_. P) (getMeta f)"
  by (simp add: always_def getMeta_def gets_def)

lemma always_getStatus: "always P (\<lambda>_. P) (getStatus f)"
  by (simp add: always_def)

lemma always_ask: "always well_formed (\<lambda>_. well_formed) (ask ev f)" "always ready (\<lambda>_. ready) (ask ev f)"
  by (simp_all add: always_def ask_def well_formed_def ready_def)

lemma always_modMeta: "always well_formed (\<lambda>_. well_formed) (modMeta f)" "always ready (\<lambda>_. ready) (modMeta f)"
  by (simp_all add: always_def modMeta_def modObj_def well_formed_def ready_def obj_ok_def)

lemma always_modStatus:
  assumes "\<And>st. rj_ok (st_Message st) \<Longrightarrow> rj_ok (st_DisplayVars st) \<Longrightarrow> rj_ok (st_Message (f st)) \<and> rj_ok (st_DisplayVars (f st))"
  shows "always well_formed (\<lambda>_. well_formed) (modStatus f)"
  using assms by (simp add: always_def well_formed_def obj_ok_def)

lemma always_stamp: "always well_formed (\<lambda>_. well_formed) (stamp E)"
  by (simp add: always_def well_formed_def obj_ok_def)

lemma answered_ok: "serves_ok E \<Longrightarrow> well_formed s \<Longrightarrow> well_formed (answered E s)"
  by (auto simp: answered_def well_formed_def Let_def dest: served(3) split: sum.split)

lemma always_StatusUpdate: "serves_ok E \<Longrightarrow> always well_formed (\<lambda>_. well_formed) (client_StatusUpdate E)"
  by (simp add: always_def answered_ok)

lemma always_Update_err: "serves_ok E \<Longrightarrow> always ready (\<lambda>err t. well_formed t \<and> (err \<noteq> None \<longrightarrow> ready t)) (client_Update E)"
  by (auto simp: always_def client_Update_def ask_def andThen_apply gets_def modObj_def ret_def well_formed_def
      ready_def dest: served(2) split: sum.split)

lemma always_Update: "serves_ok E \<Longrightarrow> always well_formed (\<lambda>_. well_formed) (client_Update E)"
  by (auto simp: always_def client_Update_def ask_def andThen_apply gets_def modObj_def ret_def well_formed_def
      dest: served(2) split: sum.split)

section \<open>The methods of a request\<close>

text \<open>\<open>stops\<close>: the method ends the pass; \<open>steps\<close>: if the pass goes on, the object is ready still.\<close>

abbreviation stops :: "(('sp, 'ev, 'lv) rstate \<Rightarrow> bool) \<Rightarrow> ('sp, 'ev, 'lv, step_result) ract \<Rightarrow> bool" where
  "stops P m \<equiv> always P (\<lambda>r _. \<not> ShouldProceed r) m"

abbreviation steps :: "('sp, 'ev, 'lv, step_result) ract \<Rightarrow> bool" where
  "steps m \<equiv> always ready (\<lambda>r t. ShouldProceed r \<longrightarrow> ready t) m"

lemma stops_steps: "stops ready m \<Longrightarrow> steps m"
  by (erule always_mono) auto

lemma stops_Done: "serves_ok E \<Longrightarrow> stops well_formed (Done E rs)"
  unfolding Done_def
  by (rule always_andThen [OF always_stamp], rule always_andThen [OF always_StatusUpdate])
    (auto simp: always_def ret_def split: option.split list.split)

lemma stops_FailWithStatusError: "serves_ok E \<Longrightarrow> stops well_formed (FailWithStatusError E (Some e) cs)"
  unfolding FailWithStatusError_def
  by (auto simp: always_def andThen_apply gets_def ret_def Patch_def Let_def split: prod.split option.split)

lemma stops_FailWithOpError: "serves_ok E \<Longrightarrow> stops well_formed (FailWithOpError E (Some e) cs)"
  unfolding FailWithOpError_def
  by (auto simp: always_def andThen_apply gets_def ret_def Patch_def Let_def split: prod.split option.split)

lemma stops_CheckFailed: "stops ready (CheckFailed E n c msg)"
  by (rule alwaysI) (auto simp: CheckFailed_run [OF ready_status] Let_def split: option.split)

lemma stops_Finalize: "stops P (Finalize E)"
  by (auto simp: always_def Finalize_def modMeta_def modObj_def client_Update_def ask_def andThen_apply gets_def ret_def
      split: sum.split)

lemma steps_settleCheck: "steps (settleCheck E n c)"
proof (rule alwaysI)
  fix s :: "('a, 'b, 'c) rstate"
  assume s: "ready s"
  from ready_status [OF s] show "\<exists>r t. settleCheck E n c s = (Ret r, t) \<and> (ShouldProceed r \<longrightarrow> ready t)"
    by (rule settleCheck_cases [where E = E and n = n and c = c]) (use s in auto)
qed

lemma steps_Next: "steps Next"
  by (simp add: always_def Next_def ret_def)

lemma always_complete: "always ready (\<lambda>_ _. True) (complete E)"
  by (simp add: always_def complete_def andThen_apply ret_def)

lemma always_andStep:
  assumes "always P (\<lambda>r t. ShouldProceed r \<longrightarrow> R t) m" and "always R (\<lambda>_ _. True) k"
  shows "always P (\<lambda>_ _. True) (andStep m k)"
  unfolding andStep_def
  by (rule always_andThen [OF assms(1)]) (use assms(2) in \<open>auto simp: always_def ret_def\<close>)

lemma steps_andStep: "steps m \<Longrightarrow> always ready (\<lambda>_ _. True) k \<Longrightarrow> always ready (\<lambda>_ _. True) (andStep m k)"
  by (rule always_andStep)

section \<open>The preparation\<close>

lemma EnsureChecks_safe:
  assumes "serves_ok E" and "names \<noteq> []"
  shows "always well_formed (\<lambda>r t. ShouldProceed r \<longrightarrow> ready t) (EnsureChecks E names)"
proof (rule alwaysI)
  fix s :: "('a, 'b, 'd) rstate"
  assume s: "well_formed s"
  show "\<exists>r t. EnsureChecks E names s = (Ret r, t) \<and> (ShouldProceed r \<longrightarrow> ready t)"
  proof (cases "checks_present names (st_Checks (r_status (rs_obj s)))")
    case True
    then have "st_Checks (r_status (rs_obj s)) \<noteq> None"
      using assms(2) by (cases names; cases "st_Checks (r_status (rs_obj s))") (auto simp: checks_present_def)
    then show ?thesis using EnsureChecks_passes [OF True, of E] s by (simp add: passes_def ready_def)
  next
    case False
    let ?checks = "add_checks names (Some (gm_entries (st_Checks (r_status (rs_obj s)))))"
    let ?m = "andThen (modStatus (\<lambda>st. st\<lparr>st_Checks := ?checks\<rparr>)) (\<lambda>_. andThen (client_StatusUpdate E) (\<lambda>err. case err of
      Some e \<Rightarrow> FailWithOpError E (Some e) [] | None \<Rightarrow> ret New))"
    have "gm_len (st_Checks (r_status (rs_obj s))) \<noteq> gm_len ?checks"
      using False add_checks_len_iff [of names "Some (gm_entries (st_Checks (r_status (rs_obj s))))"]
      by (auto simp: checks_present_def gm_len_def simp del: gm_get_Some)
    then have "EnsureChecks E names s = ?m s" by (simp add: EnsureChecks_def andThen_apply)
    moreover have "stops well_formed (case err of Some e \<Rightarrow> FailWithOpError E (Some e) [] | None \<Rightarrow> ret New)" for err
      using stops_FailWithOpError [OF assms(1)] by (auto intro: always_ret split: option.split)
    then have "stops well_formed ?m"
      by (intro always_andThen [OF always_modStatus] always_andThen [OF always_StatusUpdate [OF assms(1)]]) simp_all
    ultimately have "\<exists>r t. EnsureChecks E names s = (Ret r, t) \<and> \<not> ShouldProceed r" using s by (auto simp: always_def)
    then show ?thesis by blast
  qed
qed

lemma wf_andThen:
  "always well_formed (\<lambda>_. well_formed) m \<Longrightarrow> (\<And>a. always well_formed Q (k a)) \<Longrightarrow> always well_formed Q (andThen m k)"
  by (rule always_andThen)

lemma ready_andThen:
  "always ready (\<lambda>_. ready) m \<Longrightarrow> (\<And>a. always ready Q (k a)) \<Longrightarrow> always ready Q (andThen m k)"
  by (rule always_andThen)

lemma always_if: "(b \<Longrightarrow> always P Q m) \<Longrightarrow> (\<not> b \<Longrightarrow> always P Q n) \<Longrightarrow> always P Q (if b then m else n)"
  by simp

lemma always_option: "(o' = None \<Longrightarrow> always P Q m) \<Longrightarrow> (\<And>x. o' = Some x \<Longrightarrow> always P Q (n x))
    \<Longrightarrow> always P Q (case o' of None \<Rightarrow> m | Some x \<Rightarrow> n x)"
  by (cases o') auto

lemma always_sum: "(\<And>e. r = Inl e \<Longrightarrow> always P Q (m e)) \<Longrightarrow> (\<And>x. r = Inr x \<Longrightarrow> always P Q (n x))
    \<Longrightarrow> always P Q (case r of Inl e \<Rightarrow> m e | Inr x \<Rightarrow> n x)"
  by (cases r) auto

lemma stops_ready: "stops well_formed m \<Longrightarrow> steps m"
  by (erule always_mono) (auto simp: ready_def)

lemma always_Restart: "always well_formed (\<lambda>_. well_formed) (Restart E kind ns ls)"
  unfolding Restart_def by (intro wf_andThen always_ask) (auto simp: always_def ret_def split: exec_result.split)

lemma stops_requeue: "serves_ok E \<Longrightarrow> stops well_formed (andThen (Done E []) (\<lambda>r. ret (RequeueAfter r d)))"
  by (rule always_andThen [OF stops_Done]) (auto simp: always_def ret_def)

lemmas wf_intros = wf_andThen always_modMeta(1) always_modStatus always_stamp always_StatusUpdate always_Update always_Restart
  always_option stops_FailWithOpError stops_requeue always_gets always_ask(1)

lemma ClearStatus_safe: "serves_ok E \<Longrightarrow> steps (ClearStatusIfAnnotated E)"
  unfolding ClearStatusIfAnnotated_def
  by (rule ready_andThen [OF always_getMeta], rule always_if, rule stops_ready, intro wf_intros)
    (simp_all add: steps_Next)

lemma Restart_safe: "serves_ok E \<Longrightarrow> steps (RestartIfAnnotated E M)"
  unfolding RestartIfAnnotated_def
  by (rule ready_andThen [OF always_getMeta], rule always_if, rule stops_ready, intro wf_intros)
    (simp_all add: steps_Next)

lemma EnsureLabels_safe: "serves_ok E \<Longrightarrow> steps (EnsureLabelsAndAnnotations E M)"
  unfolding EnsureLabelsAndAnnotations_def Let_def
  by (rule ready_andThen [OF always_gets], rule always_if, rule stops_ready, intro wf_intros) (simp_all add: always_ret)

lemma EnsureFinalizers_safe: "serves_ok E \<Longrightarrow> steps (EnsureFinalizers E fs)"
  unfolding EnsureFinalizers_def
  by (rule ready_andThen [OF always_getMeta], rule always_if, rule stops_ready, intro wf_intros) (simp_all add: always_ret)

section \<open>Rules for the steps of controllers\<close>

lemma steps_CheckFailed: "steps (CheckFailed E n c m)"
  by (rule stops_steps [OF stops_CheckFailed])

lemma stops_Done_ready: "serves_ok E \<Longrightarrow> stops ready (Done E rs)"
  by (rule always_mono [OF stops_Done]) (auto simp: ready_def)

lemma any_stops: "stops ready m \<Longrightarrow> always ready (\<lambda>_ _. True) m"
  by (erule always_mono) auto

lemma always_ret_ready: "always ready (\<lambda>_. ready) (ret a)"
  by (rule always_ret)

lemma always_Set_display: "always ready (\<lambda>_. ready) (onDisplayVars (rj_Set k v))"
  by (auto simp: always_def onDisplayVars_def ready_def well_formed_def obj_ok_def dest: rj.invar_put)

lemma always_modSpec: "(\<And>x. r_status (f x) = r_status x) \<Longrightarrow> always ready (\<lambda>_. ready) (modObj f)"
  by (simp add: always_def modObj_def ready_def well_formed_def obj_ok_def)

lemmas ready_intros = ready_andThen always_gets always_ask(2) always_if always_option always_sum always_ret_ready
  steps_CheckFailed steps_settleCheck

section \<open>Controllers that never panic\<close>

text \<open>
  What a controller has to show of its finalizer and its steps, and what it gets; \<open>allowed\<close> says what
  it relies on beside the objects the server hands out.
\<close>

locale safe_controller =
  fixes M :: "'sp methods" and names :: "string list"
    and fin :: "('sp, 'ev, 'z) kenv_scheme \<Rightarrow> ('sp, 'ev, 'lv, step_result) ract"
    and body :: "('sp, 'ev, 'z) kenv_scheme \<Rightarrow> ('sp, 'ev, 'lv) reconcile"
    and allowed :: "('sp, 'ev, 'z) kenv_scheme \<Rightarrow> bool"
  assumes names: "names \<noteq> []"
    and serves: "allowed E \<Longrightarrow> serves_ok E"
    and fin: "allowed E \<Longrightarrow> always ready (\<lambda>_ _. True) (fin E)"
    and body: "allowed E \<Longrightarrow> always ready (\<lambda>_ _. True) (body E)"
begin

lemma frame_safe:
  assumes "allowed E"
  shows "always well_formed (\<lambda>_ _. True) (reconcile_frame E M names (fin E) (body E))"
  unfolding reconcile_frame_def
proof (rule always_andStep [OF EnsureChecks_safe [OF serves [OF assms] names]], rule ready_andThen [OF always_getMeta], rule always_if)
  have "always ready (\<lambda>r t. ShouldProceed r \<longrightarrow> True) (fin E)" using fin [OF assms] by (rule always_mono) auto
  then show "always ready (\<lambda>_ _. True) (andStep (fin E) (ret (ctrl_zero, None)))"
    by (rule always_andStep [where R = "\<lambda>_. True"]) (simp add: always_ret)
  show "always ready (\<lambda>_ _. True) (andStep (ClearStatusIfAnnotated E) (andStep (RestartIfAnnotated E M)
      (andStep (EnsureLabelsAndAnnotations E M) (andStep (EnsureFinalizers E [ForegroundFinalizer, CommonFinalizer]) (body E)))))"
    by (intro steps_andStep ClearStatus_safe Restart_safe EnsureLabels_safe EnsureFinalizers_safe serves assms body)
qed

lemma reconcile_safe:
  assumes "allowed E"
  shows "\<exists>r h'. run_reconcile E name (reconcile_frame E M names (fin E) (body E)) h = (Ret r, h')"
proof (cases "k_get E (h @ [EGet '''' name])")
  case (Inl e)
  then show ?thesis by (simp add: run_reconcile_def NewRequest_def)
next
  case (Inr x)
  let ?s = "\<lparr>rs_obj = x, rs_hist = h @ [EGet '''' name], rs_locals = []\<rparr>"
  have "well_formed ?s" using served(1) [OF serves [OF assms] Inr] by (simp add: well_formed_def)
  with frame_safe [OF assms] obtain r t where "reconcile_frame E M names (fin E) (body E) ?s = (Ret r, t)"
    by (rule alwaysE)
  with Inr show ?thesis by (simp add: run_reconcile_def NewRequest_def Let_def)
qed

end

end
