(* ===== verification/NodePoolSafe.thy ===== *)
theory NodePoolSafe
  imports RequestSafe NodePool
begin

text \<open>
  The node pool controller never panics, provided the totals that the pods request are not negative:
  then the autoscaler divides by no zero and always comes with a message.
\<close>

section \<open>Node pools\<close>

text \<open>
  What \<open>kubectl\<close> prints as the requests of the pods does not sum up to a negative amount of
  memory: the API server admits no negative request.
\<close>

definition requests_nonneg :: "np_env \<Rightarrow> bool" where
  "requests_nonneg E \<longleftrightarrow> (\<forall>h out rs r. k_exec E h = ExecOk out \<longrightarrow> dec_resources out = Inr rs
     \<longrightarrow> sum_requests rs \<lparr>res_Cpu = 0, res_Memory = 0\<rparr> = Inr r \<longrightarrow> 0 \<le> res_Memory r)"

lemma requests_total:
  assumes "requests_nonneg E" and "GetTotalPodRequest E labels lr s = (Ret (Inr r), t)"
  shows "0 \<le> res_Memory r"
  using assms by (auto simp: requests_nonneg_def GetTotalPodRequest_def ExecCmd_def ask_def andThen_apply ret_def
      split: sum.splits exec_result.splits)

text \<open>The autoscaler returns, and with a message, for every input with a load that is not negative.\<close>

abbreviation loaded :: "input \<Rightarrow> bool" where
  "loaded i \<equiv> 0 \<le> in_TotalUsed i"

abbreviation told :: "decision \<Rightarrow> input \<Rightarrow> bool" where
  "told d i \<equiv> fst (snd d) \<noteq> None \<and> snd (snd d) = None"

lemma loaded_getAllocatable: "always loaded (\<lambda>r i. loaded i \<and> isl r = False) getAllocatable"
  by (simp add: always_def getAllocatable_def)

lemma loaded_getTotalFilled: "always loaded (\<lambda>r i. loaded i \<and> isl r = False) getTotalFilled"
  by (auto simp: always_def getTotalFilled_def getAllocatable_def andThen_apply div64_def)

lemma loaded_getFilledByAssumingLess: "always loaded (\<lambda>r i. loaded i \<and> isl r = False) getFilledByAssumingLess"
  by (auto simp: always_def getFilledByAssumingLess_def getAllocatable_def andThen_apply div64_def Let_def split: list.split)

lemma loaded_getStatefulFilled: "always loaded (\<lambda>r i. loaded i \<and> isl r = False) getStatefulFilled"
  by (auto simp: always_def getStatefulFilled_def getStatefulAllocatable_def andThen_apply div64_def Let_def
      split: option.split)

lemma loaded_GetStatefulCount: "always loaded (\<lambda>_. loaded) GetStatefulCount"
  by (simp add: always_def GetStatefulCount_def Let_def)

lemma loaded_andThen:
  "always loaded (\<lambda>_. loaded) m \<Longrightarrow> (\<And>a. always loaded Q (k a)) \<Longrightarrow> always loaded Q (andThen m k)"
  by (rule always_andThen)

lemma loaded_filled:
  assumes "always loaded (\<lambda>r i. loaded i \<and> isl r = False) m" and "\<And>x. always loaded Q (k x)"
  shows "always loaded Q (andThen m (\<lambda>r. case r of Inl e \<Rightarrow> f e | Inr x \<Rightarrow> k x))"
  by (rule always_andThen [OF assms(1)]) (use assms(2) in \<open>auto simp: always_def split: sum.split\<close>)

lemma loaded_ret: "(\<And>i. loaded i \<Longrightarrow> Q a i) \<Longrightarrow> always loaded Q (ret a)"
  by (rule always_ret)

lemmas loaded_intros = loaded_andThen loaded_filled always_gets always_if loaded_GetStatefulCount
  loaded_getTotalFilled loaded_getFilledByAssumingLess loaded_getStatefulFilled loaded_ret

lemma down_scaling_returns: "always loaded told down_scaling"
  unfolding down_scaling_def by (intro loaded_intros) (simp_all add: nothing_to_do_def)

lemma stateful_scaling_returns: "always loaded told stateful_scaling"
  unfolding stateful_scaling_def by (intro loaded_intros down_scaling_returns) simp_all

lemma up_scaling_returns: "always loaded told up_scaling"
  unfolding up_scaling_def by (intro loaded_intros stateful_scaling_returns) simp_all

lemma Calculate_always: "always loaded told Calculate"
  unfolding Calculate_def
  by (rule always_andThen [OF loaded_getTotalFilled], rule always_andThen, rule always_mono [OF loaded_getFilledByAssumingLess],
      blast, assumption, rule always_andThen, rule always_mono [OF loaded_getAllocatable], blast, assumption)
    (rule always_mono [OF up_scaling_returns], blast)

lemma Calculate_returns:
  assumes "0 \<le> in_TotalUsed i"
  shows "\<exists>a m j. Calculate i = (Ret (a, Some m, None), j)"
  using alwaysE [OF Calculate_always assms] by (metis option.exhaust prod.collapse)

lemma always_SetLocal: "always ready (\<lambda>_. ready) (SetLocal k v)"
  by (simp add: always_def SetLocal_def ready_def well_formed_def)

lemma always_GetLocal: "always ready (\<lambda>_. ready) (GetLocal prj k)"
  by (simp add: always_def GetLocal_def gets_def)

lemma steps_Next_any: "always P (\<lambda>_. P) Next"
  by (simp add: always_def Next_def)

lemma NodePool_fetch_steps: "always ready (\<lambda>_. ready) (NodePool_fetchRequired E)"
  unfolding NodePool_fetchRequired_def
  by (intro ready_andThen always_ask(2) always_sum always_SetLocal steps_Next_any)

lemma steps_Done: "serves_ok E \<Longrightarrow> steps (Done E rs)"
  by (rule stops_steps [OF stops_Done_ready])

lemma carry_out_steps:
  assumes "serves_ok E"
  shows "steps (carry_out E check workers i action)"
proof -
  have mark: "always ready (\<lambda>_. ready) (mark_node E workers c)" for c
    unfolding mark_node_def by (intro always_option ready_andThen always_ask(2) always_ret_ready)
  obtain c j where c: "GetStatefulCount i = (Ret c, j)"
    by (cases "GetStatefulCount i") (auto simp: GetStatefulCount_def Let_def split: if_splits)
  show ?thesis
    unfolding carry_out_def add_node_def del_node_def c
    by (simp, intro conjI impI ready_intros steps_Done [OF assms] mark) (simp add: case_prod_unfold, intro ready_intros steps_Done [OF assms])
qed

lemma total_load:
  assumes "requests_nonneg E"
  shows "always ready (\<lambda>r t. ready t \<and> (\<forall>x. r = Inr x \<longrightarrow> 0 \<le> res_Memory x))
    (GetTotalPodRequest E labels ''requests'' :: (error + kres) np_act)"
proof (rule alwaysI)
  fix s :: "(nodepool_spec, np_call, np_local) rstate"
  assume "ready s"
  moreover obtain r t where t: "GetTotalPodRequest E labels ''requests'' s = (Ret r, t)" "rs_obj t = rs_obj s"
    using GetTotalPodRequest_total by blast
  moreover have "\<forall>x. r = Inr x \<longrightarrow> 0 \<le> res_Memory x" using requests_total [OF assms] t(1) by blast
  ultimately show "\<exists>r t. GetTotalPodRequest E labels ''requests'' s = (Ret r, t) \<and> ready t \<and> (\<forall>x. r = Inr x \<longrightarrow> 0 \<le> res_Memory x)"
    by (auto simp: ready_def well_formed_def)
qed

lemma decide_steps:
  assumes "serves_ok E" and "0 \<le> res_Memory used"
  shows "steps (case Calculate (pool_input det obj workers (res_Memory used) st) of
            (Panic m, _) \<Rightarrow> crash m
          | (Ret (action, msg, Some e), _) \<Rightarrow> CheckFailed E WorkerNodesReady check (errmsg e)
          | (Ret (action, None, None), _) \<Rightarrow> crash ''nil pointer dereference''
          | (Ret (action, Some msg, None), i) \<Rightarrow> carry_out E check workers i action)"
proof -
  have "0 \<le> in_TotalUsed (pool_input det obj workers (res_Memory used) st)"
    using assms(2) by (simp add: pool_input_def)
  then obtain a m j where "Calculate (pool_input det obj workers (res_Memory used) st) = (Ret (a, Some m, None), j)"
    using Calculate_returns by blast
  then show ?thesis using carry_out_steps [OF assms(1)] by simp
qed

lemma always_loaded: "(\<And>x. r = Inr x \<Longrightarrow> 0 \<le> res_Memory x \<Longrightarrow> always ready Q m) \<Longrightarrow> (\<And>e. r = Inl e \<Longrightarrow> always ready Q m)
    \<Longrightarrow> always (\<lambda>t. ready t \<and> (\<forall>x. r = Inr x \<longrightarrow> 0 \<le> res_Memory x)) Q m"
  by (cases r) (auto simp: always_def)

lemma scale_pool_steps:
  assumes "serves_ok E" and "requests_nonneg E"
  shows "steps (scale_pool E check workers det)"
proof -
  have second: "steps (andThen (GetTotalPodRequest E labels ''requests'') (\<lambda>r. case r of
       Inl e \<Rightarrow> CheckFailed E WorkerNodesReady check (errmsg e)
     | Inr statefulUsed \<Rightarrow>
         (case Calculate (pool_input det obj workers (res_Memory used) (res_Memory statefulUsed)) of
            (Panic m, _) \<Rightarrow> crash m
          | (Ret (action, msg, Some e), _) \<Rightarrow> CheckFailed E WorkerNodesReady check (errmsg e)
          | (Ret (action, None, None), _) \<Rightarrow> crash ''nil pointer dereference''
          | (Ret (action, Some msg, None), i) \<Rightarrow> carry_out E check workers i action)))"
    if "0 \<le> res_Memory used" for labels obj used
    by (rule always_andThen [OF total_load [OF assms(2)]], rule always_loaded)
      (simp_all only: sum.case steps_CheckFailed decide_steps [OF assms(1) that])
  show ?thesis
    unfolding scale_pool_def
    by (rule ready_andThen [OF always_gets], rule always_andThen [OF total_load [OF assms(2)]], rule always_loaded)
      (simp_all only: sum.case steps_CheckFailed second)
qed

lemma reconWorkerNodes_steps:
  assumes "serves_ok E" and "requests_nonneg E"
  shows "steps (reconWorkerNodes E)"
  unfolding reconWorkerNodes_def Let_def
  by (intro ready_intros always_GetLocal scale_pool_steps [OF assms])

lemma NodePool_fin: "serves_ok E \<Longrightarrow> always ready (\<lambda>_ _. True) (NodePool_finalize E)"
  unfolding NodePool_finalize_def
  by (rule any_stops, intro ready_andThen always_gets always_ask(2) always_sum always_if stops_CheckFailed
      stops_Done_ready stops_Finalize)

lemma steps_any: "always ready (\<lambda>_. ready) m \<Longrightarrow> steps m"
  by (erule always_mono) auto

lemma NodePool_body: "serves_ok E \<Longrightarrow> requests_nonneg E \<Longrightarrow> always ready (\<lambda>_ _. True) (NodePool_steps E)"
  unfolding NodePool_steps_def
  by (intro steps_andStep steps_any [OF NodePool_fetch_steps] reconWorkerNodes_steps always_complete)

interpretation np_safe: safe_controller NodePool_methods "[WorkerNodesReady, WorkerNodesDeleted]" NodePool_finalize NodePool_steps
    "\<lambda>E. serves_ok E \<and> requests_nonneg E"
  by unfold_locales (simp_all add: NodePool_fin NodePool_body)

end
