(* ===== verification/ControllersSafe.thy ===== *)
theory ControllersSafe
  imports NodePoolSafe NodePoolProps CloudProvider Edge Domain Region
begin

text \<open>
  The controllers of node pools, cloud providers, edges, domains and regions never panic: the interface
  \<open>safe_controller\<close> of the request layer, provided by each of them.
\<close>

lemma always_error_only: "always ready (\<lambda>_. ready) m \<Longrightarrow> always ready (\<lambda>_. ready) (error_only m)"
  unfolding error_only_def by (intro ready_andThen always_ret_ready)

lemma always_ns_do:
  assumes "\<And>req. always ready (\<lambda>_. ready) (send req)"
  shows "always ready (\<lambda>_. ready) (ns_do bad_url send req)"
  unfolding ns_do_def by (intro always_option assms always_ret_ready)

section \<open>The controllers\<close>

lemma CloudProvider_release_stops: "stops ready (CloudProvider_release E name c)"
  unfolding CloudProvider_release_def
  by (intro ready_andThen always_ask(2) always_option always_if stops_Finalize stops_CheckFailed)

lemma CloudProvider_fin: "serves_ok E \<Longrightarrow> always ready (\<lambda>_ _. True) (CloudProvider_finalize E)"
  unfolding CloudProvider_finalize_def Let_def
  by (rule any_stops, intro ready_andThen always_gets always_ask(2) always_sum always_if CloudProvider_release_stops
      stops_CheckFailed stops_Done_ready)

interpretation cp_safe: safe_controller CloudProvider_methods "[RegionReady, PoolReady]" CloudProvider_finalize complete serves_ok
  by unfold_locales (simp_all add: CloudProvider_fin always_complete)

lemma Edge_fin: "serves_ok E \<Longrightarrow> always ready (\<lambda>_ _. True) (Edge_finalize E)"
  unfolding Edge_finalize_def Let_def
  by (rule any_stops, intro ready_andThen always_gets always_ask(2) always_sum always_if stops_CheckFailed
      stops_Done_ready stops_Finalize)

lemma CheckFailed_halts: "always ready (\<lambda>r _. \<not> sr_toContinue r) (CheckFailed E n c msg)"
  by (rule alwaysI) (auto simp: CheckFailed_run [OF ready_status] Let_def New_def Err_def split: option.split)

lemma Update_then:
  assumes "serves_ok E" and "\<And>e. steps (f e)" and "stops well_formed g"
  shows "steps (andThen (client_Update E) (\<lambda>err. case err of Some e \<Rightarrow> f e | None \<Rightarrow> g))"
proof (rule always_andThen [OF always_Update_err [OF assms(1)]])
  fix err :: "error option"
  show "always (\<lambda>t. well_formed t \<and> (err \<noteq> None \<longrightarrow> ready t)) (\<lambda>r t. ShouldProceed r \<longrightarrow> ready t)
      (case err of Some e \<Rightarrow> f e | None \<Rightarrow> g)"
  proof (cases err)
    case None
    have "always (\<lambda>t. well_formed t \<and> (None \<noteq> None \<longrightarrow> ready t)) (\<lambda>r t. ShouldProceed r \<longrightarrow> ready t) g"
      using assms(3) by (rule always_mono) auto
    with None show ?thesis by simp
  next
    case (Some e)
    show ?thesis unfolding Some by (simp, rule always_mono [OF assms(2)]) auto
  qed
qed

lemma Edge_PatchDefaults_steps:
  assumes "serves_ok E"
  shows "steps (Edge_PatchDefaults E)"
proof -
  have failed: "steps (andThen (CheckFailed E DefaultsPatched c m) (\<lambda>r. ret (Err r None)))" for c m
    by (rule always_andThen [OF CheckFailed_halts]) (simp add: always_def ret_def ShouldProceed_Err_set)
  show ?thesis
    unfolding Edge_PatchDefaults_def Let_def
    by (intro ready_andThen always_gets always_ask(2) always_sum failed always_if always_modMeta(2) Update_then
        steps_CheckFailed steps_settleCheck stops_requeue assms)
qed

lemma keeps_ready_applyRegion: "always ready (\<lambda>_. ready) (applyRegion E)"
  unfolding applyRegion_def Let_def by (intro ready_intros)

lemma Edge_reconRegion_steps: "steps (Edge_reconRegion E)"
  unfolding Edge_reconRegion_def Let_def by (intro ready_intros keeps_ready_applyRegion)

lemma keeps_ready_UpdatePool: "always ready (\<lambda>_. ready) (UpdatePool E)"
  unfolding UpdatePool_def by (intro ready_intros)

lemma keeps_ready_match_pools: "always ready (\<lambda>_. ready) (match_pools E edge nps ps)"
proof (induction ps)
  case (Cons p ps)
  then show ?case by (simp, intro conjI impI ready_intros keeps_ready_UpdatePool)
qed (simp add: always_def)

lemma Edge_reconPool_steps: "steps (Edge_reconPool E)"
  unfolding Edge_reconPool_def Let_def by (intro ready_intros keeps_ready_UpdatePool keeps_ready_match_pools)

lemma Edge_body: "serves_ok E \<Longrightarrow> always ready (\<lambda>_ _. True) (Edge_steps E)"
  unfolding Edge_steps_def
  by (intro steps_andStep Edge_PatchDefaults_steps Edge_reconRegion_steps Edge_reconPool_steps always_complete)

interpretation eg_safe: safe_controller Edge_methods "[RegionReady, PoolReady]" Edge_finalize Edge_steps serves_ok
  by unfold_locales (simp_all add: Edge_fin Edge_body)

lemma keeps_ready_ns:
  assumes "\<And>req. always ready (\<lambda>_. ready) (send req)"
  shows "always ready (\<lambda>_. ready) (GetRecord bad_url send n d)"
    and "always ready (\<lambda>_. ready) (UpsertDomain bad_url send n d ips)"
    and "always ready (\<lambda>_. ready) (DeleteDomain bad_url send n d)"
  unfolding GetRecord_def UpsertDomain_def DeleteDomain_def
  by (intro always_error_only always_ns_do assms)+

lemma keeps_ready_send: "always ready (\<lambda>_. ready) (dm_send E req)" "always ready (\<lambda>_. ready) (rg_send E' req)"
  unfolding dm_send_def rg_send_def by (intro always_ask(2))+

lemma Domain_recon_steps: "steps (Domain_reconUpdateRecord E)"
  unfolding Domain_reconUpdateRecord_def Let_def
  by (intro ready_intros keeps_ready_ns keeps_ready_send always_modSpec) simp

lemma Domain_fin: "serves_ok E \<Longrightarrow> always ready (\<lambda>_ _. True) (Domain_finalize E)"
  unfolding Domain_finalize_def
  by (rule any_stops, intro ready_andThen always_gets keeps_ready_ns keeps_ready_send always_option
      stops_Finalize always_mono [OF stops_FailWithStatusError]) (auto simp: ready_def)

interpretation dm_safe: safe_controller Domain_methods "[RecoardUpToDate]" Domain_finalize
    "\<lambda>E. andStep (Domain_reconUpdateRecord E) (complete E)" serves_ok
  by unfold_locales (simp_all add: Domain_fin steps_andStep [OF Domain_recon_steps always_complete])

lemma Region_recon_steps: "steps (Region_reconUpdateRecord E)"
  unfolding Region_reconUpdateRecord_def Let_def
  by (intro ready_intros keeps_ready_ns keeps_ready_send always_Set_display)

interpretation rg_safe: safe_controller Region_methods "[RecoardUpToDate]" Region_finalize
    "\<lambda>E. andStep (Region_reconUpdateRecord E) (complete E)" serves_ok
  by unfold_locales
    (simp_all add: Region_finalize_def any_stops [OF stops_Done_ready] steps_andStep [OF Region_recon_steps always_complete])

section \<open>Properties\<close>

text \<open>C35. A pass over a node pool, a cloud provider, an edge, a domain or a region never panics, whatever the
  cluster, the nameserver and \<open>kubectl\<close> answer, errors included, as long as the objects that the server
  hands out have JSON objects in the status fields \<open>message\<close> and \<open>displayVars\<close> and no pod requests
  a negative amount of memory: the maps of checks are made before they are written, every step that
  goes on leaves them in place, and the autoscaler of the pool divides by no zero and never leaves the
  message nil that the controller prints.\<close>

theorem Controllers_never_panic:
  assumes "serves_ok NP" and "requests_nonneg NP"
    and "serves_ok CP" and "serves_ok EG" and "serves_ok DM" and "serves_ok RG"
  shows "(\<exists>r h'. run_reconcile NP name (NodePool_Reconcile NP) h0 = (Ret r, h'))
    \<and> (\<exists>r h'. run_reconcile CP name (CloudProvider_Reconcile CP) h1 = (Ret r, h'))
    \<and> (\<exists>r h'. run_reconcile EG name (Edge_Reconcile EG) h2 = (Ret r, h'))
    \<and> (\<exists>r h'. run_reconcile DM name (Domain_Reconcile DM) h3 = (Ret r, h'))
    \<and> (\<exists>r h'. run_reconcile RG name (Region_Reconcile RG) h4 = (Ret r, h'))"
  unfolding NodePool_Reconcile_def CloudProvider_Reconcile_def Edge_Reconcile_def Domain_Reconcile_def Region_Reconcile_def
  by (intro conjI np_safe.reconcile_safe cp_safe.reconcile_safe eg_safe.reconcile_safe dm_safe.reconcile_safe
      rg_safe.reconcile_safe assms)

lemma serves_ok_stored:
  assumes "k_update E = stored_update" and "k_status_update E = stored_update" and "\<And>h x. k_get E h = Inr x \<Longrightarrow> obj_ok x"
  shows "serves_ok E"
  using assms by (auto simp: serves_ok_def stored_update_def)

text \<open>Servers that hand out an object of the kind, without checks yet.\<close>

definition holding :: "'sp resource \<Rightarrow> ('sp, 'ev, 'z) kenv_scheme \<Rightarrow> ('sp, 'ev, 'z) kenv_scheme" where
  "holding x E = E\<lparr>k_get := (\<lambda>_. Inr x)\<rparr>"

definition sample_provider :: "cloudprovider_spec resource" where
  "sample_provider = \<lparr>r_meta = sample_meta, r_spec = (), r_status = status0\<rparr>"

lemma sample_requests: "requests_nonneg (holding x (sample_np_env ws u))"
proof -
  have "dec_resources ''[]'' = Inr []" by code_simp
  then show ?thesis by (auto simp: requests_nonneg_def holding_def sample_np_env_def)
qed

lemma sample_serves:
  "serves_ok (holding (rs_obj (sample_pool 0)) (sample_np_env [] ''u0''))"
  "requests_nonneg (holding (rs_obj (sample_pool 0)) (sample_np_env [] ''u0''))"
  "serves_ok (holding sample_provider sample_cp_env)"
  "serves_ok (holding (rs_obj (sample_edge ''r'')) (sample_eg_env []))"
  "serves_ok (holding (rs_obj (sample_domain [''10.0.0.1''])) (sample_dm_env sample_answer))"
  "serves_ok (holding (rs_obj (sample_region False None)) sample_rg_env)"
  by (rule sample_requests serves_ok_stored; simp add: holding_def sample_np_env_def sample_pool_def redo_def Let_def
      sample_cp_env_def sample_eg_env_def sample_dm_env_def
      sample_rg_env_def kenv.extend_def storing_env_def obj_ok_def sample_edge_def sample_state_def sample_domain_def
      sample_region_def status0_def sample_provider_def)+

lemma Controllers_never_panic_witness:
  "(\<exists>r h'. run_reconcile (holding (rs_obj (sample_pool 0)) (sample_np_env [] ''u0'')) ''pool''
       (NodePool_Reconcile (holding (rs_obj (sample_pool 0)) (sample_np_env [] ''u0''))) [] = (Ret r, h'))
   \<and> (\<exists>r h'. run_reconcile (holding (rs_obj (sample_edge ''r'')) (sample_eg_env [])) ''pool''
       (Edge_Reconcile (holding (rs_obj (sample_edge ''r'')) (sample_eg_env []))) [] = (Ret r, h'))
   \<and> (\<exists>r h'. run_reconcile (holding (rs_obj (sample_region False None)) sample_rg_env) ''pool''
       (Region_Reconcile (holding (rs_obj (sample_region False None)) sample_rg_env)) [] = (Ret r, h'))"
  using Controllers_never_panic [OF sample_serves, of "''pool''" "[]" "[]" "[]" "[]" "[]"] by blast

end
