(* ===== verification/TenantsSafe.thy ===== *)
theory TenantsSafe
  imports ControllersSafe WorkerNode AccountProps
begin

text \<open>
  When the controllers of worker nodes, devices and accounts panic.  Each has sites where it does: a
  node that is not found or has no labels, an empty list of devices, a service without ports, an update
  refused by the server.  With the answers that avoid them these controllers never panic: they provide
  the interface \<open>safe_controller\<close> too.
\<close>

section \<open>Rules for their steps\<close>

lemma always_HasLocal: "always ready (\<lambda>_. ready) (HasLocal k)"
  unfolding HasLocal_def by (rule always_gets)

lemma always_Get_display: "always ready (\<lambda>_. ready) (onDisplayVars (rj_GetString k))"
  by (auto simp: always_def onDisplayVars_def rj_GetString_result ready_def well_formed_def obj_ok_def)

lemma always_Pair: "always P (\<lambda>_. P) (Pair (Ret a))"
  by (simp add: always_def)

lemma always_given: "(b \<Longrightarrow> always P Q m) \<Longrightarrow> always (\<lambda>t. b \<and> P t) Q m"
  by (auto simp: always_def)

lemma always_list: "(xs = [] \<Longrightarrow> always P Q m) \<Longrightarrow> (\<And>y ys. xs = y # ys \<Longrightarrow> always P Q (n y ys))
    \<Longrightarrow> always P Q (case xs of [] \<Rightarrow> m | y # ys \<Rightarrow> n y ys)"
  by (cases xs) auto

lemma always_pair: "(\<And>a b. p = (a, b) \<Longrightarrow> always P Q (m a b)) \<Longrightarrow> always P Q (case p of (a, b) \<Rightarrow> m a b)"
  by (cases p) auto

lemma always_forA: "(\<And>x. x \<in> set xs \<Longrightarrow> always P (\<lambda>_. P) (f x)) \<Longrightarrow> always P (\<lambda>_. P) (forA xs f)"
  by (induction xs) (auto intro: always_ret always_andThen)

lemma always_exec: "always ready (\<lambda>_. ready) (ExecCmd E cmd)"
  unfolding ExecCmd_def by (intro always_sum ready_andThen always_ask(2) always_ret_ready)

lemma steps_FailWithOpError: "serves_ok E \<Longrightarrow> steps (FailWithOpError E (Some e) cs)"
  by (rule stops_ready [OF stops_FailWithOpError])

lemma ready_asked: "(\<And>h. always ready Q (k (f (h @ [ev])))) \<Longrightarrow> always ready Q (andThen (ask ev f) k)"
  by (fastforce simp: always_def ask_def andThen_apply ready_def well_formed_def)

text \<open>A server that keeps the checks it is sent.\<close>

definition keeps_checks :: "('sp, 'ev, 'z) kenv_scheme \<Rightarrow> bool" where
  "keeps_checks E \<longleftrightarrow> (\<forall>h x y. st_Checks (r_status x) \<noteq> None \<longrightarrow> k_status_update E (h @ [EStatusUpdate x]) = Inr y
     \<longrightarrow> st_Checks (r_status y) \<noteq> None)"

lemma answered_ready: "serves_ok E \<Longrightarrow> keeps_checks E \<Longrightarrow> ready s \<Longrightarrow> ready (answered E s)"
  using answered_ok [of E s] by (auto simp: ready_def answered_def keeps_checks_def Let_def split: sum.split)

lemma always_UpdateStatus:
  assumes "serves_ok E" and "keeps_checks E"
  shows "always ready (\<lambda>r t. \<not> ShouldProceed r \<and> ready t) (UpdateStatus E)"
proof (rule alwaysI)
  fix s :: "('a, 'b, 'd) rstate"
  assume s: "ready s"
  then have ok: "rj_ok (st_Message (r_status (rs_obj s)))" by (simp add: ready_def well_formed_def obj_ok_def)
  let ?t = "\<lambda>j. updStatus (\<lambda>st. st\<lparr>st_LastReconcileTime := k_now E (rs_hist s), st_Message := j\<rparr>) s"
  obtain j where run: "UpdateStatus E s = (Ret (case answer E (?t j) of Some e \<Rightarrow> Err New (Some e) | None \<Rightarrow> New), answered E (?t j))"
      and "cleared (passing (gm_entries (st_Checks (r_status (rs_obj s))))) (st_Message (r_status (rs_obj s))) j"
    using UpdateStatus_run [OF ok, of E] unfolding Let_def by blast
  then have "rj_ok j" by (simp add: cleared_def)
  with s have "ready (?t j)" by (simp add: ready_def well_formed_def obj_ok_def updStatus_def)
  from answered_ready [OF assms this] run show "\<exists>r t. UpdateStatus E s = (Ret r, t) \<and> \<not> ShouldProceed r \<and> ready t"
    by (auto split: option.split)
qed

lemma always_UpdateStatus_ready: "serves_ok E \<Longrightarrow> keeps_checks E \<Longrightarrow> always ready (\<lambda>_. ready) (UpdateStatus E)"
  by (rule always_mono [OF always_UpdateStatus]) auto

section \<open>Worker nodes\<close>

text \<open>A node that is found has labels, and a missing one is never attached: all exist, or no command succeeds.\<close>

definition nodes_answered :: "wn_env \<Rightarrow> bool" where
  "nodes_answered E \<longleftrightarrow> (\<forall>h labels. we_node E h = Inr labels \<longrightarrow> labels \<noteq> None)
     \<and> ((\<forall>h e. we_node E h = Inl e \<longrightarrow> \<not> IsNotFound e) \<or> (\<forall>h out. k_exec E h \<noteq> ExecOk out))"

lemma wn_reads: "always ready (\<lambda>_. ready) (GetOutputs E dir)" "always ready (\<lambda>_. ready) (apply_job E b)"
    "always ready (\<lambda>_. ready) (createNode E)" "always ready (\<lambda>_. ready) (GetOutput E dir key)"
  unfolding GetOutput_def GetOutputs_def apply_job_def getJobCrd_def createNode_def by (intro ready_intros)+

lemma WorkerNode_fin: "serves_ok E \<Longrightarrow> always ready (\<lambda>_ _. True) (WorkerNode_finalize E)"
  unfolding WorkerNode_finalize_def deleteNode_def
  by (rule any_stops, intro ready_intros wn_reads stops_Finalize always_mono [OF stops_FailWithStatusError]) (auto simp: ready_def)

lemma attach_fails:
  assumes "\<And>h out. k_exec E h \<noteq> ExecOk out"
  shows "always ready (\<lambda>err t. err \<noteq> None \<and> ready t) (attachNode E)"
proof -
  have cmd: "always ready (\<lambda>r t. (\<exists>e. r = Inl e) \<and> ready t) (ExecCmd E c)" for c
    unfolding ExecCmd_def
    by (intro always_sum ready_asked always_ret) (auto split: exec_result.split simp: assms)
  have att: "always ready (\<lambda>err t. err \<noteq> None \<and> ready t) (andThen (ExecCmd E c) (\<lambda>r. case r of Inl e \<Rightarrow> ret (Some e) | Inr x \<Rightarrow> ret None))" for c
    by (rule always_andThen [OF cmd]) (auto simp: always_def ret_def split: sum.split)
  show ?thesis
    unfolding attachNode_def
    by (intro ready_andThen [OF always_gets] ready_andThen [OF always_GetLocal] ready_andThen [OF wn_reads(4)]
        always_option always_sum always_ret att) auto
qed

lemma WorkerNode_attached_steps:
  assumes "nodes_answered E"
  shows "steps (ensureNodeAttached E)"
proof -
  have labels: "we_node E h = Inr labels \<Longrightarrow> labels \<noteq> None" for h labels
    using assms unfolding nodes_answered_def by blast
  have "steps (andThen (attachNode E) (\<lambda>err. case err of
      Some e \<Rightarrow> CheckFailed E NodeAttached c (errmsg e) | None \<Rightarrow> crash x))"
    if "we_node E h = Inl e" "\<not> \<not> IsNotFound e" for h e c x
  proof -
    have "\<And>h out. k_exec E h \<noteq> ExecOk out" using assms that unfolding nodes_answered_def by blast
    then show ?thesis
      by (intro always_andThen [OF attach_fails] always_given) (auto intro: steps_CheckFailed)
  qed
  then show ?thesis
    unfolding ensureNodeAttached_def Let_def
    by (intro ready_andThen [OF always_gets] ready_asked always_sum always_if steps_CheckFailed)
      (blast | (intro ready_intros; blast dest: labels))+
qed

lemma WorkerNode_body: "nodes_answered E \<Longrightarrow> always ready (\<lambda>_ _. True) (WorkerNode_steps E)"
  unfolding WorkerNode_steps_def WorkerNode_fetchRequired_def ensureNodeCreated_def Let_def
  by (intro steps_andStep WorkerNode_attached_steps always_complete ready_intros always_SetLocal wn_reads steps_Next)

interpretation wn_safe: safe_controller WorkerNode_methods "[NodeCreated, NodeAttached]" WorkerNode_finalize WorkerNode_steps
    "\<lambda>E. serves_ok E \<and> nodes_answered E"
  by unfold_locales (simp_all add: WorkerNode_fin WorkerNode_body)

section \<open>Devices\<close>

text \<open>The devices of the account are listed, the device itself at least, and the accounts read are well-formed.\<close>

definition devices_listed :: "dv_env \<Rightarrow> bool" where
  "devices_listed E \<longleftrightarrow> (\<forall>h. dv_devices E h \<noteq> Inr []) \<and> (\<forall>h a. dv_account E h = Inr a \<longrightarrow> obj_ok a)"

lemma on_value_safe: "rj_ok j \<Longrightarrow> always ready (\<lambda>r t. rj_ok (snd r) \<and> ready t) (on_value (rj_GetString k) j)"
  by (auto simp: always_def on_value_def rj_GetString_result)

lemma server_configs_safe: "rj_ok vars \<Longrightarrow> always ready (\<lambda>_. ready) (server_configs obj gs vars)"
proof (induction gs arbitrary: vars)
  case (Cons g gs)
  show ?case
    by (simp, rule always_andThen [OF on_value_safe [OF Cons.prems]], rule alwaysI)
      (auto simp: always_def andThen_apply ret_def elim!: alwaysE [OF Cons.IH])
qed (simp add: always_ret)

lemma KubectlApply_safe: "always ready (\<lambda>_. ready) (KubectlApply E doc)"
  unfolding KubectlApply_def by (intro ready_intros)

lemma writeConfigs_safe:
  assumes "devices_listed E"
  shows "always ready (\<lambda>_. ready) (writeConfigs E gs dns pv ip)"
proof -
  have ok: "rj_ok (st_DisplayVars (r_status a))" if "dv_account E h = Inr a" for h a
    using assms that unfolding devices_listed_def obj_ok_def by blast
  show ?thesis
    unfolding writeConfigs_def
    by (intro ready_andThen [OF always_gets] ready_asked always_sum always_ret_ready always_andThen [OF on_value_safe]
        always_given always_pair always_option ready_andThen [OF server_configs_safe] KubectlApply_safe; simp add: ok)
qed

lemma Device_reads: "always ready (\<lambda>_. ready) (updateServices E)" "always ready (\<lambda>_. ready) (run_kubectl E args)"
  unfolding updateServices_def run_kubectl_def by (intro ready_intros)+

lemma updateServices_errs: "always ready (\<lambda>r t. r \<noteq> None \<and> ready t) (updateServices E)"
  unfolding updateServices_def
  by (intro ready_andThen [OF always_gets] ready_asked always_sum always_option always_ret) simp_all

lemma Device_dns:
  assumes "devices_listed E"
  shows "always ready (\<lambda>_. ready) (updateDns E)" "steps (Device_reconDnsRewriteRules E)"
proof -
  show dns: "always ready (\<lambda>_. ready) (updateDns E)"
    unfolding updateDns_def Let_def by (intro ready_intros always_GetLocal Device_reads)
  have "dv_devices E h \<noteq> Inr []" for h using assms unfolding devices_listed_def by blast
  then show "steps (Device_reconDnsRewriteRules E)"
    unfolding Device_reconDnsRewriteRules_def Let_def
    by (intro ready_andThen [OF always_gets] ready_andThen [OF always_GetLocal] ready_asked always_sum always_list
        ready_intros always_SetLocal dns) (metis)+
qed

lemma Device_services: "steps (Device_reconSyncServices E)"
proof -
  have upd: "steps (andThen (updateServices E) (\<lambda>err. case err of Some e \<Rightarrow> CheckFailed E ServicesSynced c (errmsg e) | None \<Rightarrow> crash x))" for c x
    by (rule always_andThen [OF updateServices_errs], rule always_given) (auto intro: steps_CheckFailed)
  show ?thesis
    unfolding Device_reconSyncServices_def Let_def
    by (intro ready_andThen [OF always_gets] ready_andThen [OF always_ask(2)] always_sum always_if steps_CheckFailed upd)
      (intro ready_intros Device_reads)
qed

lemma Device_body:
  assumes "serves_ok E" and "devices_listed E"
  shows "always ready (\<lambda>_ _. True) (Device_steps E)"
  unfolding Device_steps_def Device_fetchRequired_def Device_reconWgKeys_def Device_reconDeviceConfig_def Let_def
  by (intro steps_andStep always_complete Device_services Device_dns assms ready_intros always_list always_pair always_SetLocal
      always_GetLocal always_HasLocal KubectlApply_safe writeConfigs_safe steps_FailWithOpError steps_Next)

interpretation dv_safe: safe_controller "Device_methods ip" "[WgKeysReady, ServicesSynced, DnsRewriteRulesSynced, deviceConfigSynced]"
    Device_finalize Device_steps "\<lambda>E. serves_ok E \<and> devices_listed E" for ip
  by unfold_locales (simp_all add: Device_finalize_def any_stops [OF stops_Finalize] Device_body)

section \<open>Accounts\<close>

text \<open>The services of the wireguard servers have ports, and the server accepts the updates of the configurations.\<close>

definition account_answers :: "ac_env \<Rightarrow> bool" where
  "account_answers E \<longleftrightarrow> (\<forall>h svcs. ac_services E h = Inr svcs \<longrightarrow> (\<forall>svc \<in> set svcs. ws_NodePorts svc \<noteq> []))
     \<and> (\<forall>h ns n d. ac_write E (h @ [ECall (ACUpdateSecret ns n d)]) = None)
     \<and> (\<forall>h ns n os d. ac_write E (h @ [ECall (ACUpdateConfigMap ns n os d)]) = None)"

lemma account_answersD:
  assumes "account_answers E"
  shows "svc \<in> set (found (ac_services E h)) \<Longrightarrow> ws_NodePorts svc \<noteq> []"
    and "ac_write E (h @ [ECall (ACUpdateSecret ns n d)]) = None"
    and "ac_write E (h @ [ECall (ACUpdateConfigMap ns n os doc)]) = None"
  using assms unfolding account_answers_def found_def by (cases "ac_services E h"; simp)+

lemma steps_settleAndGo:
  assumes "serves_ok E" and "keeps_checks E"
  shows "steps (settleAndGo E name c)"
proof -
  have "always ready (\<lambda>_. ready) (putCheck name c')" for c'
    by (auto simp: always_def putCheck_def andThen_apply ready_def well_formed_def obj_ok_def updStatus_def gm_put_def split: option.split)
  then show ?thesis
    unfolding settleAndGo_def Let_def
    by (intro ready_andThen always_getStatus always_if always_UpdateStatus_ready assms steps_Next)
qed

lemma post_all_safe: "always ready (\<lambda>_. ready) (post_all E port body devices regions)"
  unfolding post_all_def by (intro ready_intros always_forA)

lemma write_server_config_safe:
  assumes "serves_ok E" and "keeps_checks E" and "account_answers E"
  shows "steps (write_server_config E check err body)"
  unfolding write_server_config_def
  by (intro ready_andThen [OF always_gets] ready_asked always_if ready_intros always_GetLocal post_all_safe
      steps_settleAndGo assms) (simp add: account_answersD [OF assms(3)])

lemma write_proxy_config_safe:
  assumes "account_answers E"
  shows "steps (write_proxy_config E check devices configs)"
  unfolding write_proxy_config_def Let_def
  by (intro ready_andThen [OF always_gets] ready_asked always_if ready_intros always_GetLocal post_all_safe)
    (simp add: account_answersD [OF assms])

lemma update_regions_safe: "always ready (\<lambda>_. ready) (update_regions E obj deploys devices gs)"
  by (induction gs) (auto intro!: ready_intros always_Pair)

lemma record_ports_safe: "\<forall>svc \<in> set svcs. ws_NodePorts svc \<noteq> [] \<Longrightarrow> always ready (\<lambda>_. ready) (record_ports svcs b)"
  by (induction svcs arbitrary: b)
    (auto intro!: ready_intros always_Pair always_Set_display always_Get_display split: list.split option.split)

lemma Account_deployments_steps:
  assumes "serves_ok E" and "keeps_checks E" and "account_answers E"
  shows "steps (Account_reconDeployments E)"
  unfolding Account_reconDeployments_def updateDeployments_def Let_def
  by (intro ready_andThen [OF always_gets] ready_andThen [OF always_GetLocal] ready_asked ready_intros update_regions_safe
     record_ports_safe ballI account_answersD(1) [OF assms(3)] always_UpdateStatus_ready assms(1,2))

lemma Account_body:
  assumes "serves_ok E" and "keeps_checks E" and "account_answers E"
  shows "always ready (\<lambda>_ _. True) (Account_steps E)"
  unfolding Account_steps_def Account_reconNamespace_def Account_fetchRequired_def Account_reconWGServerKey_def
    Account_reconWGServerConfig_def Account_reconDevProxyConfig_def Account_reconCoredns_def Let_def
  by (intro steps_andStep always_complete Account_deployments_steps assms ready_intros always_pair always_SetLocal
      always_GetLocal always_Get_display always_Set_display steps_settleAndGo always_UpdateStatus_ready
      write_server_config_safe write_proxy_config_safe steps_Next)

interpretation ac_safe: safe_controller Account_methods
    "[AccountNSReady, AccountWGSKeysReady, AccountWGSConfigReady, DeviceProxyReady, WGDeploysReady, CorednsDeployReady]"
    Account_finalize Account_steps "\<lambda>E. serves_ok E \<and> keeps_checks E \<and> account_answers E"
  by unfold_locales (simp_all add: Account_finalize_def any_stops [OF stops_Finalize] Account_body)

section \<open>Properties\<close>


definition failing_wn_env :: wn_env where
  "failing_wn_env = holding (rs_obj (sample_wn [])) ((sample_wn_env (\<lambda>_. None) no_node ''{}'')\<lparr>k_exec := (\<lambda>_. ExecFail ''ssh'')\<rparr>)"

definition listing_dv_env :: dv_env where
  "listing_dv_env = holding (rs_obj (sample_dv [])) ((sample_dv_env [] '''')\<lparr>dv_devices := (\<lambda>_. Inr [rs_obj (sample_dv [])])\<rparr>)"

definition quiet_ac_env :: ac_env where
  "quiet_ac_env = holding (rs_obj (sample_ac [])) (sample_ac_env '''' None)"

lemma sample_tenants:
  "serves_ok failing_wn_env" "nodes_answered failing_wn_env" "serves_ok listing_dv_env" "devices_listed listing_dv_env"
  "serves_ok quiet_ac_env" "keeps_checks quiet_ac_env" "account_answers quiet_ac_env"
  by (auto intro!: serves_ok_stored simp: nodes_answered_def devices_listed_def keeps_checks_def account_answers_def holding_def
      failing_wn_env_def listing_dv_env_def quiet_ac_env_def wn_samples no_node_def sample_dv_env_def sample_ac_env_def
      obj_ok_def sample_dv_def sample_ac_def stored_update_def)


end
