(* ===== verification/Tunnel.thy ===== *)
theory Tunnel
  imports RequestTriples AccountProps DeviceProps
begin

text \<open>
  The two ends of a wireguard tunnel: the configuration that the device controller writes for a device
  and the one that the account controller writes for the account's server.  The controllers share the
  secrets of the account's namespace; a relation over these secrets has the passes of both as its
  steps.
\<close>

section \<open>The secrets of the namespace\<close>

record ksecret =
  kc_Name :: string
  kc_Labels :: "(string \<times> string) list"
  kc_Data :: "string gomap"

text \<open>What a lookup may answer: the data of a secret that is there, not found if there is none, or a failure.\<close>

definition answers :: "ksecret list \<Rightarrow> string \<Rightarrow> error + string gomap \<Rightarrow> bool" where
  "answers W n r \<longleftrightarrow> (case r of
     Inr d \<Rightarrow> \<exists>e \<in> set W. kc_Name e = n \<and> kc_Data e = d
   | Inl err \<Rightarrow> IsNotFound err \<longrightarrow> n \<notin> kc_Name ` set W)"

definition is_wg_key :: "ksecret \<Rightarrow> bool" where
  "is_wg_key e \<longleftrightarrow> map_of (kc_Labels e) DeviceWgKey = Some ''true''"

definition device_secrets :: "ksecret list \<Rightarrow> named_secret list" where
  "device_secrets W = map (\<lambda>e. \<lparr>se_Name = kc_Name e, se_Data = kc_Data e\<rparr>) (filter is_wg_key W)"

definition device_keys_name :: "device_spec resource \<Rightarrow> string" where
  "device_keys_name obj = ''wg-device-keys-'' @ om_Name (r_meta obj)"

definition server_keys_name :: string where
  "server_keys_name = ''wg-server-keys''"

text \<open>A secret that holds a key pair.\<close>

definition key_data :: "(string \<Rightarrow> string \<Rightarrow> bool) \<Rightarrow> string gomap \<Rightarrow> bool" where
  "key_data paired d \<longleftrightarrow> (\<exists>pub pv. gm_get d ''public-key'' = Some pub \<and> gm_get d ''private-key'' = Some pv \<and> paired pub pv)"

lemma key_data_str: "key_data paired d \<Longrightarrow> paired (gm_str d ''public-key'') (gm_str d ''private-key'')"
  by (auto simp: key_data_def gm_str_def)

section \<open>The pass of a device\<close>

definition dv_truth :: "ksecret list \<Rightarrow> string \<Rightarrow> dv_env \<Rightarrow> bool" where
  "dv_truth W acc E \<longleftrightarrow> (\<forall>h n. answers W n (dv_secret E (h @ [ECall (DVGetSecret (wg_ns acc) n)])))"

definition dv_paired :: "(string \<Rightarrow> string \<Rightarrow> bool) \<Rightarrow> dv_env \<Rightarrow> bool" where
  "dv_paired paired E \<longleftrightarrow> (\<forall>h pub pv. dv_keys E h = Inr (pub, pv) \<longrightarrow> paired pub pv)"

definition new_keys :: "(string \<Rightarrow> string \<Rightarrow> bool) \<Rightarrow> device_spec resource \<Rightarrow> secret_doc \<Rightarrow> bool" where
  "new_keys paired obj doc \<longleftrightarrow> (\<exists>pub pv ip. doc = keys_doc obj pub pv ip \<and> paired pub pv)"

text \<open>A variable that an account shows in its status.\<close>

definition shown_var :: "account \<Rightarrow> string \<Rightarrow> string option" where
  "shown_var a k = (case fst (rj_GetString k (st_DisplayVars (r_status a))) of Ret v \<Rightarrow> v | Panic _ \<Rightarrow> None)"

abbreviation shown_key :: "account \<Rightarrow> string option" where
  "shown_key a \<equiv> shown_var a ''wg-public-key''"

text \<open>The servers a device is told of: a region that was listed, and the port that the account shows for it.\<close>

definition region_server :: "device_spec resource \<Rightarrow> account \<Rightarrow> region list \<Rightarrow> string \<Rightarrow> string \<Rightarrow> bool" where
  "region_server obj a gs r server \<longleftrightarrow> (\<exists>g \<in> set gs. r = om_Name (r_meta g)
     \<and> (\<exists>port. shown_var a (''wg-nodeport-'' @ r) = Some port \<and> server = endpoint obj g port))"

text \<open>A configuration rendered from the keys of the device, the key the account shows and a listed region.\<close>

definition conf_of :: "ksecret list \<Rightarrow> dv_env \<Rightarrow> device_spec resource \<Rightarrow> string \<Rightarrow> string \<Rightarrow> device_conf \<Rightarrow> bool" where
  "conf_of W E obj file out conf \<longleftrightarrow> dv_render_conf E conf = Inr out
     \<and> (\<exists>e \<in> set W. kc_Name e = device_keys_name obj \<and> dc_DeviceIp conf = gm_str (kc_Data e) ''ip''
          \<and> dc_DevicePvtKey conf = gm_str (kc_Data e) ''private-key'')
     \<and> (\<exists>h a h' gs r. dv_account E h = Inr a \<and> shown_key a = Some (dc_ServerPublicKey conf)
          \<and> dv_regions E h' = Inr gs \<and> file = ''config-'' @ r \<and> region_server obj a gs r (dc_ServerEndpoint conf))"

definition conf_data :: "ksecret list \<Rightarrow> dv_env \<Rightarrow> device_spec resource \<Rightarrow> string gomap \<Rightarrow> bool" where
  "conf_data W E obj d \<longleftrightarrow> (\<forall>(k, out) \<in> set (gm_entries d). \<exists>conf. conf_of W E obj k out conf)"

definition dv_ok :: "(string \<Rightarrow> string \<Rightarrow> bool) \<Rightarrow> ksecret list \<Rightarrow> dv_env \<Rightarrow> device_spec resource
    \<Rightarrow> (device_spec, dv_call) event \<Rightarrow> bool" where
  "dv_ok paired W E obj e \<longleftrightarrow> (case e of
     ECall (DVCreateSecret doc) \<Rightarrow> new_keys paired obj doc \<or> (\<exists>d. doc = config_doc obj d \<and> conf_data W E obj d)
   | ECall (DVUpdateSecret ns n x) \<Rightarrow>
       (\<exists>doc. new_keys paired obj doc \<and> ns = sc_Namespace doc \<and> n = sc_Name doc \<and> x = Some (sc_Data doc))
       \<or> (ns = wg_ns (dv_AccountName (r_spec obj)) \<and> n = ''wg-device-config-'' @ om_Name (r_meta obj)
          \<and> (case x of None \<Rightarrow> True | Some d \<Rightarrow> conf_data W E obj d))
   | _ \<Rightarrow> True)"

lemma dv_ok_simps [simp]:
  "status_ok (dv_ok paired W E obj)" "update_ok (dv_ok paired W E obj)" "exec_ok (dv_ok paired W E obj)"
  "dv_ok paired W E obj (EExec argv)"
  "dv_ok paired W E obj (ECall DVListRegions)" "dv_ok paired W E obj (ECall (DVListDevices l))"
  "dv_ok paired W E obj (ECall (DVGetConfigMap a b))" "dv_ok paired W E obj (ECall (DVGetService a b))"
  "dv_ok paired W E obj (ECall (DVGetSecret a b))" "dv_ok paired W E obj (ECall (DVGetAccount a))"
  "dv_ok paired W E obj (ECall DVGenerateKeys)" "dv_ok paired W E obj (ECall (DVApplyService sd))"
  "dv_ok paired W E obj (ECall (DVApplyDns dd))"
  by (simp_all add: dv_ok_def status_ok_def update_ok_def exec_ok_def)

lemma KubectlApply_during:
  assumes "stable P" and "ok (ECall (DVGetSecret (sc_Namespace doc) (sc_Name doc)))" and "ok (ECall (DVCreateSecret doc))"
    and "ok (ECall (DVUpdateSecret (sc_Namespace doc) (sc_Name doc) (if gm_entries (sc_Data doc) = [] then None else Some (sc_Data doc))))"
  shows "during ok P (\<lambda>_. P) (KubectlApply E doc)"
  unfolding KubectlApply_def
  by (rule during_andThen, rule during_ask [where P = P], rule assms(1), rule assms(2), rule during_sum, rule during_if,
      rule during_ret, assumption) (rule during_ask, rule assms(1), rule assms(3,4))+

text \<open>What a pass knows of the keys once it has read them.\<close>

definition regions_listed :: "dv_env \<Rightarrow> (device_spec, dv_call, dv_local) rstate \<Rightarrow> bool" where
  "regions_listed E s \<longleftrightarrow> (\<forall>gs. map_of (rs_locals s) ''regions'' = Some (LRegions gs) \<longrightarrow> (\<exists>h. dv_regions E h = Inr gs))"

definition begun :: "dv_env \<Rightarrow> device_spec resource \<Rightarrow> (device_spec, dv_call, dv_local) rstate \<Rightarrow> bool" where
  "begun E obj s \<longleftrightarrow> rs_obj s = obj \<and> regions_listed E s"

definition keyed :: "ksecret list \<Rightarrow> dv_env \<Rightarrow> device_spec resource \<Rightarrow> (device_spec, dv_call, dv_local) rstate \<Rightarrow> bool" where
  "keyed W E obj s \<longleftrightarrow> begun E obj s \<and> (\<exists>e \<in> set W. kc_Name e = device_keys_name obj
     \<and> map_of (rs_locals s) ''device-ip'' = Some (LString (gm_str (kc_Data e) ''ip''))
     \<and> map_of (rs_locals s) ''device-privatekey'' = Some (LString (gm_str (kc_Data e) ''private-key'')))"

lemma stable_keyed [simp]: "stable (begun E obj)" "stable (keyed W E obj)"
  by (simp_all add: stable_def keyed_def begun_def regions_listed_def)

lemma begun_obj: "begun E obj s \<Longrightarrow> rs_obj s = obj"
  by (simp add: begun_def)

lemma keyed_obj: "keyed W E obj s \<Longrightarrow> rs_obj s = obj"
  by (simp add: keyed_def begun_def)

lemma begun_SetLocal:
  "begun E obj s \<Longrightarrow> k \<noteq> ''regions'' \<Longrightarrow> begun E obj (s\<lparr>rs_locals := AList.update k v (rs_locals s)\<rparr>)"
  by (auto simp: begun_def regions_listed_def update_conv')

lemma keyed_SetLocal:
  "keyed W E obj s \<Longrightarrow> k \<noteq> ''device-ip'' \<Longrightarrow> k \<noteq> ''device-privatekey'' \<Longrightarrow> k \<noteq> ''regions''
    \<Longrightarrow> keyed W E obj (s\<lparr>rs_locals := AList.update k v (rs_locals s)\<rparr>)"
  by (auto simp: keyed_def update_conv' intro: begun_SetLocal)

lemma set_begun: "k \<noteq> ''regions'' \<Longrightarrow> during ok (begun E obj) (\<lambda>_. begun E obj) (SetLocal k v)"
  by (rule during_SetLocal) (rule begun_SetLocal)

lemma set_regions: "dv_regions E h = Inr gs \<Longrightarrow> during ok (begun E obj) (\<lambda>_. begun E obj) (SetLocal ''regions'' (LRegions gs))"
  by (rule during_SetLocal) (auto simp: begun_def regions_listed_def update_conv')

lemma fetch_one:
  assumes "ok (ECall c)" and "\<And>h. during ok (begun E obj) (\<lambda>_. begun E obj) (f (g (h @ [ECall c])))" and "goes_on ok (begun E obj) k"
  shows "goes_on ok (begun E obj) (andThen (ask (ECall c) g) (\<lambda>x. andThen (f x) (\<lambda>_. k)))"
  by (rule during_andThen, rule during_ask_result [where P = "begun E obj"], simp, rule assms(1), rule during_conj, erule exE,
      rule during_andThen) (use assms(2,3) in auto)

lemma fetch_keeps: "goes_on (dv_ok paired W E obj) (begun E obj) (Device_fetchRequired E)"
  unfolding Device_fetchRequired_def Let_def
  by (rule during_obj [OF begun_obj], assumption, intro fetch_one goes_on_Next)
    (auto intro: set_begun set_regions during_ret during_Pair split: sum.split list.split)

lemma WgKeys_keyed:
  assumes "dv_truth W (dv_AccountName (r_spec obj)) E" and "dv_paired paired E"
  shows "during (dv_ok paired W E obj) (begun E obj) (\<lambda>r s. ShouldProceed r \<longrightarrow> keyed W E obj s) (Device_reconWgKeys E)"
proof -
  let ?ok = "dv_ok paired W E obj" and ?get = "ECall (DVGetSecret (wg_ns (dv_AccountName (r_spec obj))) (device_keys_name obj))"
  have create: "during ?ok (begun E obj) (\<lambda>r s. ShouldProceed r \<longrightarrow> keyed W E obj s)
      (andThen (KubectlApply E (keys_doc obj pub pv ip)) (\<lambda>err. case err of
         Some e \<Rightarrow> CheckFailed E WgKeysReady c (errmsg e) | None \<Rightarrow> CheckFailed E WgKeysReady c m))"
    if "paired pub pv" for pub pv ip c m
  proof (rule during_andThen [OF KubectlApply_during])
    have new: "new_keys paired obj (keys_doc obj pub pv ip)" using that by (auto simp: new_keys_def)
    have ne: "gm_entries (sc_Data (keys_doc obj pub pv ip)) \<noteq> []" by (simp add: keys_doc_def)
    show "?ok (ECall (DVCreateSecret (keys_doc obj pub pv ip)))" using new by (simp add: dv_ok_def)
    show "?ok (ECall (DVUpdateSecret (sc_Namespace (keys_doc obj pub pv ip)) (sc_Name (keys_doc obj pub pv ip))
       (if gm_entries (sc_Data (keys_doc obj pub pv ip)) = [] then None else Some (sc_Data (keys_doc obj pub pv ip)))))"
      unfolding if_not_P [OF ne] dv_ok_def using new by auto
  qed (auto intro!: during_option ends_stops ends_CheckFailed)
  have make: "during ?ok (begun E obj) (\<lambda>r s. ShouldProceed r \<longrightarrow> keyed W E obj s)
     (andThen (ask (ECall DVGenerateKeys) (dv_keys E)) (\<lambda>r. case r of
           Inl e \<Rightarrow> FailWithOpError E (Some e) []
         | Inr (pub, pv) \<Rightarrow> (case getRemoteDeviceIp (dv_ip E) (dv_Offset (r_spec obj)) of
             Inl e \<Rightarrow> FailWithOpError E (Some e) []
           | Inr ip \<Rightarrow> andThen (KubectlApply E (keys_doc obj pub pv ip)) (\<lambda>err. case err of
               Some e \<Rightarrow> CheckFailed E WgKeysReady c (errmsg e) | None \<Rightarrow> CheckFailed E WgKeysReady c m))))" for c m
  proof (rule during_andThen [OF during_ask_result])
    fix r
    have "paired pub pv" if "dv_keys E h = Inr (pub, pv)" for h pub pv
      using that assms(2) by (simp add: dv_paired_def)
    then show "during ?ok (\<lambda>s. begun E obj s \<and> (\<exists>h. r = dv_keys E (h @ [ECall DVGenerateKeys])))
       (\<lambda>r s. ShouldProceed r \<longrightarrow> keyed W E obj s) (case r of
           Inl e \<Rightarrow> FailWithOpError E (Some e) []
         | Inr (pub, pv) \<Rightarrow> (case getRemoteDeviceIp (dv_ip E) (dv_Offset (r_spec obj)) of
             Inl e \<Rightarrow> FailWithOpError E (Some e) []
           | Inr ip \<Rightarrow> andThen (KubectlApply E (keys_doc obj pub pv ip)) (\<lambda>err. case err of
               Some e \<Rightarrow> CheckFailed E WgKeysReady c (errmsg e) | None \<Rightarrow> CheckFailed E WgKeysReady c m)))"
      unfolding conj_commute [of "begun E obj _"]
      by (intro during_pre) (auto intro!: stops_FailWithOpError_during create split: sum.split)
  qed simp_all
  have found: "during ?ok (begun E obj) (\<lambda>r s. ShouldProceed r \<longrightarrow> keyed W E obj s)
      (andThen (SetLocal ''device-ip'' (LString (gm_str secret ''ip''))) (\<lambda>_.
       andThen (SetLocal ''device-publickey'' (LString (gm_str secret ''public-key''))) (\<lambda>_.
       andThen (SetLocal ''device-privatekey'' (LString (gm_str secret ''private-key''))) (\<lambda>_.
       settleCheck E WgKeysReady c))))"
    if "e \<in> set W" "kc_Name e = device_keys_name obj" "kc_Data e = secret" for e secret c
  proof -
    let ?P = "\<lambda>s. begun E obj s \<and> map_of (rs_locals s) ''device-ip'' = Some (LString (gm_str secret ''ip''))"
    have 1: "during ?ok (begun E obj) (\<lambda>_. ?P) (SetLocal ''device-ip'' (LString (gm_str secret ''ip'')))"
      by (rule during_SetLocal) (simp add: update_conv' begun_SetLocal)
    have 2: "during ?ok ?P (\<lambda>_. ?P) (SetLocal ''device-publickey'' (LString (gm_str secret ''public-key'')))"
      by (rule during_SetLocal) (simp add: update_conv' begun_SetLocal)
    have 3: "during ?ok ?P (\<lambda>_. keyed W E obj) (SetLocal ''device-privatekey'' (LString (gm_str secret ''private-key'')))"
      by (rule during_SetLocal) (use that in \<open>auto simp: update_conv' keyed_def begun_SetLocal\<close>)
    show ?thesis
      by (rule during_andThen [OF 1], rule during_andThen [OF 2], rule during_andThen [OF 3], rule goes_on_settleCheck) simp
  qed
  have there: "\<exists>e \<in> set W. kc_Name e = device_keys_name obj \<and> kc_Data e = secret"
    if "dv_secret E (h @ [?get]) = Inr secret" for h secret
  proof -
    have "answers W (device_keys_name obj) (dv_secret E (h @ [?get]))" using assms(1) by (simp add: dv_truth_def)
    then show ?thesis using that by (simp add: answers_def)
  qed
  have have_found: "during ?ok (begun E obj) (\<lambda>r s. ShouldProceed r \<longrightarrow> keyed W E obj s)
      (andThen (SetLocal ''device-ip'' (LString (gm_str secret ''ip''))) (\<lambda>_.
       andThen (SetLocal ''device-publickey'' (LString (gm_str secret ''public-key''))) (\<lambda>_.
       andThen (SetLocal ''device-privatekey'' (LString (gm_str secret ''private-key''))) (\<lambda>_.
       settleCheck E WgKeysReady c))))" if "dv_secret E (h @ [?get]) = Inr secret" for h secret c
    using there [OF that] found by blast
  show ?thesis
    unfolding Device_reconWgKeys_def Let_def device_keys_name_def [symmetric]
    by (rule during_obj [OF begun_obj], assumption, rule during_andThen [OF during_ask_result], simp, simp, rule during_conj, erule exE,
        rule during_sum, rule during_if, rule ends_stops, rule ends_CheckFailed, simp, rule make, rule have_found, simp)
qed

lemma updateServices_keeps: "during (dv_ok paired W E obj) (keyed W E obj) (\<lambda>_. keyed W E obj) (updateServices E)"
  unfolding updateServices_def
  by (rule during_obj [OF keyed_obj], assumption, rule during_andThen [OF during_ask [where P = "keyed W E obj"]], simp, simp,
      intro during_sum during_option during_ret during_andThen [OF during_ask [where P = "keyed W E obj"]]) simp_all

lemma SyncServices_keeps: "goes_on (dv_ok paired W E obj) (keyed W E obj) (Device_reconSyncServices E)"
  unfolding Device_reconSyncServices_def Let_def
  by (rule during_obj [OF keyed_obj], assumption, rule during_andThen [OF during_ask [where P = "keyed W E obj"]], simp, simp,
      rule during_sum, rule during_if, rule goes_on_CheckFailed, simp, rule during_andThen [OF updateServices_keeps],
      rule during_option, rule during_crash, rule goes_on_CheckFailed, simp, rule during_andThen [where R = "\<lambda>_. keyed W E obj"],
      rule during_if, rule updateServices_keeps, rule during_ret, assumption, rule during_option, rule goes_on_settleCheck, simp,
      rule goes_on_CheckFailed) simp

lemma keyed_set: "during ok (keyed W E obj) (\<lambda>_. keyed W E obj) (SetLocal k v)"
  if "k \<noteq> ''device-ip''" "k \<noteq> ''device-privatekey''" "k \<noteq> ''regions''"
  using that by (intro during_SetLocal keyed_SetLocal)

lemma keyed_get: "during ok (keyed W E obj) (\<lambda>_. keyed W E obj) (GetLocal prj k)"
  by (rule during_mono [OF during_GetLocal]) auto

lemma run_kubectl_keeps: "stable P \<Longrightarrow> ok (EExec (''kubectl'' # args)) \<Longrightarrow> during ok P (\<lambda>_. P) (run_kubectl E args)"
  unfolding run_kubectl_def by (rule during_andThen, rule during_ask [where P = P], assumption, assumption, rule during_ret)

lemma updateDns_keeps: "during (dv_ok paired W E obj) (keyed W E obj) (\<lambda>_. keyed W E obj) (updateDns E)"
  unfolding updateDns_def Let_def
  by (rule during_obj [OF keyed_obj], assumption, rule during_andThen [OF during_ask [where P = "keyed W E obj"]], simp, simp,
      rule during_sum, rule during_ret, assumption, rule during_andThen [OF keyed_get], rule during_option, rule during_ret,
      assumption, rule during_andThen [OF during_ask [where P = "keyed W E obj"]], simp, simp, rule during_sum, rule during_ret,
      assumption, rule during_option, rule during_andThen [OF during_ask [where P = "keyed W E obj"]], simp, simp,
      rule during_option, rule run_kubectl_keeps) (simp_all add: during_ret during_Pair)

lemma Dns_keeps: "goes_on (dv_ok paired W E obj) (keyed W E obj) (Device_reconDnsRewriteRules E)"
proof -
  let ?ok = "dv_ok paired W E obj"
  have some: "goes_on ?ok (keyed W E obj) (andThen (SetLocal ''devices'' (LDevices ds)) (\<lambda>_.
         andThen (if b then ret None else updateDns E) (\<lambda>err. case err of
           Some e \<Rightarrow> CheckFailed E DnsRewriteRulesSynced c (errmsg e)
         | None \<Rightarrow> settleCheck E DnsRewriteRulesSynced c)))" for ds b c
    by (rule during_andThen [OF keyed_set], simp, simp, simp, rule during_andThen [where R = "\<lambda>_. keyed W E obj"],
        rule during_if, rule during_ret, assumption, rule updateDns_keeps, rule during_option, rule goes_on_settleCheck, simp,
        rule goes_on_CheckFailed, simp)
  show ?thesis
    unfolding Device_reconDnsRewriteRules_def Let_def
    by (rule during_obj [OF keyed_obj], assumption, rule during_andThen [OF keyed_get],
        rule during_andThen [OF during_ask [where P = "keyed W E obj"]], simp, simp, rule during_sum, rule during_if,
        rule goes_on_CheckFailed, simp, rule goes_on_CheckFailed, simp, rule during_list, rule during_crash, rule some)
qed

text \<open>The configurations are rendered from the values handed in.\<close>

lemma set_update_cases: "x \<in> set (AList.update k v xs) \<Longrightarrow> x = (k, v) \<or> x \<in> set xs"
  by (induction xs) (auto split: if_splits)

lemma render_configs_from:
  assumes "(k, out) \<in> set (gm_entries (render_configs E ip key pub dns servers m))"
  shows "(k, out) \<in> set (gm_entries m) \<or> (\<exists>conf r. dv_render_conf E conf = Inr out \<and> dc_DeviceIp conf = ip
    \<and> dc_DevicePvtKey conf = key \<and> dc_ServerPublicKey conf = pub \<and> k = ''config-'' @ r \<and> (r, dc_ServerEndpoint conf) \<in> set servers)"
  using assms
proof (induction servers arbitrary: m)
  case (Cons sv servers)
  obtain region srv where sv: "sv = (region, srv)" by (cases sv)
  let ?conf = "\<lparr>dc_DeviceIp = ip, dc_DevicePvtKey = key, dc_ServerPublicKey = pub, dc_ServerEndpoint = srv,
    dc_RewriteRules = dns, dc_PodCidr = dv_PodCidr E, dc_SvcCidr = dv_SvcCidr E\<rparr>"
  show ?case
  proof (cases "dv_render_conf E ?conf")
    case (Inl e)
    then show ?thesis using Cons by (simp add: sv) blast
  next
    case (Inr conf_text)
    from Cons.IH [of "gm_put (''config-'' @ region) conf_text m"] Cons.prems Inr
    consider "(k, out) \<in> set (gm_entries (gm_put (''config-'' @ region) conf_text m))"
      | "\<exists>conf r. dv_render_conf E conf = Inr out \<and> dc_DeviceIp conf = ip \<and> dc_DevicePvtKey conf = key
          \<and> dc_ServerPublicKey conf = pub \<and> k = ''config-'' @ r \<and> (r, dc_ServerEndpoint conf) \<in> set servers"
      by (auto simp: sv)
    then show ?thesis
    proof cases
      case 1
      then have "(k, out) \<in> set (gm_entries m) \<or> k = ''config-'' @ region \<and> out = conf_text"
        using set_update_cases by (fastforce simp: gm_put_def)
      then show ?thesis using Inr by (fastforce simp: sv)
    next
      case 2
      then show ?thesis by (auto simp: sv)
    qed
  qed
qed simp

definition has_keys :: "ksecret \<Rightarrow> dv_env \<Rightarrow> device_spec resource \<Rightarrow> (device_spec, dv_call, dv_local) rstate \<Rightarrow> bool" where
  "has_keys e E obj s \<longleftrightarrow> begun E obj s \<and> map_of (rs_locals s) ''device-ip'' = Some (LString (gm_str (kc_Data e) ''ip''))
     \<and> map_of (rs_locals s) ''device-privatekey'' = Some (LString (gm_str (kc_Data e) ''private-key''))"

lemma keyed_iff: "keyed W E obj s \<longleftrightarrow> (\<exists>e \<in> set W. kc_Name e = device_keys_name obj \<and> has_keys e E obj s)"
  by (auto simp: keyed_def has_keys_def)

lemma stable_has_keys [simp]: "stable (has_keys e E obj)"
  by (simp add: stable_def has_keys_def begun_def regions_listed_def)

lemma has_keys_obj: "has_keys e E obj s \<Longrightarrow> rs_obj s = obj"
  by (simp add: has_keys_def begun_def)

lemma on_value_keeps: "during ok P (\<lambda>x s. P s \<and> m j = (Ret (fst x), snd x)) (on_value m j)"
  by (rule duringI) (auto simp: on_value_def emits_refl split: prod.splits res.splits)

text \<open>Reading a variable decodes the object the first time, which changes no later answer.\<close>

definition reads_as :: "account \<Rightarrow> rawjson \<Rightarrow> bool" where
  "reads_as a v \<longleftrightarrow> (\<forall>k x v'. rj_GetString k v = (Ret x, v') \<longrightarrow> shown_var a k = x)"

lemma reads_as_start: "reads_as a (st_DisplayVars (r_status a))"
  by (simp add: reads_as_def shown_var_def)

lemma fillMap_again: "rj_fillMap v = (Ret (), w) \<Longrightarrow> rj_fillMap w = (Ret (), w)"
  by (auto simp: rj_fillMap_def split: option.splits sum.splits)

lemma GetString_again: "rj_GetString k v = (Ret x, w) \<Longrightarrow> fst (rj_GetString k' w) = fst (rj_GetString k' v)"
  by (auto simp: rj_GetString_def andThen_apply gets_def fillMap_again split: prod.splits res.splits)

lemma reads_as_step: "reads_as a v \<Longrightarrow> rj_GetString k v = (Ret x, w) \<Longrightarrow> reads_as a w"
  unfolding reads_as_def using GetString_again by (metis fst_conv prod.collapse)

lemma server_configs_keeps:
  "reads_as a vars \<Longrightarrow> during ok P (\<lambda>servers s. P s \<and> (\<forall>(r, server) \<in> set servers. region_server obj a regions r server))
     (server_configs obj regions vars)"
proof (induction regions arbitrary: vars)
  case (Cons g gs)
  let ?get = "rj_GetString (''wg-nodeport-'' @ om_Name (r_meta g))"
  have more: "during ok P (\<lambda>servers s. P s \<and> (\<forall>(r, server) \<in> set servers. region_server obj a (g # gs) r server))
      (andThen (server_configs obj gs vars') (\<lambda>rest. ret (case np of None \<Rightarrow> rest
          | Some port \<Rightarrow> (om_Name (r_meta g), endpoint obj g port) # rest)))" if "?get vars = (Ret np, vars')" for np vars'
    by (rule during_andThen [OF Cons.IH [OF reads_as_step [OF Cons.prems that]]], rule during_ret)
      (use Cons.prems that in \<open>auto simp: reads_as_def region_server_def split: option.split\<close>)
  show ?case
    by simp (rule during_andThen [OF on_value_keeps [where P = P]], rule during_conj, rule during_prod, rule more, simp)
qed (simp add: during_ret during_Pair)

lemma writeConfigs_keeps:
  assumes "e \<in> set W" and "kc_Name e = device_keys_name obj" and "\<exists>h'. dv_regions E h' = Inr regions"
  shows "during (dv_ok paired W E obj) (has_keys e E obj) (\<lambda>_. has_keys e E obj)
    (writeConfigs E regions dns (gm_str (kc_Data e) ''private-key'') (gm_str (kc_Data e) ''ip''))"
proof -
  let ?ok = "dv_ok paired W E obj" and ?P = "has_keys e E obj"
  let ?pv = "gm_str (kc_Data e) ''private-key''" and ?ip = "gm_str (kc_Data e) ''ip''"
  have put: "during ?ok ?P (\<lambda>_. ?P) (KubectlApply E (config_doc obj (render_configs E ?ip ?pv K dns servers (Some []))))"
    if "dv_account E h = Inr a" "shown_key a = Some K" "\<forall>(r, server) \<in> set servers. region_server obj a regions r server"
    for h a K servers
  proof -
    have "conf_data W E obj (render_configs E ?ip ?pv K dns servers (Some []))"
      using render_configs_from [of _ _ E ?ip ?pv K dns servers "Some []"] assms that
      unfolding conf_data_def conf_of_def by fastforce
    then show ?thesis by (intro KubectlApply_during) (auto simp: dv_ok_def config_doc_def)
  qed
  have read: "during ?ok ?P (\<lambda>_. ?P) (case key of None \<Rightarrow> ret (Some err)
      | Some K \<Rightarrow> andThen (server_configs obj regions vars) (\<lambda>servers.
          KubectlApply E (config_doc obj (render_configs E ?ip ?pv K dns servers (Some [])))))"
    if "dv_account E h = Inr a" "rj_GetString ''wg-public-key'' (st_DisplayVars (r_status a)) = (Ret key, vars)" for h a key vars err
    by (rule during_option, rule during_ret, assumption,
        rule during_andThen [OF server_configs_keeps [OF reads_as_step [OF reads_as_start that(2)]]])
      (use that in \<open>auto simp: shown_var_def intro!: during_conj put [OF that(1)]\<close>)
  show ?thesis
    unfolding writeConfigs_def
    by (rule during_obj [OF has_keys_obj], assumption, rule during_andThen [OF during_ask_result [where P = ?P]], simp, simp,
        rule during_conj, erule exE, rule during_sum, rule during_ret, assumption,
        rule during_andThen [OF on_value_keeps [where P = ?P]], rule during_conj, rule during_prod, rule read, rule trans,
        erule sym, assumption) simp
qed

lemma has_keys_set: "during ok (has_keys e E obj) (\<lambda>_. has_keys e E obj) (SetLocal k v)"
  if "k \<noteq> ''device-ip''" "k \<noteq> ''device-privatekey''" "k \<noteq> ''regions''"
  using that by (intro during_SetLocal) (auto simp: has_keys_def update_conv' intro: begun_SetLocal)

lemma has_keys_get: "during ok (has_keys e E obj) (\<lambda>_. has_keys e E obj) (GetLocal prj k)"
  by (rule during_mono [OF during_GetLocal]) auto

lemma has_keys_read:
  "during ok (has_keys e E obj) (\<lambda>x s. has_keys e E obj s \<and> x = Some (gm_str (kc_Data e) ''private-key'')) (GetLocal str_local ''device-privatekey'')"
  "during ok (has_keys e E obj) (\<lambda>x s. has_keys e E obj s \<and> x = Some (gm_str (kc_Data e) ''ip'')) (GetLocal str_local ''device-ip'')"
  by (rule during_mono [OF during_GetLocal [where P = "has_keys e E obj"]]; simp add: has_keys_def)+

lemma has_keys_regions:
  "during ok (has_keys e E obj) (\<lambda>x s. has_keys e E obj s \<and> (\<forall>gs. x = Some gs \<longrightarrow> (\<exists>h. dv_regions E h = Inr gs)))
    (GetLocal (\<lambda>l. case l of LRegions gs \<Rightarrow> Some gs | _ \<Rightarrow> None) ''regions'')"
  by (rule during_mono [OF during_GetLocal [where P = "has_keys e E obj"]])
    (auto simp: has_keys_def begun_def regions_listed_def split: option.splits dv_local.splits)

lemma DeviceConfig_has_keys:
  assumes "e \<in> set W" and "kc_Name e = device_keys_name obj"
  shows "goes_on (dv_ok paired W E obj) (has_keys e E obj) (Device_reconDeviceConfig E)"
proof -
  let ?ok = "dv_ok paired W E obj" and ?P = "has_keys e E obj"
  have go: "goes_on ?ok ?P (andThen (GetLocal str_local ''device-privatekey'') (\<lambda>pv. case pv of
           None \<Rightarrow> CheckFailed E deviceConfigSynced c m1
         | Some privateKey \<Rightarrow> andThen (GetLocal str_local ''device-ip'') (\<lambda>ip. case ip of
           None \<Rightarrow> CheckFailed E deviceConfigSynced c m2
         | Some deviceIp \<Rightarrow> andThen (writeConfigs E regions dnsIp privateKey deviceIp) (\<lambda>err. case err of
           Some e \<Rightarrow> CheckFailed E deviceConfigSynced c (errmsg e)
         | None \<Rightarrow> settleCheck E deviceConfigSynced c))))" if "\<exists>h. dv_regions E h = Inr regions" for c m1 m2 regions dnsIp
    by (rule during_andThen [OF has_keys_read(1)], rule during_conj, simp, rule during_andThen [OF has_keys_read(2)],
        rule during_conj, simp, rule during_andThen [OF writeConfigs_keeps [OF assms that]], rule during_option,
        rule goes_on_settleCheck, simp, rule goes_on_CheckFailed, simp)
  have has: "during ?ok ?P (\<lambda>_. ?P) (HasLocal k)" for k by (rule during_HasLocal)
  show ?thesis
    unfolding Device_reconDeviceConfig_def Let_def
    by (rule during_obj [OF has_keys_obj], assumption, rule during_andThen [OF has], rule during_andThen [OF has],
        rule during_andThen [OF has], rule during_if, rule goes_on_CheckFailed, simp, rule during_andThen [OF has_keys_get],
        rule during_option, rule goes_on_CheckFailed, simp, rule during_andThen [OF has_keys_regions], rule during_conj,
        rule during_option, rule goes_on_CheckFailed, simp, rule during_andThen [OF during_ask [where P = ?P]], simp, simp,
        rule during_sum, rule during_if, rule goes_on_CheckFailed, simp, rule go, simp, rule during_andThen [OF has_keys_set],
        simp, simp, simp, rule go) simp
qed

lemma DeviceConfig_keeps: "during (dv_ok paired W E obj) (keyed W E obj) (\<lambda>r s. ShouldProceed r \<longrightarrow> True) (Device_reconDeviceConfig E)"
proof (rule during_assume)
  fix s
  assume "keyed W E obj s"
  then obtain e where e: "e \<in> set W" "kc_Name e = device_keys_name obj" "has_keys e E obj s" by (auto simp: keyed_iff)
  show "during (dv_ok paired W E obj) (\<lambda>t. t = s) (\<lambda>r s. ShouldProceed r \<longrightarrow> True) (Device_reconDeviceConfig E)"
    by (rule during_mono [OF DeviceConfig_has_keys [OF e(1,2)]]) (use e(3) in auto)
qed

lemma Device_pass:
  assumes "dv_truth W (dv_AccountName (r_spec (rs_obj s))) E" and "dv_paired paired E" and "rs_locals s = []"
    and "Device_Reconcile E s = (r, t)"
  shows "emits (dv_ok paired W E (rs_obj s)) s t"
  using assms(4) unfolding Device_Reconcile_def
proof (rule frame_run_cases [where Q = "dv_ok paired W E (rs_obj s)"])
  have complete: "keeps (emits (dv_ok paired W E (rs_obj s))) (complete E)" by (intro keeps_intros) simp
  have "during (dv_ok paired W E (rs_obj s)) (begun E (rs_obj s)) (\<lambda>_ _. True) (Device_steps E)"
    unfolding Device_steps_def
    by (rule during_andStep [OF fetch_keeps], rule during_andStep [OF WgKeys_keyed [OF assms(1,2)]],
        rule during_andStep [OF SyncServices_keeps], rule during_andStep [OF Dns_keeps],
        rule during_andStep [OF DeviceConfig_keeps], rule during_keeps [OF complete]) simp_all
  moreover have "begun E (rs_obj s) s" using assms(3) by (simp add: begun_def regions_listed_def)
  moreover assume "Device_steps E s = (r, t)"
  ultimately show ?thesis using during_emits by blast
next
  show "keeps (emits (dv_ok paired W E (rs_obj s))) (Device_finalize E)"
    unfolding Device_finalize_def by (intro keeps_intros) simp
qed auto

section \<open>The pass of the account\<close>

definition ac_truth :: "ksecret list \<Rightarrow> string \<Rightarrow> ac_env \<Rightarrow> bool" where
  "ac_truth W acc A \<longleftrightarrow> (\<forall>h n. answers W n (ac_secret A (h @ [ECall (ACGetSecret (wg_ns acc) n)])))
     \<and> (\<forall>h l. ac_secrets A (h @ [ECall (ACListSecrets (wg_ns acc) [(DeviceWgKey, ''true'')])]) = Inr l \<longrightarrow> l = device_secrets W)"

definition ac_paired :: "(string \<Rightarrow> string \<Rightarrow> bool) \<Rightarrow> ac_env \<Rightarrow> bool" where
  "ac_paired paired A \<longleftrightarrow> (\<forall>h pub pv. ac_keys A h = Inr (pub, pv) \<longrightarrow> paired pub pv)"

text \<open>A server that answers a write of the status with an object of the same name.\<close>

definition keeps_name :: "ac_env \<Rightarrow> bool" where
  "keeps_name A \<longleftrightarrow> (\<forall>h x y. k_status_update A (h @ [EStatusUpdate x]) = Inr y \<longrightarrow> om_Name (r_meta y) = om_Name (r_meta x))"

definition sent_conf :: "ksecret list \<Rightarrow> ac_env \<Rightarrow> string \<Rightarrow> bool" where
  "sent_conf W A body \<longleftrightarrow> (\<exists>e \<in> set W. kc_Name e = server_keys_name
     \<and> ac_render_wg A (server_conf (gm_str (kc_Data e) ''private-key'') (device_secrets W)) = Inr body)"

definition ac_ok :: "(string \<Rightarrow> string \<Rightarrow> bool) \<Rightarrow> ksecret list \<Rightarrow> ac_env \<Rightarrow> (account_spec, ac_call) event \<Rightarrow> bool" where
  "ac_ok paired W A e \<longleftrightarrow> (case e of
     ECall (ACCreateSecret ns n d own) \<Rightarrow> (n = server_keys_name \<and> key_data paired d)
       \<or> (n = ''wg-server-config'' \<and> sent_conf W A (gm_str d ''data''))
   | ECall (ACUpdateSecret ns n d) \<Rightarrow> n = ''wg-server-config'' \<and> sent_conf W A (gm_str d ''data'')
   | _ \<Rightarrow> True)"

lemma ac_ok_simps [simp]:
  "status_ok (ac_ok paired W A)" "update_ok (ac_ok paired W A)" "exec_ok (ac_ok paired W A)"
  by (simp_all add: ac_ok_def status_ok_def update_ok_def exec_ok_def)

definition named :: "string \<Rightarrow> (account_spec, ac_call, ac_local) rstate \<Rightarrow> bool" where
  "named acc s \<longleftrightarrow> om_Name (r_meta (rs_obj s)) = acc"

definition same_name :: "('sp, 'ev, 'lv) rstate \<Rightarrow> ('sp, 'ev, 'lv) rstate \<Rightarrow> bool" where
  "same_name s t \<longleftrightarrow> om_Name (r_meta (rs_obj t)) = om_Name (r_meta (rs_obj s)) \<and> rs_locals t = rs_locals s"

interpretation nm: frame same_name
  by unfold_locales (simp_all add: same_name_def)

lemma same_name_status: "keeps same_name (modStatus f)" "keeps same_name (onMessage m)" "keeps same_name (onDisplayVars m)"
  by (auto simp: keeps_def same_name_def modStatus_def modObj_def modify_def onMessage_def onDisplayVars_def split: prod.split)

lemma same_name_StatusUpdate: "keeps_name A \<Longrightarrow> keeps same_name (client_StatusUpdate A)"
  by (auto simp: keeps_def same_name_def keeps_name_def client_StatusUpdate_def ask_def andThen_apply modObj_def
      modify_def gets_def ret_def split: sum.split)

lemma same_name_clear: "keeps same_name (clear_passed cs)"
  by (induction cs) (auto intro!: nm.keeps_andThen same_name_status nm.keeps_ret nm.keeps_Pair split: option.split)

lemmas same_name_intros = nm.keeps_andThen same_name_status same_name_clear nm.keeps_ret nm.keeps_Pair nm.keeps_crash nm.keeps_gets

lemma same_name_settleAndGo:
  assumes "keeps_name A"
  shows "keeps same_name (settleAndGo A n c)"
proof -
  have "keeps same_name (UpdateStatus A)"
    unfolding UpdateStatus_def stamp_def getStatus_def
    by (intro same_name_intros) (auto intro!: same_name_intros same_name_StatusUpdate [OF assms] split: option.split)
  then show ?thesis
    unfolding settleAndGo_def Let_def putCheck_def getStatus_def Next_def
    by (auto intro!: same_name_intros split: option.split)
qed

lemma during_same_name:
  assumes "keeps (emits ok) m" and "keeps same_name m" and "\<And>s t. same_name s t \<Longrightarrow> P s \<Longrightarrow> P t"
  shows "during ok P (\<lambda>_. P) m"
proof (rule duringI)
  fix s r t
  assume "P s" and run: "m s = (r, t)"
  then show "emits ok s t \<and> (\<forall>a. r = Ret a \<longrightarrow> P t)"
    using keepsE [OF assms(1) run] keepsE [OF assms(2) run] assms(3) by blast
qed

lemma stable_named [simp]: "stable (named acc)"
  by (simp add: stable_def named_def)

lemma named_same: "same_name s t \<Longrightarrow> named acc s \<Longrightarrow> named acc t"
  by (simp add: same_name_def named_def)

lemma during_named:
  assumes "\<And>obj. om_Name (r_meta obj) = acc \<Longrightarrow> during ok P Q (k obj)" and "\<And>s. P s \<Longrightarrow> named acc s"
  shows "during ok P Q (andThen (gets rs_obj) k)"
  by (rule during_andThen [OF during_gets [where P = P and Q = "\<lambda>x s. P s \<and> om_Name (r_meta x) = acc"]])
    (use assms in \<open>auto simp: named_def intro: during_conj\<close>)

lemma Namespace_named:
  assumes "keeps_name A"
  shows "goes_on (ac_ok paired W A) (named acc) (Account_reconNamespace A)"
proof -
  have go: "goes_on (ac_ok paired W A) (named acc) (settleAndGo A n c)" for n c
    by (rule during_mono [OF during_same_name [where P = "named acc"]])
      (auto intro: same_name_settleAndGo [OF assms] named_same keeps_intros)
  show ?thesis
    unfolding Account_reconNamespace_def Let_def
    by (rule during_named, rule during_andThen [OF during_ask [where P = "named acc"]], simp, simp add: ac_ok_def,
        rule during_option, rule go, rule during_if, rule goes_on_CheckFailed, simp,
        rule during_andThen [OF during_ask [where P = "named acc"]], simp, simp add: ac_ok_def, rule during_option,
        rule goes_on_CheckFailed, simp, rule goes_on_CheckFailed, simp)
qed

lemma named_set: "during ok (named acc) (\<lambda>_. named acc) (SetLocal k v)"
  by (rule during_SetLocal) (simp add: named_def)

lemma named_ask: "ok (ECall c) \<Longrightarrow> during ok (named acc) (\<lambda>_. named acc) (ask (ECall c) f)"
  by (rule during_ask) simp_all

lemma Fetch_named: "goes_on (ac_ok paired W A) (named acc) (Account_fetchRequired A)"
  unfolding Account_fetchRequired_def Let_def
  by (rule during_named, (rule during_andThen [OF named_ask], simp add: ac_ok_def)+,
      rule during_andThen [where R = "\<lambda>_. named acc"], rule during_if, rule during_ret, assumption, rule named_set,
      rule during_andThen [OF named_ask], simp add: ac_ok_def, rule during_andThen [OF named_set],
      rule during_andThen [OF named_ask], simp add: ac_ok_def, rule during_andThen [OF named_set], rule goes_on_Next)

definition server_key :: "ksecret list \<Rightarrow> string \<Rightarrow> (account_spec, ac_call, ac_local) rstate \<Rightarrow> bool" where
  "server_key W acc s \<longleftrightarrow> named acc s \<and> (\<exists>e \<in> set W. kc_Name e = server_keys_name
     \<and> map_of (rs_locals s) ''wg-private-key'' = Some (ALString (gm_str (kc_Data e) ''private-key'')))"

lemma stable_server_key [simp]: "stable (server_key W acc)"
  by (simp add: stable_def server_key_def named_def)

lemma server_key_same: "same_name s t \<Longrightarrow> server_key W acc s \<Longrightarrow> server_key W acc t"
  by (simp add: same_name_def server_key_def named_def)

lemma WGServerKey_keyed:
  assumes "ac_truth W acc A" and "ac_paired paired A"
  shows "during (ac_ok paired W A) (named acc) (\<lambda>r s. ShouldProceed r \<longrightarrow> server_key W acc s) (Account_reconWGServerKey A)"
proof -
  let ?ok = "ac_ok paired W A" and ?get = "ECall (ACGetSecret (wg_ns acc) server_keys_name)"
  have fail: "ends ?ok (CheckFailed A n c m)" for n c m by (rule ends_CheckFailed) simp
  have create: "ends ?ok (andThen (ask (ECall (ACCreateSecret ns server_keys_name (Some [(''private-key'', priv), (''public-key'', pub)]) own))
      (ac_write A)) (\<lambda>err. case err of Some e \<Rightarrow> CheckFailed A AccountWGSKeysReady c (errmsg e)
        | None \<Rightarrow> andThen (onDisplayVars (rj_Set ''wg-public-key'' (JStr pub))) (\<lambda>_.
            andThen (UpdateStatus A) (\<lambda>_. CheckFailed A AccountWGSKeysReady c m))))"
    if "paired pub priv" for ns priv pub own c m
    by (rule ends_keeps, rule keeps_intros, simp add: ac_ok_def key_data_def gm_get_def that, rule ends_option,
        rule ends_keeps, rule keeps_intros, rule ends_keeps, rule keeps_intros, simp, rule fail, rule fail)
  have make: "during ?ok (named acc) (\<lambda>r s. ShouldProceed r \<longrightarrow> server_key W acc s)
     (andThen (ask (ECall ACGenerateKeys) (ac_keys A)) (\<lambda>r. case r of
        Inl e \<Rightarrow> CheckFailed A AccountWGSKeysReady c (errmsg e)
      | Inr (pub, priv) \<Rightarrow> andThen (ask (ECall (ACCreateSecret ns server_keys_name (Some [(''private-key'', priv), (''public-key'', pub)]) own))
          (ac_write A)) (\<lambda>err. case err of Some e \<Rightarrow> CheckFailed A AccountWGSKeysReady c (errmsg e)
        | None \<Rightarrow> andThen (onDisplayVars (rj_Set ''wg-public-key'' (JStr pub))) (\<lambda>_.
            andThen (UpdateStatus A) (\<lambda>_. CheckFailed A AccountWGSKeysReady c m)))))" for ns own c m
  proof (rule during_andThen [OF during_ask_result [where P = "named acc"]], simp, simp add: ac_ok_def, rule during_conj, erule exE,
      rule during_sum, rule ends_stops, rule fail, rule during_prod, rule ends_stops, rule create)
    fix r h x pub priv
    assume "r = ac_keys A (h @ [ECall ACGenerateKeys])" "r = Inr x" "x = (pub, priv)"
    then have "ac_keys A (h @ [ECall ACGenerateKeys]) = Inr (pub, priv)" by simp
    then show "paired pub priv" using assms(2) unfolding ac_paired_def by blast
  qed
  have found: "during ?ok (named acc) (\<lambda>r s. ShouldProceed r \<longrightarrow> server_key W acc s)
      (andThen (SetLocal ''wg-private-key'' (ALString (gm_str secret ''private-key''))) (\<lambda>_.
       andThen (onDisplayVars (rj_GetString ''wg-public-key'')) (\<lambda>existing. case existing of
           Some key \<Rightarrow> if gm_str secret ''public-key'' \<noteq> key then
               andThen (onDisplayVars (rj_Set ''wg-public-key'' (JStr (gm_str secret ''public-key'')))) (\<lambda>_.
               andThen (UpdateStatus A) (\<lambda>_. CheckFailed A AccountWGSKeysReady c m))
             else settleCheck A AccountWGSKeysReady c
         | None \<Rightarrow> andThen (onDisplayVars (rj_Set ''wg-public-key'' (JStr (gm_str secret ''public-key''))))
             (\<lambda>_. CheckFailed A AccountWGSKeysReady c m))))"
    if get: "ac_secret A (h @ [?get]) = Inr secret" for h secret c m
  proof -
    have "answers W server_keys_name (ac_secret A (h @ [?get]))" using assms(1) by (simp add: ac_truth_def)
    then obtain e where e: "e \<in> set W" "kc_Name e = server_keys_name" "kc_Data e = secret" using get by (auto simp: answers_def)
    have 1: "during ?ok (named acc) (\<lambda>_. server_key W acc) (SetLocal ''wg-private-key'' (ALString (gm_str secret ''private-key'')))"
      by (rule during_SetLocal) (use e in \<open>auto simp: server_key_def named_def update_conv'\<close>)
    have 2: "during ?ok (server_key W acc) (\<lambda>_. server_key W acc) (onDisplayVars m)" for m :: "(rawjson, 'b) act"
      by (rule during_same_name) (auto intro: keeps_intros same_name_status server_key_same)
    show ?thesis
      by (rule during_andThen [OF 1], rule during_andThen [OF 2], rule during_option, rule ends_stops, rule ends_keeps,
          rule keeps_intros, rule fail, rule during_if, rule ends_stops, rule ends_keeps, rule keeps_intros, rule ends_keeps,
          rule keeps_intros, simp, rule fail, rule goes_on_settleCheck) simp
  qed
  show ?thesis
    unfolding Account_reconWGServerKey_def Let_def server_keys_name_def [symmetric] account_ns_def
    by (rule during_named [where acc = acc], simp only:, rule during_andThen [OF during_ask_result [where P = "named acc"]], simp,
        simp add: ac_ok_def, rule during_conj, erule exE, rule during_sum, rule during_if, rule ends_stops, rule fail,
        rule make, rule found) simp_all
qed

lemma write_server_config_keeps:
  assumes "sent_conf W A body"
  shows "keeps (emits (ac_ok paired W A)) (write_server_config A c err body)"
proof -
  have post: "keeps (emits (ac_ok paired W A)) (post_all A port body devices regions)" for port devices regions
    unfolding post_all_def by (intro keeps_intros) (auto intro!: keeps_intros simp: ac_ok_def)
  show ?thesis
    unfolding write_server_config_def failed_with_def using assms
    by (auto intro!: keeps_intros post simp: ac_ok_def gm_str_def gm_get_def split: option.split)
qed

lemma WGServerConfig_ok:
  assumes "ac_truth W acc A"
  shows "during (ac_ok paired W A) (server_key W acc) (\<lambda>_ _. True) (Account_reconWGServerConfig A)"
proof -
  let ?ok = "ac_ok paired W A" and ?list = "ECall (ACListSecrets (wg_ns acc) [(DeviceWgKey, ''true'')])"
  have rest: "keeps (emits ?ok) (andThen (ask (ECall (ACGetSecret ns ''wg-server-config'')) (ac_secret A)) (\<lambda>r. case r of
             Inl e \<Rightarrow>
               andThen (ask (ECall (ACCreateSecret ns ''wg-server-config'' (Some [(''data'', body)]) []))
                 (ac_write A)) (\<lambda>e'. if e' \<noteq> None then CheckFailed A AccountWGSConfigReady c (errmsg e) else write_server_config A c (Some e) body)
           | Inr existing \<Rightarrow>
               if gm_str existing ''data'' \<noteq> body then write_server_config A c None body
               else settleAndGo A AccountWGSConfigReady c))" if "sent_conf W A body" for ns body c
    using that by (auto intro!: keeps_intros write_server_config_keeps simp: ac_ok_def gm_str_def gm_get_def split: sum.split)
  have key: "during ?ok (server_key W acc) (\<lambda>x s. named acc s \<and> (\<exists>e \<in> set W. kc_Name e = server_keys_name
      \<and> x = Some (gm_str (kc_Data e) ''private-key''))) (GetLocal (\<lambda>l. case l of ALString t \<Rightarrow> Some t | _ \<Rightarrow> None) ''wg-private-key'')"
    by (rule during_mono [OF during_GetLocal [where P = "server_key W acc"]]) (auto simp: server_key_def)
  have sent: "sent_conf W A body" if "e \<in> set W" "kc_Name e = server_keys_name" "ac_secrets A (h @ [?list]) = Inr secrets"
      "ac_render_wg A (server_conf (gm_str (kc_Data e) ''private-key'') secrets) = Inr body" for e h secrets body
    using assms that by (auto simp: ac_truth_def sent_conf_def)
  show ?thesis
    unfolding Account_reconWGServerConfig_def Let_def account_ns_def
    by (rule during_named [where acc = acc], simp only:, rule during_andThen [OF key], rule during_conj, erule bexE, elim conjE, rule during_option,
        simp, rule during_andThen [OF during_ask_result [where P = "named acc"]], simp, simp add: ac_ok_def, rule during_conj,
        erule exE, rule during_sum, rule during_keeps, rule keeps_intros, simp, rule during_sum, rule during_keeps,
        rule keeps_intros, simp, rule during_keeps, rule rest, rule sent, assumption, assumption, rule trans, erule sym, assumption)
      (auto simp: server_key_def)
qed

text \<open>The other steps write no secret.\<close>

lemma other_steps_keep:
  "keeps (emits (ac_ok paired W A)) (Account_reconDevProxyConfig A)"
  "keeps (emits (ac_ok paired W A)) (Account_reconDeployments A)"
  "keeps (emits (ac_ok paired W A)) (Account_reconCoredns A)"
  "keeps (emits (ac_ok paired W A)) (complete A)"
  "keeps (emits (ac_ok paired W A)) (Account_finalize A)"
proof -
  let ?k = "\<lambda>m. keeps (emits (ac_ok paired W A)) m"
  have post: "?k (post_all A port body devices regions)" for port body devices regions
    unfolding post_all_def by (intro keeps_intros) (auto intro!: keeps_intros simp: ac_ok_def)
  have wr: "?k (write_proxy_config A c devices configs)" for c devices configs
    unfolding write_proxy_config_def failed_with_def Let_def
    by (auto intro!: keeps_intros post simp: ac_ok_def split: option.split)
  show "?k (Account_reconDevProxyConfig A)"
    unfolding Account_reconDevProxyConfig_def Let_def
    by (auto intro!: keeps_intros wr simp: ac_ok_def split: sum.split option.split)
  have up: "?k (update_regions A obj deploys devices gs)" for obj deploys devices gs
    by (induction gs) (auto intro!: keeps_intros simp: ac_ok_def split: option.split)
  then have upd: "?k (updateDeployments A)"
    unfolding updateDeployments_def by (auto intro!: keeps_intros split: option.split)
  have ports: "?k (record_ports svcs b)" for svcs b
    by (induction svcs arbitrary: b) (auto intro!: keeps_intros split: list.split option.split)
  show "?k (Account_reconDeployments A)"
    unfolding Account_reconDeployments_def Let_def
    by (auto intro!: keeps_intros upd ports simp: ac_ok_def split: sum.split option.split)
  show "?k (Account_reconCoredns A)"
    unfolding Account_reconCoredns_def Let_def
    by (auto intro!: keeps_intros simp: ac_ok_def split: sum.split option.split)
  show "?k (complete A)" by (intro keeps_intros) simp
  show "?k (Account_finalize A)" unfolding Account_finalize_def by (intro keeps_intros) simp
qed

lemma Account_pass:
  assumes "ac_truth W (om_Name (r_meta (rs_obj u))) A" and "ac_paired paired A" and "keeps_name A"
    and "Account_Reconcile A u = (q, v)"
  shows "emits (ac_ok paired W A) u v"
  using assms(4) unfolding Account_Reconcile_def
proof (rule frame_run_cases [where Q = "ac_ok paired W A"])
  let ?ok = "ac_ok paired W A" and ?P = "named (om_Name (r_meta (rs_obj u)))"
  have keep: "during ?ok P (\<lambda>r s. ShouldProceed r \<longrightarrow> True) m" if "keeps (emits ?ok) m" for P m
    using during_keeps [OF that] by (rule during_mono) auto
  have conf: "during ?ok (server_key W (om_Name (r_meta (rs_obj u)))) (\<lambda>r s. ShouldProceed r \<longrightarrow> True) (Account_reconWGServerConfig A)"
    using WGServerConfig_ok [OF assms(1)] by (rule during_mono) auto
  have "during ?ok ?P (\<lambda>_ _. True) (Account_steps A)"
    unfolding Account_steps_def
    by (rule during_andStep [OF Namespace_named [OF assms(3)]], rule during_andStep [OF Fetch_named],
        rule during_andStep [OF WGServerKey_keyed [OF assms(1,2)]], rule during_andStep [OF conf],
        rule during_andStep [OF keep [OF other_steps_keep(1)]], rule during_andStep [OF keep [OF other_steps_keep(2)]],
        rule during_andStep [OF keep [OF other_steps_keep(3)]], rule during_keeps [OF other_steps_keep(4)]) simp_all
  moreover assume "Account_steps A u = (q, v)"
  moreover have "?P u" by (simp add: named_def)
  ultimately show ?thesis using during_emits by blast
qed (auto intro: other_steps_keep)

section \<open>The secrets over time\<close>

definition put_secret :: "ksecret \<Rightarrow> ksecret list \<Rightarrow> ksecret list" where
  "put_secret e W = e # filter (\<lambda>f. kc_Name f \<noteq> kc_Name e) W"

definition set_data :: "string \<Rightarrow> string gomap \<Rightarrow> ksecret list \<Rightarrow> ksecret list" where
  "set_data n d W = map (\<lambda>e. if kc_Name e = n then e\<lparr>kc_Data := d\<rparr> else e) W"

text \<open>What an accepted call does to the secrets of the namespace of the account.\<close>

fun dv_effect :: "string \<Rightarrow> (device_spec, dv_call) event \<Rightarrow> ksecret list \<Rightarrow> ksecret list" where
  "dv_effect acc (ECall (DVCreateSecret doc)) W = (if sc_Namespace doc \<noteq> wg_ns acc then W
     else put_secret \<lparr>kc_Name = sc_Name doc, kc_Labels = sc_Labels doc, kc_Data = sc_Data doc\<rparr> W)"
| "dv_effect acc (ECall (DVUpdateSecret ns n (Some d))) W = (if ns \<noteq> wg_ns acc then W else set_data n d W)"
| "dv_effect acc _ W = W"

fun ac_effect :: "string \<Rightarrow> (account_spec, ac_call) event \<Rightarrow> ksecret list \<Rightarrow> ksecret list" where
  "ac_effect acc (ECall (ACCreateSecret ns n d own)) W = (if ns \<noteq> wg_ns acc then W
     else put_secret \<lparr>kc_Name = n, kc_Labels = [], kc_Data = d\<rparr> W)"
| "ac_effect acc (ECall (ACUpdateSecret ns n d)) W = (if ns \<noteq> wg_ns acc then W else set_data n d W)"
| "ac_effect acc _ W = W"

text \<open>
  Passes of the controllers, whose writes the server may refuse: the accepted ones are any
  subsequence.  Secrets may also be removed by others.
\<close>

inductive wg_reach :: "(string \<Rightarrow> string \<Rightarrow> bool) \<Rightarrow> string \<Rightarrow> ksecret list \<Rightarrow> bool" for paired acc where
  start: "wg_reach paired acc []"
| device_pass: "wg_reach paired acc W \<Longrightarrow> dv_AccountName (r_spec (rs_obj s)) = acc \<Longrightarrow> dv_truth W acc E \<Longrightarrow>
    dv_paired paired E \<Longrightarrow> rs_locals s = [] \<Longrightarrow> rs_hist (snd (Device_Reconcile E s)) = rs_hist s @ es \<Longrightarrow> subseq accepted es \<Longrightarrow>
    wg_reach paired acc (fold (dv_effect acc) accepted W)"
| account_pass: "wg_reach paired acc W \<Longrightarrow> om_Name (r_meta (rs_obj u)) = acc \<Longrightarrow> ac_truth W acc A \<Longrightarrow>
    ac_paired paired A \<Longrightarrow> keeps_name A \<Longrightarrow> rs_hist (snd (Account_Reconcile A u)) = rs_hist u @ es \<Longrightarrow> subseq accepted es \<Longrightarrow>
    wg_reach paired acc (fold (ac_effect acc) accepted W)"
| removed: "wg_reach paired acc W \<Longrightarrow> wg_reach paired acc (filter keep W)"

definition secret_ok :: "(string \<Rightarrow> string \<Rightarrow> bool) \<Rightarrow> ksecret \<Rightarrow> bool" where
  "secret_ok paired e \<longleftrightarrow> (kc_Name e = server_keys_name \<longrightarrow> key_data paired (kc_Data e))
     \<and> ((\<exists>obj. kc_Name e = device_keys_name obj) \<longrightarrow> key_data paired (kc_Data e) \<and> gm_get (kc_Data e) ''ip'' \<noteq> None \<and> is_wg_key e)"

definition wg_inv :: "(string \<Rightarrow> string \<Rightarrow> bool) \<Rightarrow> ksecret list \<Rightarrow> bool" where
  "wg_inv paired W \<longleftrightarrow> distinct (map kc_Name W) \<and> (\<forall>e \<in> set W. secret_ok paired e)"

lemma put_secret_inv: "wg_inv paired W \<Longrightarrow> secret_ok paired e \<Longrightarrow> wg_inv paired (put_secret e W)"
  by (auto simp: wg_inv_def put_secret_def distinct_map inj_on_def)

lemma set_data_inv:
  assumes "wg_inv paired W" and "\<And>e. e \<in> set W \<Longrightarrow> kc_Name e = n \<Longrightarrow> secret_ok paired (e\<lparr>kc_Data := d\<rparr>)"
  shows "wg_inv paired (set_data n d W)"
proof -
  have "map kc_Name (set_data n d W) = map kc_Name W" by (simp add: set_data_def)
  moreover have "secret_ok paired e" if "e \<in> set (set_data n d W)" for e
    using that assms by (auto simp: wg_inv_def set_data_def)
  ultimately show ?thesis using assms(1) by (simp add: wg_inv_def)
qed

lemma names_distinct [simp]:
  "''wg-device-config-'' @ x \<noteq> server_keys_name" "''wg-device-config-'' @ x \<noteq> device_keys_name obj"
  "device_keys_name obj \<noteq> server_keys_name" "''wg-server-config'' \<noteq> server_keys_name"
  "''wg-server-config'' \<noteq> device_keys_name obj" "server_keys_name \<noteq> device_keys_name obj"
  by (simp_all add: device_keys_name_def server_keys_name_def)

lemma new_keys_ok:
  assumes "new_keys paired obj doc"
  shows "sc_Name doc = device_keys_name obj" and "key_data paired (sc_Data doc)" and "gm_get (sc_Data doc) ''ip'' \<noteq> None"
    and "map_of (sc_Labels doc) DeviceWgKey = Some ''true''"
  using assms by (auto simp: new_keys_def keys_doc_def device_keys_name_def key_data_def gm_get_def key_defs)

lemma dv_effect_inv:
  assumes "dv_ok paired W0 E obj ev" and "wg_inv paired W"
  shows "wg_inv paired (dv_effect acc ev W)"
proof -
  have create: "wg_inv paired (put_secret \<lparr>kc_Name = sc_Name doc, kc_Labels = sc_Labels doc, kc_Data = sc_Data doc\<rparr> W)"
    if ev: "ev = ECall (DVCreateSecret doc)" for doc
  proof (rule put_secret_inv [OF assms(2)])
    consider "new_keys paired obj doc" | d where "doc = config_doc obj d" using assms(1) ev by (auto simp: dv_ok_def)
    then show "secret_ok paired \<lparr>kc_Name = sc_Name doc, kc_Labels = sc_Labels doc, kc_Data = sc_Data doc\<rparr>"
    proof cases
      case 1
      then show ?thesis using new_keys_ok [OF 1] by (simp add: secret_ok_def is_wg_key_def)
    next
      case 2
      then show ?thesis using names_distinct(1,2) [of "om_Name (r_meta obj)"] by (simp add: secret_ok_def config_doc_def del: append.simps)
    qed
  qed
  have update: "wg_inv paired (set_data n d W)" if ev: "ev = ECall (DVUpdateSecret ns n (Some d))" for ns n d
  proof (rule set_data_inv [OF assms(2)])
    fix e
    assume e: "e \<in> set W" "kc_Name e = n"
    consider doc where "new_keys paired obj doc" "n = sc_Name doc" "d = sc_Data doc" | "n = ''wg-device-config-'' @ om_Name (r_meta obj)"
      using assms(1) ev by (auto simp: dv_ok_def simp del: append.simps)
    then show "secret_ok paired (e\<lparr>kc_Data := d\<rparr>)"
    proof cases
      case 1
      have "secret_ok paired e" using assms(2) e by (simp add: wg_inv_def)
      then show ?thesis using new_keys_ok [OF 1(1)] 1 e by (auto simp: secret_ok_def is_wg_key_def)
    next
      case 2
      then show ?thesis using e names_distinct(1,2) by (simp add: secret_ok_def del: append.simps)
    qed
  qed
  show ?thesis using assms(2) create update by (cases "(acc, ev, W)" rule: dv_effect.cases) auto
qed

lemma ac_effect_inv:
  assumes "ac_ok paired W0 A ev" and "wg_inv paired W"
  shows "wg_inv paired (ac_effect acc ev W)"
proof -
  have create: "wg_inv paired (put_secret \<lparr>kc_Name = n, kc_Labels = [], kc_Data = d\<rparr> W)"
    if "ev = ECall (ACCreateSecret ns n d own)" for ns n d own
    using assms(1) that by (intro put_secret_inv [OF assms(2)]) (auto simp: ac_ok_def secret_ok_def)
  have update: "wg_inv paired (set_data n d W)" if "ev = ECall (ACUpdateSecret ns n d)" for ns n d
    using assms(1) that by (intro set_data_inv [OF assms(2)]) (auto simp: ac_ok_def secret_ok_def)
  show ?thesis using assms(2) create update by (cases "(acc, ev, W)" rule: ac_effect.cases) auto
qed

lemma fold_inv: "\<forall>e \<in> set es. \<forall>W. I W \<longrightarrow> I (f e W) \<Longrightarrow> I W \<Longrightarrow> I (fold f es W)"
  by (induction es arbitrary: W) auto

lemma wg_reach_inv: "wg_reach paired acc W \<Longrightarrow> wg_inv paired W"
proof (induction rule: wg_reach.induct)
  case start
  then show ?case by (simp add: wg_inv_def)
next
  case (device_pass W s E es accepted)
  obtain r t where run: "Device_Reconcile E s = (r, t)" by fastforce
  have "emits (dv_ok paired W E (rs_obj s)) s t" using device_pass Device_pass [OF _ _ _ run] by simp
  then have "\<forall>e \<in> set es. dv_ok paired W E (rs_obj s) e" using device_pass.hyps run by (auto simp: emits_def)
  moreover have "set accepted \<subseteq> set es" using device_pass.hyps by (auto dest: list_emb_set)
  ultimately show ?case using device_pass.IH dv_effect_inv by (intro fold_inv [where I = "wg_inv paired"]) blast+
next
  case (account_pass W u A es accepted)
  obtain q v where run: "Account_Reconcile A u = (q, v)" by fastforce
  have "emits (ac_ok paired W A) u v" using account_pass Account_pass [OF _ _ _ run] by simp
  then have "\<forall>e \<in> set es. ac_ok paired W A e" using account_pass.hyps run by (auto simp: emits_def)
  moreover have "set accepted \<subseteq> set es" using account_pass.hyps by (auto dest: list_emb_set)
  ultimately show ?case using account_pass.IH ac_effect_inv by (intro fold_inv [where I = "wg_inv paired"]) blast+
next
  case (removed W keep)
  then show ?case by (auto simp: wg_inv_def distinct_map_filter)
qed

text \<open>A call made between two states.\<close>

definition makes :: "('sp, 'ev, 'lv) rstate \<Rightarrow> ('sp, 'ev, 'lv) rstate \<Rightarrow> ('sp, 'ev) event \<Rightarrow> bool" where
  "makes s t ev \<longleftrightarrow> (\<exists>es. rs_hist t = rs_hist s @ es \<and> ev \<in> set es)"

lemma emits_makes: "emits Q s t \<Longrightarrow> makes s t ev \<Longrightarrow> Q ev"
  by (auto simp: emits_def makes_def)

lemma wg_peers_set: "e \<in> set l \<Longrightarrow> gm_get (se_Data e) ''ip'' = Some ip \<Longrightarrow> gm_get (se_Data e) ''public-key'' = Some k
    \<Longrightarrow> (k, ip @ ''/32'') \<in> set (wg_peers l)"
  by (induction l) (auto split: option.split)

lemma device_is_peer:
  assumes "wg_inv paired W" and "e \<in> set W" and "kc_Name e = device_keys_name obj"
  shows "\<exists>pub. paired pub (gm_str (kc_Data e) ''private-key'')
    \<and> (pub, gm_str (kc_Data e) ''ip'' @ ''/32'') \<in> set (wc_Peers (server_conf k (device_secrets W)))"
proof -
  have ok: "key_data paired (kc_Data e)" "gm_get (kc_Data e) ''ip'' \<noteq> None" "is_wg_key e"
    using assms by (auto simp: wg_inv_def secret_ok_def)
  then obtain pub ip where p: "gm_get (kc_Data e) ''public-key'' = Some pub" "gm_get (kc_Data e) ''ip'' = Some ip"
    by (auto simp: key_data_def)
  have "\<lparr>se_Name = kc_Name e, se_Data = kc_Data e\<rparr> \<in> set (sort_key se_Name (device_secrets W))"
    using assms(2) ok(3) by (auto simp: device_secrets_def)
  from wg_peers_set [OF this] p have "(pub, ip @ ''/32'') \<in> set (wc_Peers (server_conf k (device_secrets W)))"
    by (simp add: server_conf_def)
  moreover have "paired pub (gm_str (kc_Data e) ''private-key'')" using key_data_str [OF ok(1)] p by (simp add: gm_str_def)
  ultimately show ?thesis using p(2) by (auto simp: gm_str_def)
qed

text \<open>The call that stores the configurations of a device, the first time and later.\<close>

definition conf_event :: "device_spec resource \<Rightarrow> string gomap \<Rightarrow> (device_spec, dv_call) event \<Rightarrow> bool" where
  "conf_event obj data ev \<longleftrightarrow> ev = ECall (DVCreateSecret (config_doc obj data))
     \<or> ev = ECall (DVUpdateSecret (wg_ns (dv_AccountName (r_spec obj))) (sc_Name (config_doc obj data)) (Some data))"

lemma conf_event_data:
  assumes "conf_event obj data ev" and "dv_ok paired W E obj ev"
  shows "conf_data W E obj data"
  using assms names_distinct(2) [of "om_Name (r_meta obj)"] new_keys_ok(1)
  by (fastforce simp: conf_event_def dv_ok_def config_doc_def new_keys_def keys_doc_def)

lemma Device_writes:
  assumes "dv_AccountName (r_spec (rs_obj s)) = acc" and "dv_truth W acc E" and "dv_paired paired E" and "rs_locals s = []"
    and "makes s (snd (Device_Reconcile E s)) ev" and "conf_event (rs_obj s) data ev" and "(file, out) \<in> set (gm_entries data)"
  shows "\<exists>conf. conf_of W E (rs_obj s) file out conf"
proof -
  obtain r t where run: "Device_Reconcile E s = (r, t)" by fastforce
  have "dv_ok paired W E (rs_obj s) ev"
    using Device_pass [OF _ assms(3,4) run, of W] assms(1,2,5) run by (auto intro: emits_makes)
  from conf_event_data [OF assms(6) this] show ?thesis using assms(7) by (auto simp: conf_data_def)
qed

section \<open>Properties\<close>


section \<open>Witness\<close>

text \<open>Keys in which the public one is the private one behind a letter.\<close>

definition sample_paired :: "string \<Rightarrow> string \<Rightarrow> bool" where
  "sample_paired pub pv \<longleftrightarrow> pub = CHR ''P'' # pv"

definition find_secret :: "ksecret list \<Rightarrow> string \<Rightarrow> error + string gomap" where
  "find_secret W n = (case List.find (\<lambda>e. kc_Name e = n) W of None \<Rightarrow> Inl (NotFound ''secret'') | Some e \<Rightarrow> Inr (kc_Data e))"

lemma find_secret_answers: "answers W n (find_secret W n)"
proof (cases "List.find (\<lambda>e. kc_Name e = n) W")
  case None
  then have "\<forall>e \<in> set W. kc_Name e \<noteq> n" by (auto simp: find_None_iff)
  then show ?thesis using None by (auto simp: answers_def find_secret_def)
next
  case (Some e)
  then show ?thesis using find_SomeD [OF Some] by (auto simp: answers_def find_secret_def)
qed

definition settled :: "string list \<Rightarrow> status \<Rightarrow> status" where
  "settled names st = st\<lparr>st_Checks := Some (map (\<lambda>n. (n, (CheckGen 1)\<lparr>ck_Status := True\<rparr>)) names)\<rparr>"

definition tunnel_account :: "rawjson \<Rightarrow> account" where
  "tunnel_account vars = (let x = \<lparr>r_meta = sample_meta\<lparr>om_Name := ''acc''\<rparr>, r_spec = \<lparr>ac_OwnedDomains = []\<rparr>, r_status = status0\<rparr>
     in redo (Some (Account_labels x)) (Some (Account_annotations x)) frame_finalizers
       ((settled [AccountNSReady, AccountWGSKeysReady, AccountWGSConfigReady, DeviceProxyReady, WGDeploysReady, CorednsDeployReady]
          status0)\<lparr>st_DisplayVars := vars\<rparr>) x)"

definition tunnel_ac_env :: "ksecret list \<Rightarrow> ac_env" where
  "tunnel_ac_env W = (sample_ac_env '''' None)\<lparr>ac_secret := (\<lambda>h. case last h of ECall (ACGetSecret ns n) \<Rightarrow> find_secret W n
       | _ \<Rightarrow> Inl (Failure '''')),
     ac_secrets := (\<lambda>_. Inr (device_secrets W)), ac_keys := (\<lambda>_. Inr (''Ps'', ''s'')), ac_render_wg := (\<lambda>c. Inr (wc_PvtKey c)),
     k_status_update := (\<lambda>_. Inl (Failure ''conflict'')), ac_regions := (\<lambda>_. Inr [sample_ac_region ''r''])\<rparr>"

lemma tunnel_ac_env_ok:
  "ac_truth W acc (tunnel_ac_env W)" "ac_paired sample_paired (tunnel_ac_env W)" "keeps_name (tunnel_ac_env W)"
  by (simp_all add: ac_truth_def tunnel_ac_env_def find_secret_answers ac_paired_def sample_paired_def keeps_name_def
      sample_ac_env_def kenv.extend_def storing_env_def stored_update_def)

definition tunnel_device :: "device_spec resource" where
  "tunnel_device = (let x = rs_obj (sample_dv []) in
     redo (Some (Device_labels x)) (Some (Device_annotations (\<lambda>_. Inr ''10.13.0.2'') x)) frame_finalizers
       (settled [WgKeysReady, ServicesSynced, DnsRewriteRulesSynced, deviceConfigSynced] status0) x)"

definition shown_vars :: rawjson where
  "shown_vars = rj_put ''wg-nodeport-r'' (JStr ''31820'') (rj_put ''wg-public-key'' (JStr ''Ps'') rj_empty)"

definition devices_text :: string where
  "devices_text = [CHR ''['', dquote] @ ''edge'' @ [dquote, CHR '']'']"

definition tunnel_dv_env :: "ksecret list \<Rightarrow> dv_env" where
  "tunnel_dv_env W = (sample_dv_env [] '''')\<lparr>dv_secret := (\<lambda>h. case last h of ECall (DVGetSecret ns n) \<Rightarrow> find_secret W n
       | _ \<Rightarrow> Inl (Failure '''')),
     dv_keys := (\<lambda>_. Inr (''Pd'', ''d'')), dv_regions := (\<lambda>_. Inr [sample_ac_region ''r'']),
     dv_devices := (\<lambda>_. Inr [tunnel_device]), dv_configmap := (\<lambda>_. Inr (Some [(''devices'', devices_text)])),
     dv_account := (\<lambda>_. Inr (tunnel_account shown_vars)), k_status_update := (\<lambda>_. Inl (Failure ''conflict'')),
     dv_render_conf := (\<lambda>c. Inr (dc_ServerPublicKey c @ dc_DevicePvtKey c))\<rparr>"

lemma tunnel_dv_env_ok: "dv_truth W acc (tunnel_dv_env W)" "dv_paired sample_paired (tunnel_dv_env W)"
  by (simp_all add: dv_truth_def tunnel_dv_env_def find_secret_answers dv_paired_def sample_paired_def)

definition dv_start :: "(device_spec, dv_call, dv_local) rstate" where
  "dv_start = \<lparr>rs_obj = tunnel_device, rs_hist = [], rs_locals = []\<rparr>"

definition ac_start :: "rawjson \<Rightarrow> (account_spec, ac_call, ac_local) rstate" where
  "ac_start vars = \<lparr>rs_obj = tunnel_account vars, rs_hist = [], rs_locals = []\<rparr>"

definition device_secret :: ksecret where
  "device_secret = \<lparr>kc_Name = sc_Name (keys_doc tunnel_device ''Pd'' ''d'' ''10.13.0.2''),
     kc_Labels = sc_Labels (keys_doc tunnel_device ''Pd'' ''d'' ''10.13.0.2''),
     kc_Data = sc_Data (keys_doc tunnel_device ''Pd'' ''d'' ''10.13.0.2'')\<rparr>"

definition server_secret :: ksecret where
  "server_secret = \<lparr>kc_Name = server_keys_name, kc_Labels = [], kc_Data = Some [(''private-key'', ''s''), (''public-key'', ''Ps'')]\<rparr>"

lemma subseq_one: "x \<in> set xs \<Longrightarrow> subseq [x] xs"
  by (induction xs) auto

lemma tunnel_names: "dv_AccountName (r_spec (rs_obj dv_start)) = ''acc''" "om_Name (r_meta (rs_obj (ac_start vars))) = ''acc''"
    "rs_locals dv_start = []" "rs_hist dv_start = []" "rs_hist (ac_start vars) = []"
  by (simp_all add: dv_start_def ac_start_def tunnel_device_def tunnel_account_def Let_def sample_dv_def sample_state_def sample_meta_def)

text \<open>
  The passes, one step at a time: the state each step leaves is written out, and the last step
  of a pass halts it, since the server refuses the status updates.
\<close>

definition runs_to :: "('sp, 'ev, 'lv, step_result) ract \<Rightarrow> ('sp, 'ev, 'lv) rstate \<Rightarrow> ('sp, 'ev, 'lv) rstate \<Rightarrow> bool" where
  "runs_to m s t = (case m s of (Ret r, u) \<Rightarrow> ShouldProceed r \<and> u = t | (Panic e, u) \<Rightarrow> False)"

definition stops_with :: "('sp, 'ev, 'lv, step_result) ract \<Rightarrow> ('sp, 'ev, 'lv) rstate \<Rightarrow> ('sp, 'ev) event \<Rightarrow> bool" where
  "stops_with m s e = (case m s of (Ret r, u) \<Rightarrow> \<not> ShouldProceed r \<and> e \<in> set (rs_hist u) | (Panic x, u) \<Rightarrow> False)"

lemma runs_to_andStep: "runs_to m s t \<Longrightarrow> andStep m k s = k t"
  by (auto simp: runs_to_def andStep_def andThen_apply split: prod.splits res.splits)

lemma stops_with_andStep: "stops_with m s e \<Longrightarrow> e \<in> set (rs_hist (snd (andStep m k s)))"
  by (auto simp: stops_with_def andStep_def andThen_apply split: prod.splits res.splits)

lemma tunnel_prepared:
  "prepared (Device_methods (dv_ip (tunnel_dv_env W))) [WgKeysReady, ServicesSynced, DnsRewriteRulesSynced, deviceConfigSynced] dv_start"
  "prepared Account_methods [AccountNSReady, AccountWGSKeysReady, AccountWGSConfigReady, DeviceProxyReady, WGDeploysReady,
     CorednsDeployReady] (ac_start v)"
  "\<not> deleting dv_start" "\<not> deleting (ac_start v)"
  by code_simp+

lemma tunnel_bodies:
  "dv_ip E = dv_ip (tunnel_dv_env W) \<Longrightarrow> Device_Reconcile E dv_start = Device_steps E dv_start"
  "Account_Reconcile A (ac_start v) = Account_steps A (ac_start v)"
  using tunnel_prepared by (simp_all add: Device_Reconcile_def Account_Reconcile_def frame_prepared)

definition account_at :: "rawjson \<Rightarrow> ac_call list \<Rightarrow> (string \<times> ac_local) list \<Rightarrow> (account_spec, ac_call, ac_local) rstate" where
  "account_at v es ls = \<lparr>rs_obj = tunnel_account v,
     rs_hist = map ECall ([ACGetNamespace ''wg-acc'', ACListRegions [(AccountNameKey, ''acc'')],
       ACListRegions [(AccountNameKey, ''kl-core'')], ACGetRegion ''master'', ACListDevices [(AccountNameKey, ''acc'')],
       ACListDeploys ''wg-acc'' [(WgDeploy, ''true'')]] @ es),
     rs_locals = [(''regions'', ALRegions [sample_ac_region ''r'', sample_ac_region ''r'']), (''devices'', ALDevices []),
       (''wg-deployments'', ALDeploys [])] @ ls\<rparr>"

definition namespace_read :: "rawjson \<Rightarrow> (account_spec, ac_call, ac_local) rstate" where
  "namespace_read v = (ac_start v)\<lparr>rs_hist := [ECall (ACGetNamespace ''wg-acc'')]\<rparr>"

lemma account_fetched:
  "runs_to (Account_reconNamespace (tunnel_ac_env W)) (ac_start rj_empty) (namespace_read rj_empty)"
  "runs_to (Account_reconNamespace (tunnel_ac_env W)) (ac_start shown_vars) (namespace_read shown_vars)"
  "runs_to (Account_fetchRequired (tunnel_ac_env W)) (namespace_read rj_empty) (account_at rj_empty [] [])"
  "runs_to (Account_fetchRequired (tunnel_ac_env W)) (namespace_read shown_vars) (account_at shown_vars [] [])"
  by code_simp+

lemma keys_sent: "stops_with (Account_reconWGServerKey (tunnel_ac_env [device_secret])) (account_at rj_empty [] [])
    (ECall (ACCreateSecret ''wg-acc'' server_keys_name (kc_Data server_secret) [AsOwner (r_meta (tunnel_account rj_empty)) [True]]))"
  by code_simp

definition config_calls :: "ac_call list" where
  "config_calls = [ACListSecrets ''wg-acc'' [(DeviceWgKey, ''true'')], ACGetSecret ''wg-acc'' ''wg-server-config'',
     ACCreateSecret ''wg-acc'' ''wg-server-config'' (Some [(''data'', ''s'')]) [],
     ACUpdateSecret ''wg-acc'' ''wg-server-config'' (Some [(''data'', ''s'')])]"

lemma config_sent:
  "runs_to (Account_reconWGServerKey (tunnel_ac_env [server_secret, device_secret])) (account_at shown_vars [] [])
     (account_at shown_vars [ACGetSecret ''wg-acc'' server_keys_name] [(''wg-private-key'', ALString ''s'')])"
  "runs_to (Account_reconWGServerConfig (tunnel_ac_env [server_secret, device_secret]))
     (account_at shown_vars [ACGetSecret ''wg-acc'' server_keys_name] [(''wg-private-key'', ALString ''s'')])
     (account_at shown_vars (ACGetSecret ''wg-acc'' server_keys_name # config_calls) [(''wg-private-key'', ALString ''s'')])"
  "stops_with (Account_reconDevProxyConfig (tunnel_ac_env [server_secret, device_secret]))
     (account_at shown_vars (ACGetSecret ''wg-acc'' server_keys_name # config_calls) [(''wg-private-key'', ALString ''s'')])
     (ECall (ACUpdateSecret ''wg-acc'' ''wg-server-config'' (Some [(''data'', ''s'')])))"
  by code_simp+

definition device_at :: "dv_call list \<Rightarrow> (string \<times> dv_local) list \<Rightarrow> (device_spec, dv_call, dv_local) rstate" where
  "device_at es ls = \<lparr>rs_obj = tunnel_device,
     rs_hist = map ECall ([DVListRegions, DVGetConfigMap ''wg-acc'' ''coredns'', DVGetService ''wg-acc'' ''coredns''] @ es),
     rs_locals = [(''regions'', LRegions [sample_ac_region ''r'']), (''dns-devices'', LString devices_text),
       (''dns-ip'', LString '''')] @ ls\<rparr>"

definition device_keys :: "(string \<times> dv_local) list" where
  "device_keys = [(''device-ip'', LString ''10.13.0.2''), (''device-publickey'', LString ''Pd''), (''device-privatekey'', LString ''d'')]"

definition device_reads :: "dv_call list" where
  "device_reads = [DVGetSecret ''wg-acc'' ''wg-device-keys-edge'', DVGetService ''wg-acc'' ''edge'',
     DVListDevices [(''kloudlite.io/account.name'', ''acc'')]]"

text \<open>Of the environment the first four steps do not use how a configuration is rendered.\<close>

definition rendering :: "(device_conf \<Rightarrow> error + string) \<Rightarrow> ksecret list \<Rightarrow> dv_env" where
  "rendering f W = (tunnel_dv_env W)\<lparr>dv_render_conf := f\<rparr>"

lemma rendering_same: "rendering (dv_render_conf (tunnel_dv_env W)) W = tunnel_dv_env W" "dv_ip (rendering f W) = dv_ip (tunnel_dv_env W)"
  by (simp_all add: rendering_def)

lemma device_fetched: "runs_to (Device_fetchRequired (rendering f W)) dv_start (device_at [] [])"
  by code_simp

lemma device_keys_sent: "stops_with (Device_reconWgKeys (rendering f [])) (device_at [] [])
    (ECall (DVCreateSecret (keys_doc tunnel_device ''Pd'' ''d'' ''10.13.0.2'')))"
  by code_simp

lemma device_steps_run:
  "runs_to (Device_reconWgKeys (rendering f [server_secret, device_secret])) (device_at [] [])
     (device_at (take 1 device_reads) device_keys)"
  "runs_to (Device_reconSyncServices (rendering f W)) (device_at (take 1 device_reads) device_keys)
     (device_at (take 2 device_reads) device_keys)"
  "runs_to (Device_reconDnsRewriteRules (rendering f W)) (device_at (take 2 device_reads) device_keys)
     (device_at device_reads (device_keys @ [(''devices'', LDevices [tunnel_device])]))"
  by code_simp+

definition configured :: "string \<Rightarrow> (device_spec, dv_call, dv_local) rstate" where
  "configured out = device_at (device_reads @ [DVGetSecret ''wg-acc'' ''wg-device-config-edge'', DVGetAccount ''acc'',
     DVGetSecret ''wg-acc'' ''wg-device-config-edge'', DVCreateSecret (config_doc tunnel_device (Some [(''config-r'', out)]))])
     (device_keys @ [(''devices'', LDevices [tunnel_device])])"

lemma device_pass_writes:
  assumes "runs_to (Device_reconDeviceConfig (rendering f [server_secret, device_secret]))
    (device_at device_reads (device_keys @ [(''devices'', LDevices [tunnel_device])])) (configured out)"
  shows "ECall (DVCreateSecret (config_doc tunnel_device (Some [(''config-r'', out)])))
    \<in> set (rs_hist (snd (Device_Reconcile (rendering f [server_secret, device_secret]) dv_start)))"
proof -
  have "ECall (DVCreateSecret (config_doc tunnel_device (Some [(''config-r'', out)]))) \<in> set (rs_hist (configured out))"
    by (simp add: configured_def device_at_def)
  moreover have "keeps (emits (\<lambda>_. True)) (complete (rendering f [server_secret, device_secret]))"
    by (intro keeps_intros) (simp add: status_ok_def)
  then have "emits (\<lambda>_. True) (configured out) (snd (complete (rendering f [server_secret, device_secret]) (configured out)))"
    by (rule keepsD)
  ultimately show ?thesis
    by (simp only: tunnel_bodies(1) [OF rendering_same(2)] Device_steps_def runs_to_andStep [OF device_fetched]
        device_steps_run [THEN runs_to_andStep] runs_to_andStep [OF assms]) (auto simp: emits_def)
qed

lemma first_pass: "ECall (DVCreateSecret (keys_doc tunnel_device ''Pd'' ''d'' ''10.13.0.2''))
    \<in> set (rs_hist (snd (Device_Reconcile (tunnel_dv_env []) dv_start)))"
proof -
  let ?E = "rendering (dv_render_conf (tunnel_dv_env [])) []"
  have "ECall (DVCreateSecret (keys_doc tunnel_device ''Pd'' ''d'' ''10.13.0.2'')) \<in> set (rs_hist (snd (Device_Reconcile ?E dv_start)))"
    by (simp only: tunnel_bodies(1) [OF rendering_same(2)] Device_steps_def runs_to_andStep [OF device_fetched]
        stops_with_andStep [OF device_keys_sent])
  then show ?thesis unfolding rendering_same .
qed

lemma second_pass: "ECall (ACCreateSecret ''wg-acc'' server_keys_name (kc_Data server_secret)
      [AsOwner (r_meta (tunnel_account rj_empty)) [True]])
    \<in> set (rs_hist (snd (Account_Reconcile (tunnel_ac_env [device_secret]) (ac_start rj_empty))))"
  by (simp only: tunnel_bodies Account_steps_def account_fetched [THEN runs_to_andStep] stops_with_andStep [OF keys_sent])

lemma third_pass: "ECall (ACUpdateSecret ''wg-acc'' ''wg-server-config'' (Some [(''data'', ''s'')]))
    \<in> set (rs_hist (snd (Account_Reconcile (tunnel_ac_env [server_secret, device_secret]) (ac_start shown_vars))))"
  by (simp only: tunnel_bodies Account_steps_def account_fetched [THEN runs_to_andStep]
      config_sent(1,2) [THEN runs_to_andStep] stops_with_andStep [OF config_sent(3)])

lemma configs_rendered: "runs_to (Device_reconDeviceConfig (tunnel_dv_env [server_secret, device_secret]))
    (device_at device_reads (device_keys @ [(''devices'', LDevices [tunnel_device])])) (configured ''Psd'')"
  by code_simp

lemma fourth_pass: "ECall (DVCreateSecret (config_doc tunnel_device (Some [(''config-r'', ''Psd'')])))
    \<in> set (rs_hist (snd (Device_Reconcile (tunnel_dv_env [server_secret, device_secret]) dv_start)))"
  using device_pass_writes [of "dv_render_conf (tunnel_dv_env [server_secret, device_secret])"] configs_rendered
  by (simp only: rendering_same)

lemma device_secret_reach: "wg_reach sample_paired ''acc'' [device_secret]"
proof -
  have "wg_reach sample_paired ''acc'' (fold (dv_effect ''acc'')
      [ECall (DVCreateSecret (keys_doc tunnel_device ''Pd'' ''d'' ''10.13.0.2''))] [])"
    by (rule wg_reach.device_pass [OF wg_reach.start tunnel_names(1) tunnel_dv_env_ok tunnel_names(3) _ subseq_one [OF first_pass]])
      (simp add: tunnel_names)
  moreover have "sc_Namespace (keys_doc tunnel_device ''Pd'' ''d'' ''10.13.0.2'') = wg_ns ''acc''"
    using tunnel_names(1) by (simp add: keys_doc_def dv_start_def)
  ultimately show ?thesis by (simp add: put_secret_def device_secret_def)
qed

lemma server_secret_reach: "wg_reach sample_paired ''acc'' [server_secret, device_secret]"
proof -
  have "wg_reach sample_paired ''acc'' (fold (ac_effect ''acc'')
      [ECall (ACCreateSecret ''wg-acc'' server_keys_name (kc_Data server_secret)
        [AsOwner (r_meta (tunnel_account rj_empty)) [True]])] [device_secret])"
    by (rule wg_reach.account_pass [OF device_secret_reach tunnel_names(2) tunnel_ac_env_ok _ subseq_one [OF second_pass]])
      (simp add: tunnel_names)
  moreover have "kc_Name device_secret \<noteq> server_keys_name"
    by (simp add: device_secret_def keys_doc_def server_keys_name_def)
  ultimately show ?thesis by (simp add: put_secret_def server_secret_def wg_ns_def)
qed


end
