(* ===== verification/Endpoints.thy ===== *)
theory Endpoints
  imports Tunnel Region
begin

text \<open>
  The name under which a device finds the server of a region: the endpoint that the device controller
  writes into a configuration and the record that the region controller keeps at the nameserver.
\<close>

section \<open>The pass of a region\<close>

text \<open>All that a region's pass sends is the addresses of listed nodes under the domain of the region.\<close>

definition region_sends :: "rg_env \<Rightarrow> region_spec resource \<Rightarrow> (region_spec, rg_call) event \<Rightarrow> bool" where
  "region_sends R obj e \<longleftrightarrow> (\<forall>req. e = ECall (RGHttp req) \<longrightarrow> (\<exists>h nodes. rg_nodes R (h @ [ECall (RGListNodes (region_selector obj))]) = Inr nodes
     \<and> req = upsert_domain_req (rg_server R) (region_domain obj) (node_ips nodes)))"

lemma region_sends_simps [simp]:
  "status_ok (region_sends R obj)" "update_ok (region_sends R obj)" "exec_ok (region_sends R obj)"
  "region_sends R obj (ECall (RGListNodes l))"
  by (simp_all add: region_sends_def status_ok_def update_ok_def exec_ok_def)

lemma reconUpdateRecord_sends: "during (region_sends R obj) (same_obj obj) (\<lambda>_ _. True) (Region_reconUpdateRecord R)"
proof -
  let ?ok = "region_sends R obj"
  have send: "keeps (emits ?ok) (UpsertDomain (rg_bad_url R) (rg_send R) (rg_server R) (region_domain obj) (node_ips nodes))"
    if "rg_nodes R (h @ [ECall (RGListNodes (region_selector obj))]) = Inr nodes" for h nodes
  proof -
    have "?ok (ECall (RGHttp (upsert_domain_req (rg_server R) (region_domain obj) (node_ips nodes))))"
      using that unfolding region_sends_def by blast
    then show ?thesis unfolding ns_defs rg_send_def by (auto intro!: keeps_intros split: option.split)
  qed
  show ?thesis
    unfolding Region_reconUpdateRecord_def Let_def
    by (rule during_obj, assumption, rule during_andThen [OF during_ask_result], simp, simp, rule during_conj, erule exE,
        rule during_sum; rule during_keeps) (auto intro!: keeps_intros send split: option.split)
qed

lemma Region_pass:
  assumes "Region_Reconcile R u = (r, v)"
  shows "emits (region_sends R (rs_obj u)) u v"
  using assms unfolding Region_Reconcile_def
proof (rule frame_run_cases [where Q = "region_sends R (rs_obj u)"])
  let ?ok = "region_sends R (rs_obj u)"
  have complete: "keeps (emits ?ok) (complete R)" by (intro keeps_intros) simp
  have "during ?ok (same_obj (rs_obj u)) (\<lambda>_ _. True) (andStep (Region_reconUpdateRecord R) (complete R))"
    by (rule during_andStep [where R = "\<lambda>_. True"], rule during_mono [OF reconUpdateRecord_sends])
      (simp_all add: during_keeps [OF complete])
  moreover assume "andStep (Region_reconUpdateRecord R) (complete R) u = (r, v)"
  ultimately show ?thesis using during_emits by fastforce
next
  show "keeps (emits (region_sends R (rs_obj u))) (Region_finalize R)"
    unfolding Region_finalize_def by (intro keeps_intros) simp
qed auto

section \<open>Properties\<close>

text \<open>The name of a server in a device's configuration.  A master region's is taken from the device.\<close>

definition server_host :: "device_spec resource \<Rightarrow> region \<Rightarrow> string" where
  "server_host obj g = (if rg_IsMaster (r_spec g) then om_Name (r_meta obj) @ ''.wg.khost.dev'' else region_domain g)"

lemma endpoint_host: "endpoint obj g port = server_host obj g @ '':'' @ port"
  by (simp add: endpoint_def server_host_def region_domain_def)

text \<open>C6. A device's configurations name their servers as the region controller registers them.  When a pass over
  a device writes its configurations and a pass over a region sends records to the nameserver, then
  the file of that region has the registered domain and the port that the account shows for the region
  as its endpoint, and the records are the public addresses of the region's nodes.  This holds of
  regions that are not masters; the endpoint of a master region is named after the device instead of
  the region.\<close>

theorem Device_endpoints_are_registered:
  assumes "dv_AccountName (r_spec (rs_obj s)) = acc" and "dv_truth W acc E" and "dv_paired paired E" and "rs_locals s = []"
    and "makes s (snd (Device_Reconcile E s)) ev" and "conf_event (rs_obj s) data ev"
    and "(''config-'' @ om_Name (r_meta (rs_obj u)), out) \<in> set (gm_entries data)"
    and "\<And>h gs g. dv_regions E h = Inr gs \<Longrightarrow> g \<in> set gs \<Longrightarrow> om_Name (r_meta g) = om_Name (r_meta (rs_obj u)) \<Longrightarrow> r_spec g = r_spec (rs_obj u)"
    and "makes u (snd (Region_Reconcile R u)) (ECall (RGHttp req))"
  shows "\<exists>conf h a port domain h' nodes. dv_render_conf E conf = Inr out
    \<and> dv_account E h = Inr a \<and> shown_var a (''wg-nodeport-'' @ om_Name (r_meta (rs_obj u))) = Some port
    \<and> dc_ServerEndpoint conf = (if rg_IsMaster (r_spec (rs_obj u)) then om_Name (r_meta (rs_obj s)) @ ''.wg.khost.dev'' else domain)
         @ '':'' @ port
    \<and> rg_nodes R (h' @ [ECall (RGListNodes (region_selector (rs_obj u)))]) = Inr nodes
    \<and> req = upsert_domain_req (rg_server R) domain (node_ips nodes)"
proof -
  obtain conf where "conf_of W E (rs_obj s) (''config-'' @ om_Name (r_meta (rs_obj u))) out conf"
    using Device_writes [OF assms(1-7)] by blast
  then obtain h a h' gs g port where conf: "dv_render_conf E conf = Inr out" "dv_account E h = Inr a" "dv_regions E h' = Inr gs"
      "g \<in> set gs" "om_Name (r_meta g) = om_Name (r_meta (rs_obj u))"
      "shown_var a (''wg-nodeport-'' @ om_Name (r_meta (rs_obj u))) = Some port" "dc_ServerEndpoint conf = endpoint (rs_obj s) g port"
    by (auto simp: conf_of_def region_server_def)
  have spec: "r_spec g = r_spec (rs_obj u)" using assms(8) conf(3,4,5) by blast
  obtain r v where run: "Region_Reconcile R u = (r, v)" by fastforce
  have "region_sends R (rs_obj u) (ECall (RGHttp req))"
    using emits_makes [OF Region_pass [OF run]] assms(9) run by simp
  then obtain h'' nodes where "rg_nodes R (h'' @ [ECall (RGListNodes (region_selector (rs_obj u)))]) = Inr nodes"
      "req = upsert_domain_req (rg_server R) (region_domain (rs_obj u)) (node_ips nodes)"
    by (auto simp: region_sends_def)
  moreover have "dc_ServerEndpoint conf = (if rg_IsMaster (r_spec (rs_obj u)) then om_Name (r_meta (rs_obj s)) @ ''.wg.khost.dev''
      else region_domain (rs_obj u)) @ '':'' @ port"
    using conf(5,7) spec by (simp add: endpoint_host server_host_def region_domain_def)
  ultimately show ?thesis using conf(1,2,6) by blast
qed

section \<open>Witness\<close>

definition endpoint_env :: "ksecret list \<Rightarrow> dv_env" where
  "endpoint_env = rendering (\<lambda>c. Inr (dc_ServerEndpoint c))"

lemma endpoint_env_ok: "dv_truth W acc (endpoint_env W)" "dv_paired sample_paired (endpoint_env W)"
  using tunnel_dv_env_ok by (simp_all add: endpoint_env_def rendering_def dv_truth_def dv_paired_def)

definition endpoint_region :: "(region_spec, rg_call, unit) rstate" where
  "endpoint_region = (let x = sample_ac_region ''r'' in
     \<lparr>rs_obj = redo (Some (Region_labels x)) (Some (Region_annotations x)) frame_finalizers (settled [RecoardUpToDate] status0) x,
      rs_hist = [], rs_locals = []\<rparr>)"

lemma endpoint_written: "ECall (DVCreateSecret (config_doc tunnel_device (Some [(''config-r'', ''r.acc.wg.khost.dev:31820'')])))
    \<in> set (rs_hist (snd (Device_Reconcile (endpoint_env [server_secret, device_secret]) dv_start)))"
  unfolding endpoint_env_def by (rule device_pass_writes) code_simp

lemma records_sent: "ECall (RGHttp (upsert_domain_req (rg_server sample_rg_env) ''r.acc.wg.khost.dev'' [''1.1.1.1'']))
    \<in> set (rs_hist (snd (Region_Reconcile sample_rg_env endpoint_region)))"
  by code_simp

lemma Device_endpoints_are_registered_witness:
  "\<exists>(conf :: device_conf) port domain nodes. dc_ServerEndpoint conf = ''r.acc.wg.khost.dev:31820''
    \<and> dc_ServerEndpoint conf = domain @ '':'' @ port \<and> nodes = sample_nodes
    \<and> upsert_domain_req (rg_server sample_rg_env) ''r.acc.wg.khost.dev'' [''1.1.1.1'']
        = upsert_domain_req (rg_server sample_rg_env) domain (node_ips nodes)"
proof -
  let ?E = "endpoint_env [server_secret, device_secret]" and ?u = endpoint_region
  have obj: "rs_obj dv_start = tunnel_device" by (simp add: dv_start_def)
  have name: "om_Name (r_meta (rs_obj ?u)) = ''r''" "\<not> rg_IsMaster (r_spec (rs_obj ?u))" "rs_hist ?u = []"
      "r_spec (rs_obj ?u) = r_spec (sample_ac_region ''r'')"
    by (simp_all add: endpoint_region_def Let_def sample_ac_region_def)
  have device: "makes dv_start (snd (Device_Reconcile ?E dv_start))
      (ECall (DVCreateSecret (config_doc tunnel_device (Some [(''config-r'', ''r.acc.wg.khost.dev:31820'')]))))"
    using endpoint_written by (simp add: makes_def tunnel_names)
  have region: "makes ?u (snd (Region_Reconcile sample_rg_env ?u))
      (ECall (RGHttp (upsert_domain_req (rg_server sample_rg_env) ''r.acc.wg.khost.dev'' [''1.1.1.1''])))"
    using records_sent by (simp add: makes_def name)
  have conf: "conf_event (rs_obj dv_start) (Some [(''config-r'', ''r.acc.wg.khost.dev:31820'')])
      (ECall (DVCreateSecret (config_doc tunnel_device (Some [(''config-r'', ''r.acc.wg.khost.dev:31820'')]))))"
    by (simp add: conf_event_def obj)
  have member: "(''config-'' @ om_Name (r_meta (rs_obj ?u)), ''r.acc.wg.khost.dev:31820'')
      \<in> set (gm_entries (Some [(''config-r'', ''r.acc.wg.khost.dev:31820'')]))" by (simp add: name)
  have listed: "r_spec g = r_spec (rs_obj ?u)" if "dv_regions ?E h = Inr gs" "g \<in> set gs" for h gs g
    using that by (auto simp: endpoint_env_def rendering_def tunnel_dv_env_def name)
  obtain conf h a port domain h' nodes where "dv_render_conf ?E conf = Inr ''r.acc.wg.khost.dev:31820''"
      "dc_ServerEndpoint conf = domain @ '':'' @ port"
      "rg_nodes sample_rg_env (h' @ [ECall (RGListNodes (region_selector (rs_obj ?u)))]) = Inr nodes"
      "upsert_domain_req (rg_server sample_rg_env) ''r.acc.wg.khost.dev'' [''1.1.1.1'']
        = upsert_domain_req (rg_server sample_rg_env) domain (node_ips nodes)"
    using Device_endpoints_are_registered [OF tunnel_names(1) endpoint_env_ok tunnel_names(3) device conf member _ region] listed name(2)
    by auto
  then show ?thesis
    by (intro exI [of _ conf] exI [of _ port] exI [of _ domain] exI [of _ nodes]) (simp add: endpoint_env_def rendering_def)
qed

end
