(* ===== verification/NodePorts.thy ===== *)
theory NodePorts
  imports Endpoints
begin

text \<open>
  The port under which a device reaches the server of a region: the node port of the region's service,
  which the deployments step of the account shows in the account's status, and which the device
  controller reads there.
\<close>

section \<open>What the account shows\<close>

definition shows_port :: "wg_service \<Rightarrow> account \<Rightarrow> bool" where
  "shows_port svc a \<longleftrightarrow> (\<forall>port rest region. ws_NodePorts svc = port # rest \<longrightarrow> port \<noteq> 0
     \<longrightarrow> gm_get (ws_Labels svc) ''region'' = Some region \<longrightarrow> shown_var a (''wg-nodeport-'' @ region) = Some (itoa port))"

abbreviation disp :: "(account_spec, ac_call, ac_local) rstate \<Rightarrow> rawjson" where
  "disp s \<equiv> st_DisplayVars (r_status (rs_obj s))"

lemma shown_var_lookup: "rj_ok (st_DisplayVars (r_status a)) \<Longrightarrow>
    shown_var a k = (case rj_lookup (st_DisplayVars (r_status a)) k of Some (JStr v) \<Rightarrow> Some v | _ \<Rightarrow> None)"
  by (simp add: shown_var_def rj_GetString_result)

lemma onDisplayVars_get:
  "rj_ok (disp s) \<Longrightarrow> \<exists>t. onDisplayVars (rj_GetString k) s = (Ret (shown_var (rs_obj s) k), t) \<and> rs_hist t = rs_hist s
     \<and> rj_ok (disp t) \<and> shown_var (rs_obj t) = shown_var (rs_obj s)"
  by (auto simp: onDisplayVars_def rj_GetString_result shown_var_lookup rj_lookup_refresh intro!: ext)

lemma record_ports_shown:
  assumes "record_ports svcs b s = (Ret False, t)" and "rj_ok (disp s)"
  shows "\<not> b \<and> rs_hist t = rs_hist s \<and> shown_var (rs_obj t) = shown_var (rs_obj s) \<and> (\<forall>svc \<in> set svcs. shows_port svc (rs_obj t))"
  using assms
proof (induction svcs arbitrary: b s)
  case (Cons svc svcs)
  obtain port rest where ports: "ws_NodePorts svc = port # rest" using Cons.prems(1) by (cases "ws_NodePorts svc") auto
  show ?case
  proof (cases "port = 0 \<or> gm_get (ws_Labels svc) ''region'' = None")
    case True
    then have "record_ports svcs b s = (Ret False, t)" using Cons.prems(1) ports by (auto split: if_splits)
    from Cons.IH [OF this Cons.prems(2)] True ports show ?thesis by (auto simp: shows_port_def)
  next
    case False
    then obtain region where region: "gm_get (ws_Labels svc) ''region'' = Some region" "port \<noteq> 0" by auto
    obtain k where k: "k = ''wg-nodeport-'' @ region" by blast
    have step: "record_ports (svc # svcs) b s = andThen (onDisplayVars (rj_GetString k)) (\<lambda>np.
        if np \<noteq> Some (itoa port) then andThen (onDisplayVars (rj_Set k (JStr (itoa port)))) (\<lambda>_. record_ports svcs True)
        else record_ports svcs b) s"
      by (simp only: record_ports.simps ports region k list.case option.case if_False)
    obtain u where u: "onDisplayVars (rj_GetString k) s = (Ret (shown_var (rs_obj s) k), u)" "rs_hist u = rs_hist s"
        "rj_ok (disp u)" "shown_var (rs_obj u) = shown_var (rs_obj s)"
      using onDisplayVars_get [OF Cons.prems(2)] by blast
    show ?thesis
    proof (cases "shown_var (rs_obj s) k = Some (itoa port)")
      case True
      then have "record_ports svcs b u = (Ret False, t)" using Cons.prems(1) u(1) unfolding step by (simp add: andThen_apply)
      from Cons.IH [OF this u(3)] u True ports region show ?thesis by (auto simp: shows_port_def k)
    next
      case False
      obtain v x where v: "onDisplayVars (rj_Set k (JStr (itoa port))) u = (Ret x, v)" "rj_ok (disp v)"
        using u(3) by (auto simp: onDisplayVars_def dest: rj.invar_put)
      have "record_ports svcs True v = (Ret False, t)"
        using Cons.prems(1) False unfolding step by (simp add: andThen_apply u(1) v(1))
      from Cons.IH [OF this v(2)] show ?thesis by simp
    qed
  qed
qed simp

lemma updateDeployments_same: "during (\<lambda>_. True) (same_obj obj) (\<lambda>_. same_obj obj) (updateDeployments A)"
proof -
  have "during (\<lambda>_. True) (same_obj obj) (\<lambda>_. same_obj obj) (update_regions A obj deploys devices gs)" for deploys devices gs
    by (induction gs) (auto intro!: same_rules)
  then show ?thesis unfolding updateDeployments_def by (intro same_rules) simp_all
qed

definition services_event :: "account \<Rightarrow> (account_spec, ac_call) event" where
  "services_event obj = ECall (ACListServices (account_ns obj) [(WgService, ''true'')])"

section \<open>What holds when a step goes on\<close>

text \<open>\<open>gives Q m s\<close>: when \<open>m\<close> ends normally from \<open>s\<close>, its result and state satisfy \<open>Q\<close>.\<close>

definition gives :: "('a \<Rightarrow> 's \<Rightarrow> bool) \<Rightarrow> ('s, 'a) act \<Rightarrow> 's \<Rightarrow> bool" where
  "gives Q m s \<longleftrightarrow> (\<forall>a t. m s = (Ret a, t) \<longrightarrow> Q a t)"

lemma gives_andThen: "gives (\<lambda>a u. gives Q (k a) u) m s \<Longrightarrow> gives Q (andThen m k) s"
  by (auto simp: gives_def andThen_eq_Ret)

lemma gives_gets: "Q (f s) s \<Longrightarrow> gives Q (gets f) s"
  by (simp add: gives_def gets_def)

lemma gives_GetLocal: "(\<And>x. Q x s) \<Longrightarrow> gives Q (GetLocal prj k) s"
  unfolding GetLocal_def by (rule gives_gets)

lemma gives_ask: "Q (f (rs_hist s @ [ev])) (s\<lparr>rs_hist := rs_hist s @ [ev]\<rparr>) \<Longrightarrow> gives Q (ask ev f) s"
  by (simp add: gives_def ask_def)

lemma gives_option: "(x = None \<Longrightarrow> gives Q m s) \<Longrightarrow> (\<And>y. x = Some y \<Longrightarrow> gives Q (n y) s)
    \<Longrightarrow> gives Q (case x of None \<Rightarrow> m | Some y \<Rightarrow> n y) s"
  by (cases x) auto

lemma gives_if: "(b \<Longrightarrow> gives Q m s) \<Longrightarrow> (\<not> b \<Longrightarrow> gives Q n s) \<Longrightarrow> gives Q (if b then m else n) s"
  by simp

lemma gives_CheckFailed: "(\<And>r t. \<not> ShouldProceed r \<Longrightarrow> Q r t) \<Longrightarrow> gives Q (CheckFailed E n c m) s"
  by (auto simp: gives_def dest: CheckFailed_stops)

lemma gives_any: "(\<And>r t. Q r t) \<Longrightarrow> gives Q m s"
  by (simp add: gives_def)

lemma gives_settleCheck: "(\<And>r t. (ShouldProceed r \<Longrightarrow> t = s) \<Longrightarrow> Q r t) \<Longrightarrow> gives Q (settleCheck E n c) s"
  unfolding gives_def by (metis settleCheck_proceeds)

lemma gives_during:
  "during (\<lambda>_. True) (same_obj (rs_obj s)) (\<lambda>_. same_obj (rs_obj s)) m
    \<Longrightarrow> (\<And>a t es. rs_hist t = rs_hist s @ es \<Longrightarrow> rs_obj t = rs_obj s \<Longrightarrow> Q a t) \<Longrightarrow> gives Q m s"
  by (auto simp: gives_def during_def emits_def)

lemma gives_record_ports:
  "rj_ok (disp s) \<Longrightarrow> (\<And>t. Q True t)
    \<Longrightarrow> (\<And>t. rs_hist t = rs_hist s \<Longrightarrow> (\<forall>svc \<in> set svcs. shows_port svc (rs_obj t)) \<Longrightarrow> Q False t)
    \<Longrightarrow> gives Q (record_ports svcs False) s"
  unfolding gives_def using record_ports_shown by (metis (full_types))

lemma update_if: "during (\<lambda>_. True) (same_obj obj) (\<lambda>_. same_obj obj) (if b then updateDeployments A else ret None)"
  using updateDeployments_same by (auto intro!: during_ret)

lemma services_if: "during (\<lambda>_. True) (same_obj obj) (\<lambda>_. same_obj obj)
    (if b then (case r of Inl e \<Rightarrow> if \<not> IsNotFound e then ret (Some e) else updateDeployments A | Inr xs \<Rightarrow> updateDeployments A) else ret None)"
  using updateDeployments_same by (auto intro!: during_ret same_ret split: sum.split)

definition shown_in :: "ac_env \<Rightarrow> (account_spec, ac_call, ac_local) rstate \<Rightarrow> (account_spec, ac_call, ac_local) rstate \<Rightarrow> bool" where
  "shown_in A s t \<longleftrightarrow> (\<exists>es es'. rs_hist t = rs_hist s @ es @ services_event (rs_obj s) # es'
    \<and> (\<forall>svc \<in> set (found (ac_services A (rs_hist s @ es @ [services_event (rs_obj s)]))). shows_port svc (rs_obj t)))"

lemma deployments_shown:
  assumes "rj_ok (disp s)"
  shows "gives (\<lambda>r t. ShouldProceed r \<longrightarrow> shown_in A s t) (Account_reconDeployments A) s"
  unfolding Account_reconDeployments_def Let_def
  apply (rule gives_andThen, rule gives_gets, rule gives_andThen, rule gives_GetLocal, rule gives_option, rule gives_CheckFailed, simp)
  apply (rule gives_andThen, rule gives_GetLocal, rule gives_andThen, rule gives_during [OF update_if])
  apply (rule gives_option)
  apply (rule gives_andThen, rule gives_ask, rule gives_andThen, rule gives_during [OF services_if])
  apply (rule gives_option, rule gives_andThen, rule gives_record_ports)
  apply (simp add: assms)
  apply (simp, rule gives_andThen, rule gives_any, rule gives_CheckFailed, simp)
  apply (simp, rule gives_settleCheck)
  apply (force simp: shown_in_def services_event_def)
  apply (rule gives_CheckFailed, simp)+
  done

section \<open>Properties\<close>

text \<open>C7. The endpoint in a device's configuration has the port on which the service of the region's server is
  reached from outside.  When the deployments step of a pass over the account goes on, its object shows
  for each service listed, under the region of the service's label, the node port of the service; and
  when a pass over a device that reads what is shown there writes a configuration for that region, its
  endpoint is the one of a listed region of that name, with that port.\<close>

theorem Device_endpoints_have_node_ports:
  assumes "rj_ok (st_DisplayVars (r_status (rs_obj q)))"
    and "Account_reconDeployments A q = (Ret r, t)" and "ShouldProceed r"
    and "dv_AccountName (r_spec (rs_obj s)) = acc" and "dv_truth W acc E" and "dv_paired paired E" and "rs_locals s = []"
    and "makes s (snd (Device_Reconcile E s)) ev" and "conf_event (rs_obj s) data ev"
    and "(''config-'' @ region, out) \<in> set (gm_entries data)"
    and "\<And>h a. dv_account E h = Inr a \<Longrightarrow> shown_var a (''wg-nodeport-'' @ region) = shown_var (rs_obj t) (''wg-nodeport-'' @ region)"
  shows "\<exists>es es'. rs_hist t = rs_hist q @ es @ services_event (rs_obj q) # es'
    \<and> (\<forall>svc \<in> set (found (ac_services A (rs_hist q @ es @ [services_event (rs_obj q)]))).
        \<forall>port rest. ws_NodePorts svc = port # rest \<and> port \<noteq> 0 \<and> gm_get (ws_Labels svc) ''region'' = Some region
          \<longrightarrow> (\<exists>conf h gs g. dv_render_conf E conf = Inr out \<and> dv_regions E h = Inr gs \<and> g \<in> set gs \<and> om_Name (r_meta g) = region
              \<and> dc_ServerEndpoint conf = endpoint (rs_obj s) g (itoa port)))"
proof -
  obtain conf where "conf_of W E (rs_obj s) (''config-'' @ region) out conf" using Device_writes [OF assms(4-10)] by blast
  then obtain h a h' gs g port where conf: "dv_render_conf E conf = Inr out" "dv_account E h = Inr a" "dv_regions E h' = Inr gs"
      "g \<in> set gs" "om_Name (r_meta g) = region" "shown_var a (''wg-nodeport-'' @ region) = Some port"
      "dc_ServerEndpoint conf = endpoint (rs_obj s) g port"
    by (auto simp: conf_of_def region_server_def)
  have "shown_in A q t" using deployments_shown [OF assms(1), of A] assms(2,3) unfolding gives_def by blast
  then obtain es es' where ports: "rs_hist t = rs_hist q @ es @ services_event (rs_obj q) # es'"
      "\<forall>svc \<in> set (found (ac_services A (rs_hist q @ es @ [services_event (rs_obj q)]))). shows_port svc (rs_obj t)"
    unfolding shown_in_def by blast
  have "p = port'" if "shows_port svc (rs_obj t)" "ws_NodePorts svc = n # rest" "n \<noteq> 0"
      "gm_get (ws_Labels svc) ''region'' = Some region" "port' = itoa n" "p = port" for svc n rest p port'
  proof -
    have "shown_var (rs_obj t) (''wg-nodeport-'' @ region) = Some (itoa n)"
      using that(1-4) unfolding shows_port_def by blast
    then show ?thesis using assms(11) [OF conf(2)] conf(6) that(5,6) by (metis option.inject)
  qed
  then show ?thesis using ports conf by (intro exI [of _ es] exI [of _ es']) blast
qed

section \<open>Witness\<close>

definition port_env :: ac_env where
  "port_env = (tunnel_ac_env [])\<lparr>ac_services := (\<lambda>_. Inr [\<lparr>ws_NodePorts = [31820], ws_Labels = Some [(''region'', ''r'')]\<rparr>])\<rparr>"

lemma node_port_text: "itoa 31820 = ''31820''"
proof -
  have "[digit 3, digit 1, digit 8, digit 2, digit 0] = ''31820''" by code_simp
  then show ?thesis by (simp add: itoa_def nat_digits.simps)
qed

lemma tunnel_account_vars: "st_DisplayVars (r_status (tunnel_account v)) = v"
  by (simp add: tunnel_account_def Let_def redo_def)

lemma port_read: "rj_GetString ''wg-nodeport-r'' shown_vars = (Ret (Some ''31820''), shown_vars)"
  by code_simp

abbreviation port_service :: wg_service where
  "port_service \<equiv> \<lparr>ws_NodePorts = [31820], ws_Labels = Some [(''region'', ''r'')]\<rparr>"

lemma port_recorded: "record_ports [port_service] False (account_at shown_vars es ls) = (Ret False, account_at shown_vars es ls)"
proof -
  have "onDisplayVars (rj_GetString ''wg-nodeport-r'') (account_at shown_vars es ls) = (Ret (Some ''31820''), account_at shown_vars es ls)"
    using port_read tunnel_account_vars [of shown_vars]
    by (cases "tunnel_account shown_vars") (simp add: onDisplayVars_def account_at_def)
  then show ?thesis by (simp add: andThen_apply node_port_text gm_get_def)
qed

lemma port_steps:
  "GetLocal regions_local ''regions'' (account_at v es ls) = (Ret (Some [sample_ac_region ''r'', sample_ac_region ''r'']), account_at v es ls)"
  "GetLocal deploys_local ''wg-deployments'' (account_at v es ls) = (Ret (Some []), account_at v es ls)"
  "updateDeployments port_env (account_at shown_vars es []) = (Ret None, account_at shown_vars es [])"
  "settleCheck port_env WGDeploysReady (CheckGen 1) (account_at shown_vars es []) = (Ret (Continue New True), account_at shown_vars es [])"
  "om_Generation (r_meta (tunnel_account v)) = 1"
proof -
  show regions: "GetLocal regions_local ''regions'' (account_at v es ls) = (Ret (Some [sample_ac_region ''r'', sample_ac_region ''r'']), account_at v es ls)" for v es ls
    by (simp add: GetLocal_def gets_def account_at_def)
  show deploys: "GetLocal deploys_local ''wg-deployments'' (account_at v es ls) = (Ret (Some []), account_at v es ls)" for v es ls
    by (simp add: GetLocal_def gets_def account_at_def)
  have "GetLocal devices_local ''devices'' (account_at v es ls) = (Ret (Some []), account_at v es ls)" for v es ls
    by (simp add: GetLocal_def gets_def account_at_def)
  then show "updateDeployments port_env (account_at shown_vars es []) = (Ret None, account_at shown_vars es [])"
    using regions deploys by (simp add: updateDeployments_def andThen_apply active_def)
  show "settleCheck port_env WGDeploysReady (CheckGen 1) (account_at shown_vars es []) = (Ret (Continue New True), account_at shown_vars es [])"
    by code_simp
  show "om_Generation (r_meta (tunnel_account v)) = 1" by code_simp
qed

lemma port_env_run: "Account_reconDeployments port_env (account_at shown_vars [] [])
    = (Ret (Continue New True), account_at shown_vars [ACListServices ''wg-acc'' [(WgService, ''true'')]] [])"
proof -
  have obj: "rs_obj (account_at v es ls) = tunnel_account v" for v es ls by (simp add: account_at_def)
  have asked: "ask (ECall (ACListServices ns l)) f (account_at v [] ls)
      = (Ret (f (rs_hist (account_at v [ACListServices ns l] ls))), account_at v [ACListServices ns l] ls)" for ns l f v ls
    by (simp add: ask_def account_at_def)
  have "account_ns (tunnel_account shown_vars) = ''wg-acc''" "ac_services port_env h = Inr [port_service]" for h
    by (simp_all add: account_ns_def wg_ns_def tunnel_account_def redo_def Let_def port_env_def)
  then show ?thesis
    by (simp add: Account_reconDeployments_def Let_def andThen_apply obj port_steps asked port_recorded found_def del: record_ports.simps)
qed

lemma Device_endpoints_have_node_ports_witness:
  "\<exists>conf g. dv_render_conf (endpoint_env [server_secret, device_secret]) conf = Inr ''r.acc.wg.khost.dev:31820''
     \<and> om_Name (r_meta g) = ''r'' \<and> dc_ServerEndpoint conf = endpoint (rs_obj dv_start) g (itoa 31820)"
proof -
  let ?E = "endpoint_env [server_secret, device_secret]" and ?q = "account_at shown_vars [] []"
  let ?t = "account_at shown_vars [ACListServices ''wg-acc'' [(WgService, ''true'')]] []"
  have obj: "rs_obj (account_at v es ls) = tunnel_account v" for v es ls by (simp add: account_at_def)
  have ok: "rj_ok (st_DisplayVars (r_status (rs_obj ?q)))"
    by (simp add: obj tunnel_account_vars shown_vars_def rj.invar_put)
  have go: "ShouldProceed (Continue New True)" by simp
  have device: "makes dv_start (snd (Device_Reconcile ?E dv_start))
      (ECall (DVCreateSecret (config_doc tunnel_device (Some [(''config-r'', ''r.acc.wg.khost.dev:31820'')]))))"
    using endpoint_written by (simp add: makes_def tunnel_names)
  have conf: "conf_event (rs_obj dv_start) (Some [(''config-r'', ''r.acc.wg.khost.dev:31820'')])
      (ECall (DVCreateSecret (config_doc tunnel_device (Some [(''config-r'', ''r.acc.wg.khost.dev:31820'')]))))"
    by (simp add: conf_event_def dv_start_def)
  have member: "(''config-'' @ ''r'', ''r.acc.wg.khost.dev:31820'') \<in> set (gm_entries (Some [(''config-r'', ''r.acc.wg.khost.dev:31820'')]))"
    by simp
  have shown: "shown_var a (''wg-nodeport-'' @ ''r'') = shown_var (rs_obj ?t) (''wg-nodeport-'' @ ''r'')" if "dv_account ?E h = Inr a" for h a
    using that by (simp add: endpoint_env_def rendering_def tunnel_dv_env_def obj)
  note result = Device_endpoints_have_node_ports [OF ok port_env_run go tunnel_names(1) endpoint_env_ok tunnel_names(3) device conf member]
  obtain es es' where run: "\<forall>svc \<in> set (found (ac_services port_env (rs_hist ?q @ es @ [services_event (rs_obj ?q)]))).
        \<forall>port rest. ws_NodePorts svc = port # rest \<and> port \<noteq> 0 \<and> gm_get (ws_Labels svc) ''region'' = Some ''r''
          \<longrightarrow> (\<exists>conf h gs g. dv_render_conf ?E conf = Inr ''r.acc.wg.khost.dev:31820'' \<and> dv_regions ?E h = Inr gs \<and> g \<in> set gs
              \<and> om_Name (r_meta g) = ''r'' \<and> dc_ServerEndpoint conf = endpoint (rs_obj dv_start) g (itoa port))"
    by (rule exE [OF result], erule shown) (elim exE conjE, assumption)
  have "port_service \<in> set (found (ac_services port_env h))" for h by (simp add: port_env_def found_def)
  from run [rule_format, OF this, of 31820 "[]"] show ?thesis by (auto simp: gm_get_def)
qed

end
