(* ===== verification/DeviceNames.thy ===== *)
theory DeviceNames
  imports Tunnel
begin

text \<open>
  How one device of an account reaches another by name: the rewrite rules that a pass writes for the
  DNS server of the account, the service they lead to, and the proxy ports of that service.
\<close>

section \<open>What a pass writes of names and services\<close>

definition proxy_config_event :: "device_spec resource \<Rightarrow> (device_spec, dv_call) event" where
  "proxy_config_event obj = ECall (DVGetConfigMap (wg_ns (dv_AccountName (r_spec obj))) ''device-proxy-config'')"

definition rules_from :: "dv_env \<Rightarrow> dns_doc \<Rightarrow> bool" where
  "rules_from E doc \<longleftrightarrow> (\<exists>h ds. dv_devices E h = Inr ds \<and> nd_rules doc = concat (map rewrite_rule ds))"

definition service_from :: "dv_env \<Rightarrow> device_spec resource \<Rightarrow> service_doc \<Rightarrow> bool" where
  "service_from E obj sd \<longleftrightarrow> (\<exists>h config cs sPorts. dv_configmap E (h @ [proxy_config_event obj]) = Inr config
     \<and> dec_proxy_config (gm_str config ''config.json'') = Inr cs
     \<and> service_ports cs (om_Name (r_meta obj)) (dv_Ports (r_spec obj)) = Inr sPorts \<and> sd = device_service obj sPorts)"

definition dn_ok :: "dv_env \<Rightarrow> device_spec resource \<Rightarrow> (device_spec, dv_call) event \<Rightarrow> bool" where
  "dn_ok E obj e \<longleftrightarrow> (\<forall>doc. e = ECall (DVApplyDns doc) \<longrightarrow> rules_from E doc)
     \<and> (\<forall>sd. e = ECall (DVApplyService sd) \<longrightarrow> service_from E obj sd)"

lemma dn_ok_simps [simp]:
  "status_ok (dn_ok E obj)" "update_ok (dn_ok E obj)" "exec_ok (dn_ok E obj)"
  "dn_ok E obj (ECall DVListRegions)" "dn_ok E obj (ECall (DVListDevices l))" "dn_ok E obj (ECall (DVGetConfigMap n m))"
  "dn_ok E obj (ECall (DVGetService n m))" "dn_ok E obj (ECall (DVGetSecret n m))" "dn_ok E obj (ECall (DVGetAccount n))"
  "dn_ok E obj (ECall DVGenerateKeys)" "dn_ok E obj (ECall (DVCreateSecret d))" "dn_ok E obj (ECall (DVUpdateSecret n m x))"
  "dn_ok E obj (EExec args)" "rules_from E doc \<Longrightarrow> dn_ok E obj (ECall (DVApplyDns doc))"
  "service_from E obj sd \<Longrightarrow> dn_ok E obj (ECall (DVApplyService sd))"
  by (simp_all add: dn_ok_def status_ok_def update_ok_def exec_ok_def)

lemma service_sent:
  "dv_configmap E (h @ [ECall (DVGetConfigMap (wg_ns (dv_AccountName (r_spec obj))) ''device-proxy-config'')]) = Inr config \<Longrightarrow>
   dec_proxy_config (gm_str config ''config.json'') = Inr cs \<Longrightarrow>
   service_ports cs (om_Name (r_meta obj)) (dv_Ports (r_spec obj)) = Inr sPorts \<Longrightarrow>
   dn_ok E obj (ECall (DVApplyService (device_service obj sPorts)))"
  by (rule dn_ok_simps(15)) (auto simp: service_from_def proxy_config_event_def)

lemma updateServices_names: "during (dn_ok E obj) (same_obj obj) (\<lambda>_. same_obj obj) (updateServices E)"
proof (rule duringI)
  fix s :: "(device_spec, dv_call, dv_local) rstate" and r t
  assume "same_obj obj s" and "updateServices E s = (r, t)"
  then show "emits (dn_ok E obj) s t \<and> (\<forall>a. r = Ret a \<longrightarrow> same_obj obj t)"
    by (auto simp: updateServices_def andThen_apply ask_def ret_def emits_def intro: service_sent
        split: sum.splits option.splits)
qed

lemma updateDns_names:
  assumes "dv_devices E h = Inr ds"
  shows "during (dn_ok E obj) (\<lambda>s. rs_obj s = obj \<and> map_of (rs_locals s) ''devices'' = Some (LDevices ds))
    (\<lambda>_. same_obj obj) (updateDns E)"
proof (rule duringI)
  fix s :: "(device_spec, dv_call, dv_local) rstate" and r t
  assume "rs_obj s = obj \<and> map_of (rs_locals s) ''devices'' = Some (LDevices ds)" and "updateDns E s = (r, t)"
  moreover have "rules_from E doc" if "nd_rules doc = concat (map rewrite_rule ds)" for doc
    using assms that unfolding rules_from_def by blast
  ultimately show "emits (dn_ok E obj) s t \<and> (\<forall>a. r = Ret a \<longrightarrow> same_obj obj t)"
    by (auto simp: updateDns_def Let_def andThen_apply ask_def GetLocal_def gets_def ret_def run_kubectl_def emits_def
        split: sum.splits option.splits)
qed

lemma Dns_names: "goes_on (dn_ok E obj) (same_obj obj) (Device_reconDnsRewriteRules E)"
proof -
  let ?ok = "dn_ok E obj"
  have some: "goes_on ?ok (same_obj obj) (andThen (SetLocal ''devices'' (LDevices ds)) (\<lambda>_.
         andThen (if b then ret None else updateDns E) (\<lambda>err. case err of
           Some e \<Rightarrow> CheckFailed E DnsRewriteRulesSynced c (errmsg e)
         | None \<Rightarrow> settleCheck E DnsRewriteRulesSynced c)))" if "dv_devices E h = Inr ds" for h ds b c
    by (rule during_andThen [OF during_SetLocal [where Q = "\<lambda>s. rs_obj s = obj \<and> map_of (rs_locals s) ''devices'' = Some (LDevices ds)"]],
        simp add: update_conv', rule during_andThen [where R = "\<lambda>_. same_obj obj"], rule during_if, rule during_ret, simp,
        rule updateDns_names [OF that], intro same_rules) simp_all
  show ?thesis
    unfolding Device_reconDnsRewriteRules_def Let_def
    by (rule same_gets, rule during_andThen [OF same_GetLocal], rule during_andThen [OF during_ask_result], simp, simp,
        rule during_conj, erule exE, rule during_sum, rule during_if, rule goes_on_CheckFailed, simp, rule goes_on_CheckFailed, simp,
        rule during_list, rule during_crash, rule some) simp
qed

lemma SyncServices_names: "goes_on (dn_ok E obj) (same_obj obj) (Device_reconSyncServices E)"
  unfolding Device_reconSyncServices_def Let_def by (intro same_rules updateServices_names) simp_all

lemma other_steps_names:
  "goes_on (dn_ok E obj) (same_obj obj) (Device_fetchRequired E)"
  "goes_on (dn_ok E obj) (same_obj obj) (Device_reconWgKeys E)"
  "goes_on (dn_ok E obj) (same_obj obj) (Device_reconDeviceConfig E)"
proof -
  show "goes_on (dn_ok E obj) (same_obj obj) (Device_fetchRequired E)"
    unfolding Device_fetchRequired_def Let_def by (intro same_rules) simp_all
  have sent: "during (dn_ok E obj) (same_obj obj) (\<lambda>_. same_obj obj) (KubectlApply E doc)" for doc
    unfolding KubectlApply_def by (intro same_rules) simp_all
  show "goes_on (dn_ok E obj) (same_obj obj) (Device_reconWgKeys E)"
    unfolding Device_reconWgKeys_def Let_def by (intro same_rules sent) simp_all
  have read: "during (dn_ok E obj) (same_obj obj) (\<lambda>_. same_obj obj) (on_value m j)" for m :: "(rawjson, string option) act" and j
    by (rule during_mono [OF on_value_keeps [where P = "same_obj obj"]]) auto
  have servers: "during (dn_ok E obj) (same_obj obj) (\<lambda>_. same_obj obj) (server_configs obj gs vars)" for gs vars
    by (induction gs arbitrary: vars) (auto intro!: same_rules read)
  show "goes_on (dn_ok E obj) (same_obj obj) (Device_reconDeviceConfig E)"
    unfolding Device_reconDeviceConfig_def writeConfigs_def Let_def
    by (intro same_rules sent read servers) simp_all
qed

lemma Device_pass_names:
  assumes "Device_Reconcile E s = (r, t)"
  shows "emits (dn_ok E (rs_obj s)) s t"
  using assms unfolding Device_Reconcile_def
proof (rule frame_run_cases [where Q = "dn_ok E (rs_obj s)"])
  let ?ok = "dn_ok E (rs_obj s)"
  have complete: "keeps (emits ?ok) (complete E)" by (intro keeps_intros) simp
  have "during ?ok (same_obj (rs_obj s)) (\<lambda>_ _. True) (Device_steps E)"
    unfolding Device_steps_def
    by (intro during_andStep [OF other_steps_names(1)] during_andStep [OF other_steps_names(2)] during_andStep [OF SyncServices_names]
        during_andStep [OF Dns_names] during_andStep [OF other_steps_names(3)] during_keeps [OF complete]) simp_all
  moreover assume "Device_steps E s = (r, t)"
  ultimately show ?thesis using during_emits by fastforce
next
  show "keeps (emits (dn_ok E (rs_obj s))) (Device_finalize E)"
    unfolding Device_finalize_def by (intro keeps_intros) simp
qed auto

section \<open>Properties\<close>

lemma rules_lead:
  assumes "rules_from E doc" and "\<And>h ds. dv_devices E h = Inr ds \<Longrightarrow> \<exists>d \<in> set ds. om_Name (r_meta d) = name \<and> dv_AccountName (r_spec d) = acc"
    and "name \<noteq> ''''"
  shows "\<exists>before after. nd_rules doc = before @ ''rewrite name '' @ name @ ''.kl.local '' @ name @ ''.'' @ wg_ns acc
    @ ''.svc.cluster.local'' @ [CHR 0x0A] @ after"
proof -
  obtain h ds where ds: "dv_devices E h = Inr ds" "nd_rules doc = concat (map rewrite_rule ds)"
    using assms(1) unfolding rules_from_def by blast
  then obtain d where d: "d \<in> set ds" "om_Name (r_meta d) = name" "dv_AccountName (r_spec d) = acc" using assms(2) by blast
  then obtain xs ys where "ds = xs @ d # ys" by (meson split_list)
  then have "nd_rules doc = concat (map rewrite_rule xs) @ rewrite_rule d @ concat (map rewrite_rule ys)" using ds(2) by simp
  moreover have "rewrite_rule d = ''rewrite name '' @ name @ ''.kl.local '' @ name @ ''.'' @ wg_ns acc
      @ ''.svc.cluster.local'' @ [CHR 0x0A] @ ''        ''"
    using d(2,3) assms(3) by (simp add: rewrite_rule_def wg_ns_def)
  ultimately show ?thesis
    by (intro exI [of _ "concat (map rewrite_rule xs)"] exI [of _ "''        '' @ concat (map rewrite_rule ys)"]) simp
qed

text \<open>C8. A device is reached by its name on all its ports.  When a pass over any device of the account
  writes the rewrite rules of the account's DNS server and a pass over this device writes its service,
  then the rules map the name of the device under \<open>kl.local\<close> to exactly that service, in its namespace,
  and the service has the ports of the device's spec in their order, each sent to the proxy port of an
  entry with the device's address and the wanted target port, provided that the device is among those
  listed and that the stored proxy configuration is the one generated for devices among which it is.\<close>

theorem Device_names_reach_proxies:
  fixes E E' :: dv_env and s s' :: "(device_spec, dv_call, dv_local) rstate" and sortf old draw devs
  defines "obj \<equiv> rs_obj s'"
  defines "cs \<equiv> proxy_services (dv_ip E') sortf old draw devs"
  assumes "makes s (snd (Device_Reconcile E s)) (ECall (DVApplyDns doc))"
    and "makes s' (snd (Device_Reconcile E' s')) (ECall (DVApplyService sd))"
    and "\<And>h ds. dv_devices E h = Inr ds \<Longrightarrow> \<exists>d \<in> set ds. om_Name (r_meta d) = om_Name (r_meta obj)
        \<and> dv_AccountName (r_spec d) = dv_AccountName (r_spec obj)"
    and "om_Name (r_meta obj) \<noteq> ''''"
    and "sorts_services sortf" and "devices_ok devs" and "\<forall>d \<in> set devs. has_ip (dv_ip E') d" and "obj \<in> set devs"
    and "\<And>h config. dv_configmap E' (h @ [proxy_config_event obj]) = Inr config \<Longrightarrow> gm_str config ''config.json'' = config_text cs"
    and "\<forall>c \<in> set cs. service_ok c" and "dv_Ports (r_spec obj) \<noteq> []"
  shows "(\<exists>before after. nd_rules doc = before @ ''rewrite name '' @ om_Name (r_meta obj) @ ''.kl.local ''
        @ sd_Name sd @ ''.'' @ sd_Namespace sd @ ''.svc.cluster.local'' @ [CHR 0x0A] @ after)
    \<and> map sp_Port (sd_Ports sd) = map pt_Port (dv_Ports (r_spec obj))
    \<and> list_all2 (\<lambda>sp p. \<exists>c \<in> set cs. entry_of (dv_ip E') obj p c \<and> sp_TargetPort sp = cs_ProxyPort c)
        (sd_Ports sd) (dv_Ports (r_spec obj))"
proof -
  obtain r t where "Device_Reconcile E s = (r, t)" by fastforce
  then have rules: "rules_from E doc" using emits_makes [OF Device_pass_names] assms(3) by (fastforce simp: dn_ok_def)
  obtain r' t' where "Device_Reconcile E' s' = (r', t')" by fastforce
  then have "service_from E' obj sd" using emits_makes [OF Device_pass_names] assms(4) by (fastforce simp: dn_ok_def obj_def)
  then obtain h config cs' ps where sd: "dv_configmap E' (h @ [proxy_config_event obj]) = Inr config"
      "dec_proxy_config (gm_str config ''config.json'') = Inr cs'"
      "service_ports cs' (om_Name (r_meta obj)) (dv_Ports (r_spec obj)) = Inr ps" "sd = device_service obj ps"
    unfolding service_from_def by blast
  obtain c where c: "\<And>p. p \<in> set (dv_Ports (r_spec obj)) \<Longrightarrow> c p \<in> set cs \<and> entry_of (dv_ip E') obj p (c p)"
    and ports: "service_ports cs (om_Name (r_meta obj)) (dv_Ports (r_spec obj))
      = Inr (map (\<lambda>p. \<lparr>sp_Name = service_id (om_Name (r_meta obj)) (pt_Port p), sp_Port = pt_Port p,
          sp_TargetPort = cs_ProxyPort (c p)\<rparr>) (dv_Ports (r_spec obj)))"
    using service_ports_entries [OF assms(7-10)] unfolding cs_def by blast
  have "cs' = cs" using sd(2) assms(11) [OF sd(1)] assms(12) by (simp add: dec_config_text)
  with sd(3) ports have ps: "ps = map (\<lambda>p. \<lparr>sp_Name = service_id (om_Name (r_meta obj)) (pt_Port p), sp_Port = pt_Port p,
      sp_TargetPort = cs_ProxyPort (c p)\<rparr>) (dv_Ports (r_spec obj))" by simp
  have "sd_Name sd = om_Name (r_meta obj)" "sd_Namespace sd = wg_ns (dv_AccountName (r_spec obj))" "sd_Ports sd = ps"
    using assms(13) by (simp_all add: ps sd(4) device_service_def)
  moreover have "list_all2 (\<lambda>sp p. \<exists>c \<in> set cs. entry_of (dv_ip E') obj p c \<and> sp_TargetPort sp = cs_ProxyPort c) ps (dv_Ports (r_spec obj))"
    using c by (simp add: ps list_all2_map1 list_all2_same) blast
  moreover have "map sp_Port ps = map pt_Port (dv_Ports (r_spec obj))" by (simp add: ps)
  ultimately show ?thesis using rules_lead [OF rules assms(5,6)] by simp
qed

section \<open>Witness\<close>

definition ported_device :: "device_spec resource" where
  "ported_device = tunnel_device\<lparr>r_spec := (r_spec tunnel_device)\<lparr>dv_Ports := [sample_port]\<rparr>\<rparr>"

definition named_env :: dv_env where
  "named_env = (tunnel_dv_env [server_secret, device_secret])\<lparr>k_exec := (\<lambda>_. ExecFail ''kubectl''),
     dv_configmap := (\<lambda>h. Inr (Some (case last h of
         ECall (DVGetConfigMap ns n) \<Rightarrow> if n = ''device-proxy-config'' then [(''config.json'', sample_config_text)] else [(''devices'', ''[]'')]
       | _ \<Rightarrow> [])))\<rparr>"

definition named_at :: "device_spec resource \<Rightarrow> nat \<Rightarrow> (string \<times> dv_local) list \<Rightarrow> (device_spec, dv_call, dv_local) rstate" where
  "named_at obj n ls = \<lparr>rs_obj = obj, rs_hist = map ECall ([DVListRegions, DVGetConfigMap ''wg-acc'' ''coredns'',
       DVGetService ''wg-acc'' ''coredns''] @ take n device_reads),
     rs_locals = [(''regions'', LRegions [sample_ac_region ''r'']), (''dns-devices'', LString ''[]''), (''dns-ip'', LString '''')] @ ls\<rparr>"

definition named_start :: "device_spec resource \<Rightarrow> (device_spec, dv_call, dv_local) rstate" where
  "named_start obj = \<lparr>rs_obj = obj, rs_hist = [], rs_locals = []\<rparr>"

definition sample_rules :: dns_doc where
  "sample_rules = \<lparr>nd_account = tunnel_account shown_vars, nd_devices = [''edge''], nd_rules = rewrite_rule tunnel_device, nd_dnsIp = ''''\<rparr>"

definition sample_service_doc :: service_doc where
  "sample_service_doc = device_service ported_device [\<lparr>sp_Name = ''edge-80'', sp_Port = 80, sp_TargetPort = 3000\<rparr>]"

lemma named_bodies:
  "Device_Reconcile named_env (named_start tunnel_device) = Device_steps named_env (named_start tunnel_device)"
  "Device_Reconcile named_env (named_start ported_device) = Device_steps named_env (named_start ported_device)"
proof -
  have "prepared (Device_methods (dv_ip named_env)) [WgKeysReady, ServicesSynced, DnsRewriteRulesSynced, deviceConfigSynced] (named_start tunnel_device)"
    "prepared (Device_methods (dv_ip named_env)) [WgKeysReady, ServicesSynced, DnsRewriteRulesSynced, deviceConfigSynced] (named_start ported_device)"
    "\<not> deleting (named_start tunnel_device)" "\<not> deleting (named_start ported_device)"
    by code_simp+
  then show "Device_Reconcile named_env (named_start tunnel_device) = Device_steps named_env (named_start tunnel_device)"
    "Device_Reconcile named_env (named_start ported_device) = Device_steps named_env (named_start ported_device)"
    by (simp_all add: Device_Reconcile_def frame_prepared)
qed

lemma named_steps:
  "runs_to (Device_fetchRequired named_env) (named_start tunnel_device) (named_at tunnel_device 0 [])"
  "runs_to (Device_fetchRequired named_env) (named_start ported_device) (named_at ported_device 0 [])"
  "runs_to (Device_reconWgKeys named_env) (named_at tunnel_device 0 []) (named_at tunnel_device 1 device_keys)"
  "runs_to (Device_reconWgKeys named_env) (named_at ported_device 0 []) (named_at ported_device 1 device_keys)"
  "runs_to (Device_reconSyncServices named_env) (named_at tunnel_device 1 device_keys) (named_at tunnel_device 2 device_keys)"
  by code_simp+

lemma named_rules_sent:
  "stops_with (Device_reconDnsRewriteRules named_env) (named_at tunnel_device 2 device_keys) (ECall (DVApplyDns sample_rules))"
  by code_simp

text \<open>The stored configuration is read back by the round trip of its encoding.\<close>

lemma named_service_applied:
  assumes "rs_obj s = ported_device"
  shows "updateServices named_env s = (Ret (Some (Failure ''services being updated'')),
    s\<lparr>rs_hist := rs_hist s @ [proxy_config_event ported_device, ECall (DVApplyService sample_service_doc)]\<rparr>)"
proof -
  have "dv_configmap named_env (h @ [proxy_config_event ported_device]) = Inr (Some [(''config.json'', sample_config_text)])" for h
    by (simp add: named_env_def proxy_config_event_def)
  moreover have "gm_str (Some [(''config.json'', sample_config_text)]) ''config.json'' = sample_config_text"
    by (simp add: gm_str_def gm_get_def)
  moreover have "dec_proxy_config sample_config_text = Inr sample_services"
    unfolding sample_config_text_def by (rule dec_config_text) (simp add: sample_services_def service_ok_def int32_ok_def)
  moreover have "service_ports sample_services (om_Name (r_meta ported_device)) (dv_Ports (r_spec ported_device))
      = Inr [\<lparr>sp_Name = ''edge-80'', sp_Port = 80, sp_TargetPort = 3000\<rparr>]" by code_simp
  moreover have "dv_render_service named_env d = None" "dv_write named_env h = None" for d h
    by (simp_all add: named_env_def tunnel_dv_env_def sample_dv_env_def kenv.extend_def)
  ultimately show ?thesis
    by (simp add: updateServices_def ask_def andThen_apply ret_def assms proxy_config_event_def [symmetric] sample_service_doc_def)
qed

lemma named_service_sent:
  "stops_with (Device_reconSyncServices named_env) (named_at ported_device 1 device_keys) (ECall (DVApplyService sample_service_doc))"
proof -
  let ?s = "named_at ported_device 1 device_keys"
  let ?e = "ECall (DVGetService (wg_ns (dv_AccountName (r_spec ported_device))) (om_Name (r_meta ported_device)))"
  let ?u = "?s\<lparr>rs_hist := rs_hist ?s @ [?e]\<rparr>"
  let ?v = "?u\<lparr>rs_hist := rs_hist ?u @ [proxy_config_event ported_device, ECall (DVApplyService sample_service_doc)]\<rparr>"
  have obj: "rs_obj (named_at d n ls) = d" for d n ls by (simp add: named_at_def)
  have svc: "dv_service named_env h = Inr \<lparr>ks_ClusterIP = '''', ks_Selector = Some [(''region'', ''r'')], ks_Ports = []\<rparr>" for h
    by (simp add: named_env_def tunnel_dv_env_def)
  have "checkPortsDiffer [] (dv_Ports (r_spec ported_device))" by (simp add: ported_device_def checkPortsDiffer_def)
  then have "Device_reconSyncServices named_env ?s = CheckFailed named_env ServicesSynced (CheckGen (om_Generation (r_meta ported_device)))
      (errmsg (Failure ''services being updated'')) ?v"
    by (simp add: Device_reconSyncServices_def Let_def ask_def andThen_apply obj svc named_service_applied)
  moreover have "status_ready ?v" unfolding status_ready_def by code_simp
  ultimately show ?thesis by (auto simp: stops_with_def CheckFailed_run Let_def answered_def split: sum.split option.split)
qed

lemma named_passes:
  "makes (named_start tunnel_device) (snd (Device_Reconcile named_env (named_start tunnel_device))) (ECall (DVApplyDns sample_rules))"
  "makes (named_start ported_device) (snd (Device_Reconcile named_env (named_start ported_device))) (ECall (DVApplyService sample_service_doc))"
proof -
  have start: "rs_hist (named_start obj) = []" for obj by (simp add: named_start_def)
  show "makes (named_start tunnel_device) (snd (Device_Reconcile named_env (named_start tunnel_device))) (ECall (DVApplyDns sample_rules))"
    by (simp only: makes_def start append_Nil ex_simps simp_thms named_bodies Device_steps_def named_steps [THEN runs_to_andStep])
      (use stops_with_andStep [OF named_rules_sent] in simp)
  show "makes (named_start ported_device) (snd (Device_Reconcile named_env (named_start ported_device))) (ECall (DVApplyService sample_service_doc))"
    by (simp only: makes_def start append_Nil ex_simps simp_thms named_bodies Device_steps_def named_steps [THEN runs_to_andStep])
      (use stops_with_andStep [OF named_service_sent] in simp)
qed

lemma named_proxies: "proxy_services (dv_ip named_env) (sort_key cs_Name) [] (\<lambda>_. 0) [ported_device] = sample_services"
  by code_simp

lemma Device_names_reach_proxies_witness:
  "(\<exists>before after. nd_rules sample_rules = before @ ''rewrite name edge.kl.local edge.wg-acc.svc.cluster.local'' @ [CHR 0x0A] @ after)
   \<and> map sp_Port (sd_Ports sample_service_doc) = [80]"
proof -
  have names: "om_Name (r_meta ported_device) = ''edge''" "dv_AccountName (r_spec ported_device) = ''acc''"
    "dv_Ports (r_spec ported_device) = [sample_port]" "om_Name (r_meta tunnel_device) = ''edge''" "dv_AccountName (r_spec tunnel_device) = ''acc''"
    by code_simp+
  have obj: "rs_obj (named_start d) = d" for d by (simp add: named_start_def)
  have "dv_devices named_env h = Inr [tunnel_device]" "has_ip (dv_ip named_env) d" for h d
    by (simp_all add: named_env_def tunnel_dv_env_def has_ip_def getRemoteDeviceIp_def)
  moreover have "devices_ok [ported_device]" "sd_Name sample_service_doc = ''edge''" "sd_Namespace sample_service_doc = ''wg-acc''"
    by (simp_all add: devices_ok_def names sample_port_sel sample_service_doc_def device_service_def wg_ns_def)
  moreover have "dv_configmap named_env (h @ [proxy_config_event ported_device]) = Inr (Some [(''config.json'', sample_config_text)])" for h
    by (simp add: named_env_def proxy_config_event_def)
  moreover have "gm_str (Some [(''config.json'', sample_config_text)]) ''config.json'' = config_text sample_services"
    by (simp add: gm_str_def gm_get_def sample_config_text_def)
  moreover have "\<forall>c \<in> set sample_services. service_ok c" by (simp add: sample_services_def service_ok_def int32_ok_def)
  ultimately show ?thesis
    using Device_names_reach_proxies [OF named_passes, where sortf = "sort_key cs_Name" and old = "[]" and draw = "\<lambda>_. 0"
        and devs = "[ported_device]"]
    by (simp add: obj names named_proxies sorts_services_sort_key sample_port_sel)
qed

end
