(* ===== verification/Startup.thy ===== *)
theory Startup
  imports Edge NodePool WorkerNode Device Account Region Domain
begin

text \<open>
  The start of the operator: \<open>main.go\<close>, \<open>env/env.go\<close> and the methods \<open>SetupWithManager\<close> of the
  controllers.  A controller is registered with the kind of object it reconciles, the kinds of
  object it owns and the kinds it watches, with a function from their events to names.  The flag
  and environment libraries and controller-runtime are parameters.
\<close>

section \<open>Registrations\<close>

datatype kube_kind = KAccount | KDomain | KRegion | KDevice | KCloudProvider | KNodePool | KWorkerNode | KEdge
  | KNamespace | KService | KDeployment | KSecret | KNode | KPod | KJob

record registration =
  rn_Name :: string
  rn_For :: kube_kind
  rn_Owns :: "kube_kind list"
  rn_Watches :: "(kube_kind \<times> (objmeta \<Rightarrow> string list)) list"

definition Domain_setup :: registration where
  "Domain_setup = \<lparr>rn_Name = ''Domain'', rn_For = KDomain, rn_Owns = [], rn_Watches = []\<rparr>"

definition Region_setup :: registration where
  "Region_setup = \<lparr>rn_Name = ''Region'', rn_For = KRegion, rn_Owns = [],
     rn_Watches = [(KNode, \<lambda>m. Region_watch \<lparr>kn_Annotations = om_Annotations m, kn_Labels = om_Labels m\<rparr>)]\<rparr>"

text \<open>The accounts that the client of the manager finds when a region changes.\<close>

definition Account_setup :: "(error + account list) \<Rightarrow> (string \<Rightarrow> error + account) \<Rightarrow> registration" where
  "Account_setup accounts get = \<lparr>rn_Name = ''Account'', rn_For = KAccount, rn_Owns = [KNamespace, KService, KDeployment],
     rn_Watches = [(KDevice, \<lambda>m. Account_watch_device (om_Labels m)),
       (KRegion, \<lambda>m. Account_watch_region accounts (get (gm_str (om_Labels m) ''kloudlite.io/account.name'')) (om_Labels m))]\<rparr>"

definition Device_setup :: registration where
  "Device_setup = \<lparr>rn_Name = ''Device'', rn_For = KDevice, rn_Owns = [KSecret, KService],
     rn_Watches = [(KService, \<lambda>m. Device_watch (om_Labels m))]\<rparr>"

definition CloudProvider_setup :: registration where
  "CloudProvider_setup = \<lparr>rn_Name = ''CLProvider'', rn_For = KCloudProvider, rn_Owns = [], rn_Watches = []\<rparr>"

definition NodePool_setup :: registration where
  "NodePool_setup = \<lparr>rn_Name = ''Nodepool'', rn_For = KNodePool, rn_Owns = [KWorkerNode],
     rn_Watches = map (\<lambda>k. (k, NodePool_watch)) [KNode, KPod]\<rparr>"

definition WorkerNode_setup :: registration where
  "WorkerNode_setup = \<lparr>rn_Name = ''WorkerNode'', rn_For = KWorkerNode, rn_Owns = [KJob], rn_Watches = []\<rparr>"

definition Edge_setup :: registration where
  "Edge_setup = \<lparr>rn_Name = ''Edge'', rn_For = KEdge, rn_Owns = [KNodePool], rn_Watches = []\<rparr>"

section \<open>The environment\<close>

record env_vars =
  ev_NameserverEndpoint :: string
  ev_NameserverUser :: string
  ev_NameserverPassword :: string
  ev_WgDomain :: string
  ev_PodCidr :: string
  ev_SvcCidr :: string
  ev_SSHPath :: string
  ev_ClusterId :: string
  ev_StorePath :: string
  ev_TFTemplatesPath :: string

text \<open>The tags of the fields: the variable and whether it is required.\<close>

definition Env_tags :: "(string \<times> bool) list" where
  "Env_tags = [(''NAMESERVER_ENDPOINT'', True), (''NAMESERVER_USER'', True), (''NAMESERVER_PASSWORD'', True),
     (''WG_DOMAIN'', True), (''POD_CIDR'', True), (''SVC_CIDR'', True), (''SSH_PATH'', True), (''CLUSTER_ID'', True),
     (''STORE_PATH'', True), (''TF_TEMPLATES_PATH'', True)]"

definition Env_of :: "(string \<Rightarrow> string) \<Rightarrow> env_vars" where
  "Env_of f = \<lparr>ev_NameserverEndpoint = f ''NAMESERVER_ENDPOINT'', ev_NameserverUser = f ''NAMESERVER_USER'',
     ev_NameserverPassword = f ''NAMESERVER_PASSWORD'', ev_WgDomain = f ''WG_DOMAIN'', ev_PodCidr = f ''POD_CIDR'',
     ev_SvcCidr = f ''SVC_CIDR'', ev_SSHPath = f ''SSH_PATH'', ev_ClusterId = f ''CLUSTER_ID'',
     ev_StorePath = f ''STORE_PATH'', ev_TFTemplatesPath = f ''TF_TEMPLATES_PATH''\<rparr>"

section \<open>The main function\<close>

text \<open>The flags, as parsed; without arguments they are \<open>default_flags\<close>.\<close>

record main_flags =
  fl_metricsAddr :: string
  fl_probeAddr :: string
  fl_leaderElect :: bool
  fl_dev :: bool

definition default_flags :: main_flags where
  "default_flags = \<lparr>fl_metricsAddr = '':9091'', fl_probeAddr = '':9092'', fl_leaderElect = False, fl_dev = False\<rparr>"

record mgr_opts =
  mo_Metrics :: string
  mo_Port :: int
  mo_Probe :: string
  mo_LeaderElection :: bool
  mo_LeaderElectionID :: string
  mo_Lock :: string

datatype main_call =
    MScheme string
  | MSetEnv "(string \<times> bool) list"
  | MConfig
  | MManager "string option" mgr_opts
  | MLogger
  | MController registration "env_vars option"
  | MHealthz string
  | MReadyz string
  | MStart

type_synonym main_hist = "main_call list"

text \<open>
  What is outside: \<open>env.Set\<close>, which fails or fills the variables of the tags; the process's
  environment; whether there is a configuration of the cluster (\<open>GetConfigOrDie\<close> exits if not);
  and the errors of the libraries, as functions of the calls so far.
\<close>

record main_env =
  mn_set_env :: "(string \<times> bool) list \<Rightarrow> error + (string \<Rightarrow> string)"
  mn_getenv :: "string \<Rightarrow> string option"
  mn_config :: "main_hist \<Rightarrow> bool"
  mn_try :: "main_hist \<Rightarrow> error option"
  mn_accounts :: "error + account list"
  mn_account :: "string \<Rightarrow> error + account"

text \<open>A step of \<open>main\<close> goes on, exits with a code, or panics.\<close>

type_synonym main_act = "(main_hist, int option) act"

definition andGo :: "main_act \<Rightarrow> main_act \<Rightarrow> main_act" where
  "andGo m k = andThen m (\<lambda>x. case x of None \<Rightarrow> k | Some code \<Rightarrow> ret (Some code))"

definition main_ask :: "main_call \<Rightarrow> (main_hist \<Rightarrow> 'a) \<Rightarrow> (main_hist, 'a) act" where
  "main_ask c f = (\<lambda>h. (Ret (f (h @ [c])), h @ [c]))"

definition or_exit :: "main_env \<Rightarrow> main_call \<Rightarrow> main_act" where
  "or_exit E c = andThen (main_ask c (mn_try E)) (\<lambda>err. ret (if err \<noteq> None then Some 1 else None))"

definition or_panic :: "main_env \<Rightarrow> main_call \<Rightarrow> main_act" where
  "or_panic E c = andThen (main_ask c (mn_try E)) (\<lambda>err. case err of Some e \<Rightarrow> crash (errmsg e) | None \<Rightarrow> ret None)"

definition init_scheme :: "main_env \<Rightarrow> main_act" where
  "init_scheme E = andGo (or_panic E (MScheme ''clientgo'')) (andGo (or_panic E (MScheme ''managementv1''))
     (or_panic E (MScheme ''infrav1'')))"

definition GetEnvOrDie :: "main_env \<Rightarrow> (main_hist, env_vars) act" where
  "GetEnvOrDie E = andThen (main_ask (MSetEnv Env_tags) (\<lambda>_. mn_set_env E Env_tags)) (\<lambda>r. case r of
     Inl e \<Rightarrow> crash (errmsg e)
   | Inr f \<Rightarrow> ret (Env_of f))"

definition fromEnv :: "main_env \<Rightarrow> string \<Rightarrow> (main_hist, string) act" where
  "fromEnv E key = (case mn_getenv E key of
     None \<Rightarrow> crash (''ENV '' @ [CHR 39] @ key @ [CHR 39] @ '' is not provided'')
   | Some v \<Rightarrow> ret v)"

text \<open>\<open>os.Getenv\<close>, which takes a missing variable for an empty one.\<close>

definition Getenv :: "main_env \<Rightarrow> string \<Rightarrow> string" where
  "Getenv E k = (case mn_getenv E k of Some v \<Rightarrow> v | None \<Rightarrow> '''')"

definition main_opts :: "main_flags \<Rightarrow> mgr_opts" where
  "main_opts f = \<lparr>mo_Metrics = fl_metricsAddr f, mo_Port = 9443, mo_Probe = fl_probeAddr f, mo_LeaderElection = fl_leaderElect f,
     mo_LeaderElectionID = ''internal-operator.kloudlite.io'', mo_Lock = ''configmaps''\<rparr>"

definition new_manager :: "main_env \<Rightarrow> main_flags \<Rightarrow> main_act" where
  "new_manager E f = (if fl_dev f then or_exit E (MManager (Some ''localhost:8080'') (main_opts f))
     else andGo (andThen (main_ask MConfig (mn_config E)) (\<lambda>ok. ret (if ok then None else Some 1)))
       (or_exit E (MManager None (main_opts f))))"

definition setup_comm :: "main_env \<Rightarrow> env_vars \<Rightarrow> main_act" where
  "setup_comm E ev = (if Getenv E ''COMM'' \<noteq> ''true'' then ret None else
     andGo (or_panic E MLogger) (
     andGo (or_exit E (MController (Account_setup (mn_accounts E) (mn_account E)) (Some ev))) (
     andGo (or_exit E (MController Domain_setup (Some ev))) (
     andGo (or_exit E (MController Region_setup (Some ev))) (
     or_exit E (MController Device_setup (Some ev)))))))"

definition setup_infra :: "main_env \<Rightarrow> env_vars \<Rightarrow> main_act" where
  "setup_infra E ev = (if Getenv E ''INFRA'' \<noteq> ''true'' then ret None else
     andGo (or_panic E MLogger) (
     andGo (or_exit E (MController CloudProvider_setup None)) (
     andGo (or_exit E (MController NodePool_setup None)) (
     andGo (or_exit E (MController WorkerNode_setup (Some ev))) (
     or_exit E (MController Edge_setup None))))))"

definition main :: "main_env \<Rightarrow> main_flags \<Rightarrow> main_act" where
  "main E f = andGo (init_scheme E) (andThen (GetEnvOrDie E) (\<lambda>ev.
     andGo (new_manager E f) (andGo (setup_comm E ev) (andGo (setup_infra E ev)
     (andGo (or_exit E (MHealthz ''healthz'')) (andGo (or_exit E (MReadyz ''readyz''))
     (or_panic E MStart)))))))"

section \<open>The order of the start\<close>

text \<open>All calls of a start in which nothing fails.\<close>

definition comm_calls :: "main_env \<Rightarrow> env_vars \<Rightarrow> main_call list" where
  "comm_calls E ev = (if Getenv E ''COMM'' \<noteq> ''true'' then [] else
     [MLogger, MController (Account_setup (mn_accounts E) (mn_account E)) (Some ev), MController Domain_setup (Some ev),
      MController Region_setup (Some ev), MController Device_setup (Some ev)])"

definition infra_calls :: "main_env \<Rightarrow> env_vars \<Rightarrow> main_call list" where
  "infra_calls E ev = (if Getenv E ''INFRA'' \<noteq> ''true'' then [] else
     [MLogger, MController CloudProvider_setup None, MController NodePool_setup None,
      MController WorkerNode_setup (Some ev), MController Edge_setup None])"

definition startup_calls :: "main_env \<Rightarrow> main_flags \<Rightarrow> main_call list" where
  "startup_calls E f = (let ev = (case mn_set_env E Env_tags of Inl e \<Rightarrow> Env_of (\<lambda>_. '''') | Inr g \<Rightarrow> Env_of g) in
     map MScheme [''clientgo'', ''managementv1'', ''infrav1''] @ [MSetEnv Env_tags] @
     (if fl_dev f then [MManager (Some ''localhost:8080'') (main_opts f)] else [MConfig, MManager None (main_opts f)]) @
     comm_calls E ev @ infra_calls E ev @ [MHealthz ''healthz'', MReadyz ''readyz'', MStart])"

text \<open>How a call that fails ends the start, and the calls in order up to the first that fails.\<close>

definition call_fails :: "main_env \<Rightarrow> main_hist \<Rightarrow> main_call \<Rightarrow> int option res option" where
  "call_fails E h c = (case c of
     MSetEnv tags \<Rightarrow> (case mn_set_env E tags of Inl e \<Rightarrow> Some (Panic (errmsg e)) | Inr _ \<Rightarrow> None)
   | MConfig \<Rightarrow> if mn_config E h then None else Some (Ret (Some 1))
   | MScheme s \<Rightarrow> map_option (\<lambda>e. Panic (errmsg e)) (mn_try E h)
   | MLogger \<Rightarrow> map_option (\<lambda>e. Panic (errmsg e)) (mn_try E h)
   | MStart \<Rightarrow> map_option (\<lambda>e. Panic (errmsg e)) (mn_try E h)
   | _ \<Rightarrow> map_option (\<lambda>e. Ret (Some 1)) (mn_try E h))"

fun in_order :: "main_env \<Rightarrow> main_call list \<Rightarrow> main_act" where
  "in_order E [] h = (Ret None, h)"
| "in_order E (c # cs) h = (case call_fails E (h @ [c]) c of Some r \<Rightarrow> (r, h @ [c]) | None \<Rightarrow> in_order E cs (h @ [c]))"

lemma in_order_append: "in_order E (cs @ ds) = andGo (in_order E cs) (in_order E ds)"
proof
  show "in_order E (cs @ ds) h = andGo (in_order E cs) (in_order E ds) h" for h
  proof (induction cs arbitrary: h)
    case (Cons c cs)
    have "r \<noteq> Ret None" if "call_fails E (h @ [c]) c = Some r" for r
      using that by (auto simp: call_fails_def split: main_call.splits sum.splits if_splits)
    then show ?case using Cons by (auto simp: andGo_def andThen_apply split: option.split res.split)
  qed (simp add: andGo_def andThen_apply)
qed

lemma in_order_one:
  "in_order E [MScheme n] = or_panic E (MScheme n)" "in_order E [MLogger] = or_panic E MLogger" "in_order E [MStart] = or_panic E MStart"
  "in_order E [MController r ev] = or_exit E (MController r ev)" "in_order E [MManager host opts] = or_exit E (MManager host opts)"
  "in_order E [MHealthz n] = or_exit E (MHealthz n)" "in_order E [MReadyz n] = or_exit E (MReadyz n)"
  by (rule ext; simp add: call_fails_def or_panic_def or_exit_def main_ask_def andThen_apply split: option.split)+

lemma andGo_assoc: "andGo (andGo m k) j = andGo m (andGo k j)"
  by (rule ext) (simp add: andGo_def andThen_apply split: prod.split res.split option.split)

lemma in_order_nil: "in_order E [] = ret None"
  by (rule ext) simp

lemma andGo_ret [simp]: "andGo (ret None) k = k" "andGo m (ret None) = m"
  by (rule ext; simp add: andGo_def andThen_apply split: prod.split res.split option.split)+

lemma in_order_Cons: "cs \<noteq> [] \<Longrightarrow> in_order E (c # cs) = andGo (in_order E [c]) (in_order E cs)"
  using in_order_append [of E "[c]" cs] by simp

lemma in_order_comm: "in_order E (comm_calls E ev) = setup_comm E ev"
  by (simp add: comm_calls_def setup_comm_def in_order_Cons in_order_one in_order_nil del: in_order.simps)

lemma in_order_infra: "in_order E (infra_calls E ev) = setup_infra E ev"
  by (simp add: infra_calls_def setup_infra_def in_order_Cons in_order_one in_order_nil del: in_order.simps)

lemma in_order_manager:
  "in_order E (if fl_dev f then [MManager (Some ''localhost:8080'') (main_opts f)] else [MConfig, MManager None (main_opts f)])
    = new_manager E f"
proof -
  have "in_order E [MConfig] = andThen (main_ask MConfig (mn_config E)) (\<lambda>ok. ret (if ok then None else Some 1))"
    by (rule ext) (simp add: call_fails_def main_ask_def andThen_apply)
  then show ?thesis by (simp add: new_manager_def in_order_Cons in_order_one del: in_order.simps)
qed

lemma main_in_order: "main E f = in_order E (startup_calls E f)"
proof -
  have env: "in_order E (MSetEnv Env_tags # cs) = andThen (GetEnvOrDie E) (\<lambda>ev. in_order E cs)" for cs
    by (rule ext) (simp add: GetEnvOrDie_def call_fails_def main_ask_def andThen_apply split: sum.split)
  have last: "in_order E [MHealthz ''healthz'', MReadyz ''readyz'', MStart]
      = andGo (or_exit E (MHealthz ''healthz'')) (andGo (or_exit E (MReadyz ''readyz'')) (or_panic E MStart))"
    by (simp add: in_order_Cons in_order_one del: in_order.simps)
  have scheme: "in_order E (map MScheme [''clientgo'', ''managementv1'', ''infrav1'']) = init_scheme E"
    by (simp add: init_scheme_def in_order_Cons in_order_one del: in_order.simps)
  have ext_env: "andThen (GetEnvOrDie E) k = andThen (GetEnvOrDie E)
      (\<lambda>_. k (case mn_set_env E Env_tags of Inl e \<Rightarrow> Env_of (\<lambda>_. '''') | Inr g \<Rightarrow> Env_of g))" for k :: "env_vars \<Rightarrow> main_act"
    by (rule ext) (simp add: GetEnvOrDie_def main_ask_def andThen_apply split: sum.split)
  show ?thesis
    unfolding main_def startup_calls_def Let_def in_order_append scheme append_Cons append_Nil env in_order_manager in_order_comm
      in_order_infra last
    by (subst ext_env) simp
qed

section \<open>Which events reach which controllers\<close>

text \<open>API group and kind of the objects, as owner references name them.\<close>

fun group_kind :: "kube_kind \<Rightarrow> string \<times> string" where
  "group_kind KAccount = (''management.kloudlite.io'', ''Account'')"
| "group_kind KDomain = (''management.kloudlite.io'', ''Domain'')"
| "group_kind KRegion = (''management.kloudlite.io'', ''Region'')"
| "group_kind KDevice = (''management.kloudlite.io'', ''Device'')"
| "group_kind KCloudProvider = (''infra.kloudlite.io'', ''CloudProvider'')"
| "group_kind KNodePool = (''infra.kloudlite.io'', ''NodePool'')"
| "group_kind KWorkerNode = (''infra.kloudlite.io'', ''WorkerNode'')"
| "group_kind KEdge = (''infra.kloudlite.io'', ''Edge'')"
| "group_kind KNamespace = ('''', ''Namespace'')"
| "group_kind KService = ('''', ''Service'')"
| "group_kind KSecret = ('''', ''Secret'')"
| "group_kind KNode = ('''', ''Node'')"
| "group_kind KPod = ('''', ''Pod'')"
| "group_kind KDeployment = (''apps'', ''Deployment'')"
| "group_kind KJob = (''batch'', ''Job'')"

definition api_group :: "string \<Rightarrow> string" where
  "api_group apiVersion = (if CHR ''/'' \<in> set apiVersion then takeWhile (\<lambda>c. c \<noteq> CHR ''/'') apiVersion else '''')"

definition owned_by :: "kube_kind \<Rightarrow> objmeta \<Rightarrow> string \<Rightarrow> bool" where
  "owned_by k m n \<longleftrightarrow> (\<exists>ref \<in> set (om_Owners m). or_Controller ref \<and> (api_group (or_APIVersion ref), or_Kind ref) = group_kind k
     \<and> or_Name ref = n)"

text \<open>
  What controller-runtime documents of a registration: an event on an object of a kind enqueues the
  object itself for the controller of the kind, the controlling owner for a controller that owns the
  kind, and the names that its function gives for one that watches it.
\<close>

definition runtime_events :: "(registration \<Rightarrow> kube_kind \<Rightarrow> objmeta \<Rightarrow> string set) \<Rightarrow> bool" where
  "runtime_events enq \<longleftrightarrow> (\<forall>r k m. enq r k m = {n. k = rn_For r \<and> n = om_Name m}
     \<union> {n. k \<in> set (rn_Owns r) \<and> owned_by (rn_For r) m n}
     \<union> {n. \<exists>f. (k, f) \<in> set (rn_Watches r) \<and> n \<in> set (f m)})"

lemma owned_wakes:
  "runtime_events enq \<Longrightarrow> k \<in> set (rn_Owns r) \<Longrightarrow> owned_by (rn_For r) m n \<Longrightarrow> n \<in> enq r k m"
  by (simp add: runtime_events_def)

lemma owned_AsOwner:
  "om_Owners m = [AsOwner x [True]] \<Longrightarrow> (api_group (om_APIVersion x), om_Kind x) = group_kind k \<Longrightarrow> owned_by k m (om_Name x)"
  by (simp add: owned_by_def AsOwner_def)

text \<open>An object of the kind its type says.\<close>

definition of_kind :: "kube_kind \<Rightarrow> 'sp resource \<Rightarrow> bool" where
  "of_kind k obj \<longleftrightarrow> (api_group (om_APIVersion (r_meta obj)), om_Kind (r_meta obj)) = group_kind k"

section \<open>Properties\<close>

text \<open>C37. The start of the operator makes its calls in one fixed order, which the flags and the variables
  COMM and INFRA determine, and stops at the first call that fails, with a panic or with exit code
  1 as the call has it: so the manager is started only when the environment is complete and all
  controllers selected have been registered, and always starts then.\<close>

theorem main_starts_in_order:
  "main E f h = in_order E (startup_calls E f) h
   \<and> (\<exists>es. snd (main E f h) = h @ es \<and> prefix es (startup_calls E f)
        \<and> (MStart \<in> set es \<longleftrightarrow> es = startup_calls E f)
        \<and> (es \<noteq> startup_calls E f \<longrightarrow> es \<noteq> [] \<and> call_fails E (h @ es) (last es) = Some (fst (main E f h))))"
proof -
  have run: "\<exists>es. snd (in_order E cs h) = h @ es \<and> prefix es cs
      \<and> (es \<noteq> cs \<longrightarrow> es \<noteq> [] \<and> call_fails E (h @ es) (last es) = Some (fst (in_order E cs h)))" for cs h
  proof (induction cs arbitrary: h)
    case (Cons c cs)
    show ?case
    proof (cases "call_fails E (h @ [c]) c")
      case None
      from Cons.IH [of "h @ [c]"] obtain es where es: "snd (in_order E cs (h @ [c])) = h @ c # es" "prefix es cs"
          "es \<noteq> cs \<longrightarrow> es \<noteq> [] \<and> call_fails E (h @ c # es) (last es) = Some (fst (in_order E cs (h @ [c])))"
        by auto
      then show ?thesis using None by (intro exI [of _ "c # es"]) auto
    next
      case (Some r)
      then show ?thesis by (intro exI [of _ "[c]"]) simp
    qed
  qed simp
  from run [where cs = "startup_calls E f" and h = h] obtain es where es: "snd (main E f h) = h @ es" "prefix es (startup_calls E f)"
      "es \<noteq> startup_calls E f \<longrightarrow> es \<noteq> [] \<and> call_fails E (h @ es) (last es) = Some (fst (main E f h))"
    unfolding main_in_order by blast
  obtain cs where cs: "startup_calls E f = cs @ [MStart]" "MStart \<notin> set cs"
    by (auto simp: startup_calls_def Let_def comm_calls_def infra_calls_def)
  have "MStart \<in> set es \<longleftrightarrow> es = startup_calls E f"
    using es(2) cs by (auto simp: prefix_snoc dest: set_mono_prefix)
  then show ?thesis using es main_in_order by metis
qed

text \<open>An event on a Kubernetes node or on a pod wakes no node pool of its edge: the request is for the
  edge's name, and pools have longer ones.\<close>

lemma Node_events_miss_pools:
  assumes "runtime_events enq" and "gm_get (om_Labels m) RegionKey = Some (om_Name (r_meta eg))" and "p \<in> set (edge_pools eg)"
    and "k \<in> {KNode, KPod}"
  shows "om_Name (r_meta p) \<notin> enq NodePool_setup k m"
proof -
  have "om_Name (r_meta p) \<noteq> om_Name (r_meta eg)" using assms(3) by (auto simp: edge_pools_def pool_name_def)
  then show ?thesis using assms(1,2,4) by (auto simp: runtime_events_def NodePool_setup_def NodePool_watch_def)
qed

section \<open>Witness\<close>

text \<open>A start with COMM only, in which the registration of the region controller, the tenth call, fails.\<close>

definition sample_main_env :: main_env where
  "sample_main_env = \<lparr>mn_set_env = (\<lambda>_. Inr (\<lambda>_. ''x'')), mn_getenv = (\<lambda>k. if k = ''COMM'' then Some ''true'' else None),
     mn_config = (\<lambda>_. True), mn_try = (\<lambda>h. if length h = 10 then Some (Failure ''no kind'') else None),
     mn_accounts = Inr [], mn_account = (\<lambda>_. Inl (NotFound ''account''))\<rparr>"

lemma main_starts_in_order_witness:
  "\<exists>es. snd (main sample_main_env default_flags []) = es \<and> prefix es (startup_calls sample_main_env default_flags)
     \<and> length es = 10 \<and> MStart \<notin> set es \<and> call_fails sample_main_env es (last es) = Some (Ret (Some 1))"
proof -
  have "length (snd (main sample_main_env default_flags [])) = 10" "fst (main sample_main_env default_flags []) = Ret (Some 1)"
    by code_simp+
  moreover have "length (startup_calls sample_main_env default_flags) = 14" by code_simp
  ultimately show ?thesis using main_starts_in_order [of sample_main_env default_flags "[]"] by auto
qed

end
