(* ===== verification/Infra.thy ===== *)
theory Infra
  imports RequestTriples Edge NodePoolProps
begin

text \<open>
  The controllers of edges, node pools and worker nodes over one cluster: a step relation whose
  steps are passes of the controllers, answered from the objects that are there, and changes made
  by others.  The objects of a kind are listed by labels, so what keeps an edge from being removed
  before its pools, and a pool before its nodes, is that the labels written by one controller are
  the ones the other selects by.
\<close>

section \<open>The calls of an edge's pass\<close>

text \<open>A pass applies no node pools but those of its own edge.\<close>

definition own_pools :: "edge_spec resource \<Rightarrow> (edge_spec, eg_call) event \<Rightarrow> bool" where
  "own_pools obj e \<longleftrightarrow> (\<forall>docs. e = ECall (EGApplyPools docs) \<longrightarrow> docs = edge_pools obj)"

lemma own_pools_simps [simp]:
  "status_ok (own_pools obj)" "update_ok (own_pools obj)" "exec_ok (own_pools obj)"
  "own_pools obj (ECall (EGProvider n))" "own_pools obj (ECall (EGRegion n))" "own_pools obj (ECall (EGListPools l))"
  "own_pools obj (ECall (EGApplyRegion a b c))" "own_pools obj (ECall (EGApplyPools (edge_pools obj)))"
  by (simp_all add: own_pools_def status_ok_def update_ok_def exec_ok_def)

lemma PatchDefaults_own: "goes_on (own_pools obj) (same_obj obj) (Edge_PatchDefaults E)"
proof -
  have stop: "ends (own_pools obj) (andThen (CheckFailed E n c m) (\<lambda>r. ret (Err r None)))" for n c m
    by (rule ends_ret [OF ends_CheckFailed]) (simp_all add: Err_def)
  have requeue: "ends (own_pools obj) (andThen (Done E []) (\<lambda>r. ret (RequeueAfter r d)))" for d
    by (rule ends_ret [OF ends_Done]) (simp_all add: RequeueAfter_def)
  have put: "ends (own_pools obj) (andThen (modMeta f) (\<lambda>_. andThen (client_Update E) (\<lambda>err. case err of
         Some e \<Rightarrow> CheckFailed E DefaultsPatched c (errmsg e)
       | None \<Rightarrow> andThen (Done E []) (\<lambda>r. ret (RequeueAfter r d)))))" for f c d
    by (intro ends_keeps ends_option requeue ends_CheckFailed keeps_intros) simp_all
  show ?thesis
    unfolding Edge_PatchDefaults_def Let_def
    by (rule during_obj, assumption, rule during_andThen [OF during_ask], simp, simp, rule during_sum, rule goes_on_ends [OF stop],
        rule during_if, rule goes_on_ends [OF put], rule goes_on_settleCheck) simp
qed

lemma reconRegion_own: "goes_on (own_pools obj) (same_obj obj) (Edge_reconRegion E)"
proof -
  have region: "during (own_pools obj) (same_obj obj) (\<lambda>_. same_obj obj) (applyRegion E)"
    unfolding applyRegion_def Let_def
    by (rule during_obj, assumption, rule during_option) (auto intro: during_ret during_Pair during_ask)
  have go: "goes_on (own_pools obj) (same_obj obj) (andThen (applyRegion E) (\<lambda>err. case err of
      Some e \<Rightarrow> CheckFailed E RegionReady c (errmsg e) | None \<Rightarrow> settleCheck E RegionReady c))" for c
    by (rule during_andThen [OF region], intro goes_on_intros) simp_all
  show ?thesis
    unfolding Edge_reconRegion_def Let_def
    by (rule during_obj, assumption, rule during_andThen [OF during_ask], simp, simp, intro goes_on_intros go) simp_all
qed

lemma UpdatePool_own: "during (own_pools obj) (same_obj obj) (\<lambda>_. same_obj obj) (UpdatePool E)"
  unfolding UpdatePool_def
  by (rule during_obj, assumption, rule during_option) (auto intro: during_ret during_Pair during_ask)

lemma match_pools_own:
  "during (own_pools obj) (same_obj obj) (\<lambda>_. same_obj obj) (match_pools E edge nps ps)"
proof (induction ps)
  case Nil
  then show ?case by (auto intro: during_Pair)
next
  case (Cons p ps)
  have "during (own_pools obj) (same_obj obj) (\<lambda>_. same_obj obj) (andThen (UpdatePool E)
      (\<lambda>err. case err of Some e \<Rightarrow> ret (Some e) | None \<Rightarrow> match_pools E edge nps ps))"
    by (rule during_andThen [OF UpdatePool_own], rule during_option, rule Cons, rule during_ret)
  then show ?case using Cons by simp
qed

lemma reconPool_own: "goes_on (own_pools obj) (same_obj obj) (Edge_reconPool E)"
proof -
  have finish: "goes_on (own_pools obj) (same_obj obj) (andThen m (\<lambda>err. case err of
      Some e \<Rightarrow> CheckFailed E PoolReady c (errmsg e) | None \<Rightarrow> settleCheck E PoolReady c))"
    if "during (own_pools obj) (same_obj obj) (\<lambda>_. same_obj obj) m" for m c
    by (rule during_andThen [OF that], intro goes_on_intros) simp_all
  show ?thesis
    unfolding Edge_reconPool_def Let_def
    by (rule during_obj, assumption, rule during_andThen [OF during_ask], simp, simp,
        intro goes_on_intros finish UpdatePool_own match_pools_own) simp_all
qed

lemma Edge_steps_own: "during (own_pools obj) (same_obj obj) (\<lambda>_ _. True) (Edge_steps E)"
proof -
  have "keeps (emits (own_pools obj)) (complete E)" by (intro keeps_intros) simp
  then show ?thesis
    unfolding Edge_steps_def
    by (intro during_andStep [OF PatchDefaults_own] during_andStep [OF reconRegion_own]
        during_andStep [OF reconPool_own] during_keeps) simp_all
qed

lemma Edge_finalize_quiet: "keeps (emits (own_pools obj)) (Edge_finalize E)"
  unfolding Edge_finalize_def Let_def by (auto intro!: keeps_intros split: sum.split)

lemma Edge_pass_own:
  assumes "Edge_Reconcile E s = (r, t)"
  shows "emits (own_pools (rs_obj s)) s t"
  using assms unfolding Edge_Reconcile_def
proof (rule frame_run_cases [where Q = "own_pools (rs_obj s)"])
  assume "Edge_steps E s = (r, t)"
  from during_emits [OF Edge_steps_own _ this] show ?thesis by simp
qed (auto intro: Edge_finalize_quiet)

section \<open>Releasing an object\<close>

text \<open>A pass sends the object itself: when it is being deleted, only to drop its finalizers.\<close>

definition lets_go :: "('sp, 'ev, 'lv) rstate \<Rightarrow> ('sp, 'ev, 'lv) rstate \<Rightarrow> bool" where
  "lets_go s t \<longleftrightarrow> (\<exists>es x. rs_hist t = rs_hist s @ es \<and> EUpdate x \<in> set es)"

lemma status_no_update: "\<forall>e \<in> set es. status_event e \<Longrightarrow> EUpdate x \<notin> set es"
  by (auto dest: bspec)

lemma status_no_release: "emits status_event s t \<Longrightarrow> \<not> lets_go s t"
  by (auto simp: emits_def lets_go_def status_no_update)

lemma frame_lets_go:
  assumes "reconcile_frame E M names fin body s = (r, t)" and "deleting s" and "lets_go s t"
  shows "\<exists>q u. fin s = (q, u) \<and> lets_go s u"
proof (cases "checks_present names (st_Checks (r_status (rs_obj s)))")
  case True
  obtain q u where q: "fin s = (q, u)" by fastforce
  then have "rs_hist t = rs_hist u"
    using assms(1) True by (auto simp: frame_deleting [OF assms(2)] andStep_def andThen_apply ret_def split: res.splits if_splits)
  then show ?thesis using q assms(3) by (auto simp: lets_go_def)
next
  case False
  have "keeps (emits status_event) (andStep (EnsureChecks E names) (ret (ctrl_zero, None)))"
    by (intro keeps_intros) simp
  moreover have "andStep (EnsureChecks E names) (ret (ctrl_zero, None)) s = (r, t)"
    using assms(1) False by (simp add: frame_deleting [OF assms(2)])
  ultimately have "emits status_event s t" by (rule keepsE)
  then show ?thesis using assms(3) by (simp add: status_no_release)
qed

lemma Edge_release_empty:
  assumes "Edge_Reconcile E s = (r, t)" and "deleting s" and "lets_go s t"
  shows "eg_pools E (rs_hist s @ [ECall (EGListPools [(EdgeNameKey, om_Name (r_meta (rs_obj s)))])]) = Inr []"
proof -
  obtain q u where fin: "Edge_finalize E s = (q, u)" and go: "lets_go s u"
    using frame_lets_go assms unfolding Edge_Reconcile_def by blast
  let ?l = "ECall (EGListPools [(EdgeNameKey, om_Name (r_meta (rs_obj s)))])"
  let ?v = "s\<lparr>rs_hist := rs_hist s @ [?l]\<rparr>"
  show ?thesis
  proof (rule ccontr)
    assume "\<not> ?thesis"
    then have "Done E [] ?v = (q, u) \<or> (\<exists>c m. CheckFailed E NodePoolsDeleted c m ?v = (q, u))"
      using fin by (auto simp: Edge_finalize_def Let_def ask_def andThen_apply split: sum.splits if_splits)
    then have "emits status_event ?v u" using status_runs by blast
    then show False using go by (auto simp: emits_def lets_go_def status_no_update)
  qed
qed

lemma NodePool_release_empty:
  assumes "NodePool_Reconcile E s = (r, t)" and "deleting s" and "lets_go s t" and "\<forall>h. np_list E h = Inr ws"
  shows "ws = []"
proof -
  obtain q u where fin: "NodePool_finalize E s = (q, u)" and go: "lets_go s u"
    using frame_lets_go assms(1-3) unfolding NodePool_Reconcile_def by blast
  let ?v = "s\<lparr>rs_hist := rs_hist s @ [ECall (NPList [(RegionKey, np_EdgeName (r_spec (rs_obj s)))])]\<rparr>"
  show ?thesis
  proof (rule ccontr)
    assume "ws \<noteq> []"
    then have "Done E [] ?v = (q, u)"
      using fin assms(4) by (simp add: NodePool_finalize_def ask_def andThen_apply)
    then have "emits status_event ?v u" by (rule status_runs(1))
    then show False using go by (auto simp: emits_def lets_go_def status_no_update)
  qed
qed

section \<open>The cluster\<close>

record infra =
  if_edges :: "edge_spec resource list"
  if_pools :: "nodepool list"
  if_nodes :: "workernode list"

text \<open>A selection by labels.\<close>

definition selected :: "(string \<times> string) list \<Rightarrow> objmeta \<Rightarrow> bool" where
  "selected sel m \<longleftrightarrow> list_all (\<lambda>(k, v). gm_get (om_Labels m) k = Some v) sel"

definition nodes_of :: "infra \<Rightarrow> string \<Rightarrow> workernode list" where
  "nodes_of C edge = filter (\<lambda>n. selected [(RegionKey, edge)] (r_meta n)) (if_nodes C)"

text \<open>Environments that list what is there.\<close>

definition lists_pools :: "infra \<Rightarrow> eg_env \<Rightarrow> bool" where
  "lists_pools C E \<longleftrightarrow> (\<forall>h sel. eg_pools E (h @ [ECall (EGListPools sel)])
     = Inr (filter (\<lambda>p. selected sel (r_meta p)) (if_pools C)))"

definition lists_nodes :: "infra \<Rightarrow> np_env \<Rightarrow> nodepool \<Rightarrow> bool" where
  "lists_nodes C E p \<longleftrightarrow> (\<forall>h. np_list E h = Inr (nodes_of C (np_EdgeName (r_spec p))))"

text \<open>\<open>kubectl apply\<close> with the labels of the document.\<close>

definition apply_pool :: "nodepool \<Rightarrow> nodepool list \<Rightarrow> nodepool list" where
  "apply_pool d nps = (if npname d \<in> npname ` set nps
     then map (\<lambda>n. if npname n = npname d
         then n\<lparr>r_spec := r_spec d, r_meta := (r_meta n)\<lparr>om_Labels := put_all (gm_entries (om_Labels (r_meta d))) (om_Labels (r_meta n))\<rparr>\<rparr>
         else n) nps
     else nps @ [d])"

definition apply_pools :: "nodepool list \<Rightarrow> nodepool list \<Rightarrow> nodepool list" where
  "apply_pools docs nps = fold apply_pool docs nps"

text \<open>
  The steps.  An edge, a pool or a node can also be changed by others, as long as it keeps its name
  and, for the latter two, its edge and the label naming it; nodes can go at any time.  The documents
  of an edge's pools reach the cluster only under names that no pool of another edge has.  An object
  is removed after a pass over it, being deleted, that sends it, which is how the finalizers are
  dropped.
\<close>

inductive infra_step :: "infra \<Rightarrow> infra \<Rightarrow> bool" where
  edge_added: "infra_step C (C\<lparr>if_edges := if_edges C @ [e]\<rparr>)"
| edge_changed: "(\<And>e. om_Name (r_meta (f e)) = om_Name (r_meta e)) \<Longrightarrow> infra_step C (C\<lparr>if_edges := map f (if_edges C)\<rparr>)"
| pool_changed: "(\<And>p. np_EdgeName (r_spec (f p)) = np_EdgeName (r_spec p)) \<Longrightarrow>
    (\<And>p. gm_get (om_Labels (r_meta (f p))) EdgeNameKey = gm_get (om_Labels (r_meta p)) EdgeNameKey) \<Longrightarrow>
    infra_step C (C\<lparr>if_pools := map f (if_pools C)\<rparr>)"
| node_changed: "(\<And>n. gm_get (om_Labels (r_meta (f n))) RegionKey = gm_get (om_Labels (r_meta n)) RegionKey) \<Longrightarrow>
    infra_step C (C\<lparr>if_nodes := map f (filter keep (if_nodes C))\<rparr>)"
| edge_pass: "rs_obj s \<in> set (if_edges C) \<Longrightarrow> lists_pools C E \<Longrightarrow> Edge_Reconcile E s = (r, t) \<Longrightarrow>
    rs_hist t = rs_hist s @ es \<Longrightarrow> ECall (EGApplyPools docs) \<in> set es \<Longrightarrow>
    (\<forall>d \<in> set docs. \<forall>p \<in> set (if_pools C). npname p = npname d \<longrightarrow> np_EdgeName (r_spec p) = np_EdgeName (r_spec d)) \<Longrightarrow>
    infra_step C (C\<lparr>if_pools := apply_pools docs (if_pools C)\<rparr>)"
| edge_released: "rs_obj s \<in> set (if_edges C) \<Longrightarrow> deleting s \<Longrightarrow> lists_pools C E \<Longrightarrow> Edge_Reconcile E s = (r, t) \<Longrightarrow>
    lets_go s t \<Longrightarrow> infra_step C (C\<lparr>if_edges := removeAll (rs_obj s) (if_edges C)\<rparr>)"
| pool_pass: "rs_obj s \<in> set (if_pools C) \<Longrightarrow> lists_nodes C E (rs_obj s) \<Longrightarrow>
    changes cs s (snd (NodePool_Reconcile E s)) \<Longrightarrow>
    infra_step C (C\<lparr>if_nodes := fold pool_effect cs (if_nodes C)\<rparr>)"
| pool_released: "rs_obj s \<in> set (if_pools C) \<Longrightarrow> deleting s \<Longrightarrow> lists_nodes C E (rs_obj s) \<Longrightarrow>
    NodePool_Reconcile E s = (r, t) \<Longrightarrow> lets_go s t \<Longrightarrow>
    infra_step C (C\<lparr>if_pools := removeAll (rs_obj s) (if_pools C)\<rparr>)"

inductive infra_reach :: "infra \<Rightarrow> bool" where
  start: "infra_reach \<lparr>if_edges = [], if_pools = [], if_nodes = []\<rparr>"
| step: "infra_reach C \<Longrightarrow> infra_step C D \<Longrightarrow> infra_reach D"

section \<open>No orphans\<close>

definition pool_ok :: "infra \<Rightarrow> nodepool \<Rightarrow> bool" where
  "pool_ok C p \<longleftrightarrow> gm_get (om_Labels (r_meta p)) EdgeNameKey = Some (np_EdgeName (r_spec p))
     \<and> (\<exists>e \<in> set (if_edges C). om_Name (r_meta e) = np_EdgeName (r_spec p))"

definition node_ok :: "infra \<Rightarrow> workernode \<Rightarrow> bool" where
  "node_ok C n \<longleftrightarrow> (\<exists>p \<in> set (if_pools C). gm_get (om_Labels (r_meta n)) RegionKey = Some (np_EdgeName (r_spec p)))"

definition infra_inv :: "infra \<Rightarrow> bool" where
  "infra_inv C \<longleftrightarrow> (\<forall>p \<in> set (if_pools C). pool_ok C p) \<and> (\<forall>n \<in> set (if_nodes C). node_ok C n)"

lemma infra_invD:
  assumes "infra_inv C"
  shows "p \<in> set (if_pools C) \<Longrightarrow> pool_ok C p" and "n \<in> set (if_nodes C) \<Longrightarrow> node_ok C n"
  using assms by (auto simp: infra_inv_def)

lemma edge_doc:
  "d \<in> set (edge_pools e) \<Longrightarrow> np_EdgeName (r_spec d) = om_Name (r_meta e) \<and> om_Labels (r_meta d) = Some (Edge_labels e)"
  by (auto simp: edge_pools_def)

lemma edge_label:
  "map_of (Edge_labels e) EdgeNameKey = Some (om_Name (r_meta e))"
  "gm_get (put_all (Edge_labels e) m) EdgeNameKey = Some (om_Name (r_meta e))"
  by (simp_all add: Edge_labels_def put_all_def key_defs)

text \<open>The pools of a cluster after an application: each is one that was there, with its edge, or is of the edge.\<close>

definition from_pools :: "string \<Rightarrow> nodepool list \<Rightarrow> nodepool \<Rightarrow> bool" where
  "from_pools edge nps q \<longleftrightarrow> q \<in> set nps
     \<or> (np_EdgeName (r_spec q) = edge \<and> gm_get (om_Labels (r_meta q)) EdgeNameKey = Some edge)"

lemma apply_pool_from:
  assumes "np_EdgeName (r_spec d) = om_Name (r_meta e)" and "om_Labels (r_meta d) = Some (Edge_labels e)"
    and "q \<in> set (apply_pool d nps)"
  shows "from_pools (om_Name (r_meta e)) nps q"
  using assms(3) unfolding apply_pool_def
  by (auto simp: from_pools_def assms(1,2) edge_label gm_get_def [of "Some x" for x] split: if_splits)

lemma apply_pools_from:
  assumes "\<forall>d \<in> set docs. np_EdgeName (r_spec d) = om_Name (r_meta e) \<and> om_Labels (r_meta d) = Some (Edge_labels e)"
    and "q \<in> set (apply_pools docs nps)"
  shows "from_pools (om_Name (r_meta e)) nps q"
  using assms
proof (induction docs arbitrary: nps)
  case (Cons d docs)
  have "from_pools (om_Name (r_meta e)) (apply_pool d nps) q"
    using Cons.IH [of "apply_pool d nps"] Cons.prems by (simp add: apply_pools_def)
  then show ?case
    using apply_pool_from [of d e q nps] Cons.prems(1) by (auto simp: from_pools_def)
qed (simp add: apply_pools_def from_pools_def)

text \<open>No pool loses its edge by an application that meets no pool of another edge.\<close>

abbreviation pool_edges :: "nodepool list \<Rightarrow> string set" where
  "pool_edges nps \<equiv> (\<lambda>p. np_EdgeName (r_spec p)) ` set nps"

lemma apply_pool_keeps:
  assumes "\<forall>p \<in> set nps. npname p = npname d \<longrightarrow> np_EdgeName (r_spec p) = np_EdgeName (r_spec d)"
  shows "pool_edges nps \<subseteq> pool_edges (apply_pool d nps)"
proof
  fix x
  assume "x \<in> pool_edges nps"
  then obtain p where p: "p \<in> set nps" "x = np_EdgeName (r_spec p)" by blast
  show "x \<in> pool_edges (apply_pool d nps)"
  proof (cases "npname d \<in> npname ` set nps")
    case True
    let ?f = "\<lambda>n. if npname n = npname d then n\<lparr>r_spec := r_spec d, r_meta := (r_meta n)\<lparr>om_Labels :=
        put_all (gm_entries (om_Labels (r_meta d))) (om_Labels (r_meta n))\<rparr>\<rparr> else n"
    have x: "x = np_EdgeName (r_spec (?f p))" using p assms by auto
    have f: "?f p \<in> set (apply_pool d nps)" using True p(1) by (simp add: apply_pool_def)
    from x f show ?thesis by (rule image_eqI)
  next
    case False
    then show ?thesis using p by (auto simp: apply_pool_def)
  qed
qed

lemma apply_pool_edge_of:
  assumes "q \<in> set (apply_pool d nps)"
  shows "np_EdgeName (r_spec q) = np_EdgeName (r_spec d) \<or> q \<in> set nps"
  using assms by (auto simp: apply_pool_def split: if_splits)

lemma apply_pools_keep:
  assumes "\<forall>d \<in> set docs. np_EdgeName (r_spec d) = edge"
    and "\<forall>d \<in> set docs. \<forall>p \<in> set nps. npname p = npname d \<longrightarrow> np_EdgeName (r_spec p) = edge"
  shows "pool_edges nps \<subseteq> pool_edges (apply_pools docs nps)"
  using assms
proof (induction docs arbitrary: nps)
  case (Cons d docs)
  have d: "np_EdgeName (r_spec d) = edge" using Cons.prems(1) by simp
  have "pool_edges nps \<subseteq> pool_edges (apply_pool d nps)"
    using Cons.prems d by (intro apply_pool_keeps) auto
  moreover have "\<forall>c \<in> set docs. \<forall>p \<in> set (apply_pool d nps). npname p = npname c \<longrightarrow> np_EdgeName (r_spec p) = edge"
  proof (intro ballI impI)
    fix c p
    assume "c \<in> set docs" "p \<in> set (apply_pool d nps)" "npname p = npname c"
    then show "np_EdgeName (r_spec p) = edge"
      using Cons.prems(2) apply_pool_edge_of [of p d nps] d by (cases "p \<in> set nps") simp_all
  qed
  then have "pool_edges (apply_pool d nps) \<subseteq> pool_edges (apply_pools docs (apply_pool d nps))"
    using Cons.prems(1) by (intro Cons.IH) simp_all
  ultimately show ?case by (auto simp: apply_pools_def)
qed (simp add: apply_pools_def)

section \<open>The nodes a pass creates\<close>

lemma pass_creates:
  assumes "changes cs s (snd (NodePool_Reconcile E s))" and "\<forall>h. np_list E h = Inr ws"
    and "NPCreate n \<in> set cs"
  shows "om_Labels (r_meta n) = Some [(RegionKey, np_EdgeName (r_spec (rs_obj s)))]"
proof -
  obtain r t where t: "NodePool_Reconcile E s = (r, t)" by fastforce
  with assms(1) have cs: "changes cs s t" by simp
  from NodePool_Reconcile_changes [OF t assms(2)]
  have "cs = [NPCreate n]" "bounded_change E (rs_obj s) ws (NPCreate n)"
    using cs changes_unique assms(3) by fastforce+
  then show ?thesis by (auto simp: bounded_change_def new_worker_def elim!: fits_create)
qed

lemma pool_effect_from:
  "n \<in> set (pool_effect c ws) \<Longrightarrow> (\<exists>m \<in> set ws. r_meta n = r_meta m) \<or> c = NPCreate n"
  by (cases c) (auto split: if_splits)

lemma pool_effects_from:
  "n \<in> set (fold pool_effect cs ws) \<Longrightarrow> (\<exists>m \<in> set ws. r_meta n = r_meta m) \<or> (\<exists>m. NPCreate m \<in> set cs \<and> r_meta n = r_meta m)"
proof (induction cs arbitrary: ws)
  case (Cons c cs)
  from Cons.IH [of "pool_effect c ws"] Cons.prems
  have "(\<exists>m \<in> set (pool_effect c ws). r_meta n = r_meta m) \<or> (\<exists>m. NPCreate m \<in> set cs \<and> r_meta n = r_meta m)" by simp
  then show ?case
    by (elim disjE bexE exE) (use pool_effect_from [of _ c ws] in fastforce)+
qed auto

section \<open>The invariant\<close>

lemma infra_step_inv:
  assumes "infra_step C D" and inv: "infra_inv C"
  shows "infra_inv D"
  using assms(1)
proof cases
  case (edge_added e)
  then show ?thesis using inv by (auto simp: infra_inv_def pool_ok_def node_ok_def)
next
  case (edge_changed f)
  then show ?thesis using inv by (fastforce simp: infra_inv_def pool_ok_def node_ok_def)
next
  case (pool_changed f)
  then show ?thesis using inv by (fastforce simp: infra_inv_def pool_ok_def node_ok_def)
next
  case (node_changed f keep)
  then show ?thesis using inv by (auto simp: infra_inv_def pool_ok_def node_ok_def)
next
  case (edge_pass s E r t es docs)
  have "emits (own_pools (rs_obj s)) s t" by (rule Edge_pass_own [OF edge_pass(4)])
  then have docs: "docs = edge_pools (rs_obj s)" using edge_pass(5,6) by (auto simp: emits_def own_pools_def)
  have doc: "\<forall>d \<in> set docs. np_EdgeName (r_spec d) = om_Name (r_meta (rs_obj s))
      \<and> om_Labels (r_meta d) = Some (Edge_labels (rs_obj s))"
    using edge_doc unfolding docs by blast
  have "pool_ok D q" if "q \<in> set (if_pools D)" for q
    using apply_pools_from [OF doc, of q "if_pools C"] that edge_pass(1,2) infra_invD(1) [OF inv, of q]
    by (auto simp: pool_ok_def from_pools_def)
  moreover have edges: "pool_edges (if_pools C) \<subseteq> pool_edges (if_pools D)"
    using edge_pass(1,7) doc apply_pools_keep [of docs "om_Name (r_meta (rs_obj s))" "if_pools C"] by simp
  have "node_ok D n" if "n \<in> set (if_nodes D)" for n
  proof -
    have "n \<in> set (if_nodes C)" using that edge_pass(1) by simp
    from infra_invD(2) [OF inv this]
    obtain p where p: "p \<in> set (if_pools C)" "gm_get (om_Labels (r_meta n)) RegionKey = Some (np_EdgeName (r_spec p))"
      by (auto simp: node_ok_def)
    then obtain q where "q \<in> set (if_pools D)" "np_EdgeName (r_spec p) = np_EdgeName (r_spec q)"
      using edges by (meson imageE imageI subsetD)
    then show ?thesis using p(2) by (auto simp: node_ok_def)
  qed
  ultimately show ?thesis by (simp add: infra_inv_def)
next
  case (edge_released s E r t)
  let ?e = "rs_obj s"
  have none: "filter (\<lambda>p. selected [(EdgeNameKey, om_Name (r_meta ?e))] (r_meta p)) (if_pools C) = []"
    using Edge_release_empty [OF edge_released(5,3,6)] edge_released(4) by (simp add: lists_pools_def)
  have "pool_ok D p" if "p \<in> set (if_pools D)" for p
  proof -
    have p: "p \<in> set (if_pools C)" "pool_ok C p" using that edge_released(1) infra_invD(1) [OF inv] by auto
    then have "np_EdgeName (r_spec p) \<noteq> om_Name (r_meta ?e)"
      using none by (auto simp: filter_empty_conv selected_def pool_ok_def)
    then show ?thesis using p edge_released(1) by (auto simp: pool_ok_def)
  qed
  then show ?thesis using inv edge_released(1) by (auto simp: infra_inv_def node_ok_def)
next
  case (pool_pass s E cs)
  have list: "\<forall>h. np_list E h = Inr (nodes_of C (np_EdgeName (r_spec (rs_obj s))))"
    using pool_pass(3) by (simp add: lists_nodes_def)
  have "node_ok D n" if "n \<in> set (if_nodes D)" for n
  proof -
    from that pool_pass(1) have "n \<in> set (fold pool_effect cs (if_nodes C))" by simp
    from pool_effects_from [OF this] show ?thesis
    proof
      assume "\<exists>m \<in> set (if_nodes C). r_meta n = r_meta m"
      then show ?thesis using infra_invD(2) [OF inv] pool_pass(1) by (auto simp: node_ok_def)
    next
      assume "\<exists>m. NPCreate m \<in> set cs \<and> r_meta n = r_meta m"
      then have "om_Labels (r_meta n) = Some [(RegionKey, np_EdgeName (r_spec (rs_obj s)))]"
        using pass_creates [OF pool_pass(4) list] by auto
      then show ?thesis using pool_pass(1,2) by (auto simp: node_ok_def gm_get_def)
    qed
  qed
  then show ?thesis using inv pool_pass(1) by (auto simp: infra_inv_def pool_ok_def)
next
  case (pool_released s E r t)
  let ?p = "rs_obj s"
  have none: "nodes_of C (np_EdgeName (r_spec ?p)) = []"
    using NodePool_release_empty [OF pool_released(5,3,6)] pool_released(4) by (simp add: lists_nodes_def)
  have "node_ok D n" if "n \<in> set (if_nodes D)" for n
  proof -
    have n: "n \<in> set (if_nodes C)" using that pool_released(1) by simp
    then obtain p where p: "p \<in> set (if_pools C)" "gm_get (om_Labels (r_meta n)) RegionKey = Some (np_EdgeName (r_spec p))"
      using infra_invD(2) [OF inv] by (auto simp: node_ok_def)
    then have "p \<noteq> ?p" using none n by (auto simp: nodes_of_def filter_empty_conv selected_def)
    then show ?thesis using p pool_released(1) by (auto simp: node_ok_def)
  qed
  then show ?thesis using inv pool_released(1) by (auto simp: infra_inv_def pool_ok_def)
qed

lemma infra_reach_inv: "infra_reach C \<Longrightarrow> infra_inv C"
proof (induction rule: infra_reach.induct)
  case start
  then show ?case by (simp add: infra_inv_def)
next
  case (step C D)
  then show ?case by (blast intro: infra_step_inv)
qed

section \<open>Properties\<close>


section \<open>Witness\<close>

definition settled_edge :: "edge_spec resource" where
  "settled_edge = (let x = rs_obj (sample_edge ''r'') in
     redo (Some (Edge_labels x)) (Some (Edge_annotations x)) frame_finalizers
       (status0\<lparr>st_Checks := Some [(DefaultsPatched, (CheckGen 1)\<lparr>ck_Status := True\<rparr>),
          (RegionReady, (CheckGen 1)\<lparr>ck_Status := True\<rparr>), (PoolReady, Check0)]\<rparr>)
       (x\<lparr>r_meta := (r_meta x)\<lparr>om_Owners := [AsOwner sample_meta [True]]\<rparr>\<rparr>))"

definition settled_eg_env :: eg_env where
  "settled_eg_env = (sample_eg_env [])\<lparr>eg_provider := (\<lambda>_. Inr \<lparr>r_meta = sample_meta, r_spec = (), r_status = status0\<rparr>),
     eg_region := (\<lambda>_. Inr \<lparr>r_meta = sample_meta, r_spec = \<lparr>rg_AccountName = ''acc'', rg_IsMaster = False\<rparr>, r_status = status0\<rparr>)\<rparr>"

definition settled_state :: "(edge_spec, eg_call, unit) rstate" where
  "settled_state = \<lparr>rs_obj = settled_edge, rs_hist = [], rs_locals = []\<rparr>"

definition first_infra :: infra where
  "first_infra = \<lparr>if_edges = [settled_edge], if_pools = [], if_nodes = []\<rparr>"

lemma first_infra_reach: "infra_reach first_infra"
  using infra_reach.step [OF infra_reach.start infra_step.edge_added [of _ settled_edge]] by (simp add: first_infra_def)

lemma settled_applies: "ECall (EGApplyPools (edge_pools settled_edge)) \<in> set (rs_hist (snd (Edge_Reconcile settled_eg_env settled_state)))"
  by code_simp

lemma second_infra_reach: "infra_reach (first_infra\<lparr>if_pools := edge_pools settled_edge\<rparr>)"
proof -
  obtain r t where run: "Edge_Reconcile settled_eg_env settled_state = (r, t)" by fastforce
  have "infra_step first_infra (first_infra\<lparr>if_pools := apply_pools (edge_pools settled_edge) (if_pools first_infra)\<rparr>)"
  proof (rule infra_step.edge_pass [OF _ _ run])
    show "rs_obj settled_state \<in> set (if_edges first_infra)" by (simp add: settled_state_def first_infra_def)
    show "lists_pools first_infra settled_eg_env" by (simp add: lists_pools_def first_infra_def settled_eg_env_def)
    show "rs_hist t = rs_hist settled_state @ rs_hist t" by (simp add: settled_state_def)
    show "ECall (EGApplyPools (edge_pools settled_edge)) \<in> set (rs_hist t)" using settled_applies run by simp
  qed (simp add: first_infra_def)
  moreover have "apply_pools (edge_pools settled_edge) (if_pools first_infra) = edge_pools settled_edge" by code_simp
  ultimately show ?thesis using infra_reach.step [OF first_infra_reach] by simp
qed

definition settle_pool :: "nodepool \<Rightarrow> nodepool" where
  "settle_pool p = redo (put_all (NodePool_labels p) (om_Labels (r_meta p))) (Some (NodePool_annotations p)) frame_finalizers
     (status0\<lparr>st_Checks := Some [(WorkerNodesReady, Check0), (WorkerNodesDeleted, Check0)]\<rparr>) p"

definition settled_pool :: nodepool where
  "settled_pool = settle_pool (hd (edge_pools settled_edge))"

definition third_infra :: infra where
  "third_infra = \<lparr>if_edges = [settled_edge], if_pools = [settled_pool], if_nodes = []\<rparr>"

lemma third_infra_reach: "infra_reach third_infra"
proof -
  have "infra_step (first_infra\<lparr>if_pools := edge_pools settled_edge\<rparr>)
      ((first_infra\<lparr>if_pools := edge_pools settled_edge\<rparr>)\<lparr>if_pools := map settle_pool (if_pools (first_infra\<lparr>if_pools := edge_pools settled_edge\<rparr>))\<rparr>)"
    by (rule infra_step.pool_changed) (simp_all add: settle_pool_def NodePool_labels_def put_all_def key_defs)
  moreover have "map settle_pool (edge_pools settled_edge) = [settled_pool]"
    by (simp add: settled_pool_def edge_pools_def settled_edge_def Let_def sample_edge_def sample_state_def sample_edge_spec_def)
  ultimately show ?thesis
    using infra_reach.step [OF second_infra_reach] by (simp add: third_infra_def first_infra_def)
qed

definition first_worker :: workernode where
  "first_worker = new_worker settled_pool ''u0'' []"

definition pool_state :: "(nodepool_spec, np_call, np_local) rstate" where
  "pool_state = \<lparr>rs_obj = settled_pool, rs_hist = [], rs_locals = []\<rparr>"

lemma pool_state_creates: "np_calls (rs_hist (snd (NodePool_Reconcile (sample_np_env [] ''u0'') pool_state))) = [NPCreate first_worker]"
  by code_simp

lemma fourth_infra_reach: "infra_reach (third_infra\<lparr>if_nodes := [first_worker]\<rparr>)"
proof -
  have "infra_step third_infra (third_infra\<lparr>if_nodes := fold pool_effect [NPCreate first_worker] (if_nodes third_infra)\<rparr>)"
  proof (rule infra_step.pool_pass)
    show "rs_obj pool_state \<in> set (if_pools third_infra)" by (simp add: pool_state_def third_infra_def)
    show "lists_nodes third_infra (sample_np_env [] ''u0'') (rs_obj pool_state)"
      by (simp add: lists_nodes_def nodes_of_def third_infra_def sample_np_env_def)
    show "changes [NPCreate first_worker] pool_state (snd (NodePool_Reconcile (sample_np_env [] ''u0'') pool_state))"
      using pool_state_creates by (simp add: changes_def pool_state_def)
  qed
  then show ?thesis using infra_reach.step [OF third_infra_reach] by (simp add: third_infra_def)
qed


end
