(* ===== verification/Wakeups.thy ===== *)
theory Wakeups
  imports Startup Infra Tunnel
begin

text \<open>
  Which controllers the objects wake that a controller's pass makes: the owner references and labels
  written by the passes against the kinds that the controllers are registered for.
\<close>

section \<open>What the passes write\<close>

text \<open>All worker nodes a node pool's pass creates are controlled by the pool.\<close>

definition owned_nodes :: "nodepool_spec resource \<Rightarrow> (nodepool_spec, np_call) event \<Rightarrow> bool" where
  "owned_nodes obj e \<longleftrightarrow> (\<forall>w. e = ECall (NPCreate w) \<longrightarrow> om_Owners (r_meta w) = [AsOwner (r_meta obj) [True]])"

lemma owned_nodes_simps [simp]:
  "status_ok (owned_nodes obj)" "update_ok (owned_nodes obj)" "exec_ok (owned_nodes obj)" "owned_nodes obj (EExec argv)"
  "owned_nodes obj (ECall (NPList l))" "owned_nodes obj (ECall (NPGetConfigMap a b))" "owned_nodes obj (ECall (NPDelete n))"
  "owned_nodes obj (ECall (NPMark n))" "owned_nodes obj (ECall (NPCreate (new_worker obj uuid ws)))"
  by (simp_all add: owned_nodes_def status_ok_def update_ok_def exec_ok_def new_worker_def)

lemma add_node_owned: "goes_on (owned_nodes obj) (same_obj obj) (add_node E c ws)"
  unfolding add_node_def
  by (rule during_andThen [OF during_gets [where Q = "\<lambda>x s. same_obj obj s \<and> fst x = obj"]], simp, rule during_conj)
    (auto intro!: same_rules)

lemma carry_out_owned: "goes_on (owned_nodes obj) (same_obj obj) (carry_out E c ws i a)"
  unfolding carry_out_def del_node_def mark_node_def
  by (auto intro!: same_rules add_node_owned split: res.split)

lemma GetTotalPodRequest_same: "during (owned_nodes obj) (same_obj obj) (\<lambda>_. same_obj obj) (GetTotalPodRequest E it n)"
  unfolding GetTotalPodRequest_def ExecCmd_def by (auto intro!: same_rules split: exec_result.split)

lemma NodePool_steps_owned: "during (owned_nodes obj) (same_obj obj) (\<lambda>_ _. True) (NodePool_steps E)"
proof -
  have scale: "goes_on (owned_nodes obj) (same_obj obj) (scale_pool E c ws det)" for c ws det
    unfolding scale_pool_def
    by (auto intro!: same_rules GetTotalPodRequest_same carry_out_owned split: res.split option.split prod.split)
  have recon: "goes_on (owned_nodes obj) (same_obj obj) (reconWorkerNodes E)"
    unfolding reconWorkerNodes_def Let_def by (auto intro!: same_rules scale)
  have fetch: "goes_on (owned_nodes obj) (same_obj obj) (NodePool_fetchRequired E)"
    unfolding NodePool_fetchRequired_def Let_def by (auto intro!: same_rules split: sum.split)
  have complete: "keeps (emits (owned_nodes obj)) (complete E)" by (intro keeps_intros) simp
  show ?thesis
    unfolding NodePool_steps_def
    by (rule during_andStep [OF fetch], rule during_andStep [OF recon], rule during_keeps [OF complete]) simp_all
qed

lemma NodePool_pass_owned:
  assumes "NodePool_Reconcile E s = (r, t)"
  shows "emits (owned_nodes (rs_obj s)) s t"
  using assms unfolding NodePool_Reconcile_def
proof (rule frame_run_cases [where Q = "owned_nodes (rs_obj s)"])
  assume "NodePool_steps E s = (r, t)"
  from during_emits [OF NodePool_steps_owned _ this] show ?thesis by simp
next
  show "keeps (emits (owned_nodes (rs_obj s))) (NodePool_finalize E)"
    unfolding NodePool_finalize_def by (auto intro!: keeps_intros split: sum.split)
qed auto

text \<open>The secrets and the service of a device are controlled by the device.\<close>

definition owned_docs :: "device_spec resource \<Rightarrow> (device_spec, dv_call) event \<Rightarrow> bool" where
  "owned_docs obj e \<longleftrightarrow> (\<forall>doc. e = ECall (DVCreateSecret doc) \<longrightarrow> sc_Owners doc = [AsOwner (r_meta obj) [True]])
     \<and> (\<forall>doc. e = ECall (DVApplyService doc) \<longrightarrow> sd_Owners doc = [AsOwner (r_meta obj) [True]])"

lemma owned_docs_simps [simp]:
  "status_ok (owned_docs obj)" "update_ok (owned_docs obj)" "exec_ok (owned_docs obj)" "owned_docs obj (EExec argv)"
  "owned_docs obj (ECall DVListRegions)" "owned_docs obj (ECall (DVListDevices l))" "owned_docs obj (ECall (DVGetConfigMap a b))"
  "owned_docs obj (ECall (DVGetService a b))" "owned_docs obj (ECall (DVGetSecret a b))" "owned_docs obj (ECall (DVGetAccount a))"
  "owned_docs obj (ECall DVGenerateKeys)" "owned_docs obj (ECall (DVUpdateSecret a b c))" "owned_docs obj (ECall (DVApplyDns d))"
  "owned_docs obj (ECall (DVApplyService (device_service obj ports)))" "owned_docs obj (ECall (DVCreateSecret (keys_doc obj pub pv ip)))"
  "owned_docs obj (ECall (DVCreateSecret (config_doc obj data)))"
  by (simp_all add: owned_docs_def status_ok_def update_ok_def exec_ok_def device_service_def keys_doc_def config_doc_def)

lemma KubectlApply_same:
  assumes "owned_docs obj (ECall (DVCreateSecret doc))"
  shows "during (owned_docs obj) (same_obj obj) (\<lambda>_. same_obj obj) (KubectlApply E doc)"
  using assms by (intro KubectlApply_during) simp_all

lemma Device_steps_owned: "during (owned_docs obj) (same_obj obj) (\<lambda>_ _. True) (Device_steps E)"
proof -
  let ?ok = "owned_docs obj" and ?P = "same_obj obj"
  have fetch: "goes_on ?ok ?P (Device_fetchRequired E)"
    unfolding Device_fetchRequired_def Let_def by (auto intro!: same_rules split: sum.split list.split)
  have keys: "goes_on ?ok ?P (Device_reconWgKeys E)"
    unfolding Device_reconWgKeys_def Let_def by (auto intro!: same_rules KubectlApply_same split: sum.split)
  have service: "during ?ok ?P (\<lambda>_. ?P) (updateServices E)"
    unfolding updateServices_def by (auto intro!: same_rules split: sum.split)
  have sync: "goes_on ?ok ?P (Device_reconSyncServices E)"
    unfolding Device_reconSyncServices_def Let_def by (auto intro!: same_rules service)
  have dns: "during ?ok ?P (\<lambda>_. ?P) (updateDns E)"
    unfolding updateDns_def run_kubectl_def Let_def by (auto intro!: same_rules)
  have rules: "goes_on ?ok ?P (Device_reconDnsRewriteRules E)"
    unfolding Device_reconDnsRewriteRules_def Let_def by (auto intro!: same_rules dns)
  have value_read: "during ?ok ?P (\<lambda>_. ?P) (on_value m j)" for m :: "(rawjson, 'b) act" and j
    by (rule during_mono [OF on_value_keeps [where P = ?P]]) auto
  have servers: "during ?ok ?P (\<lambda>_. ?P) (server_configs obj gs vars)" for gs vars
    by (induction gs arbitrary: vars) (auto intro!: same_rules value_read)
  have written: "during ?ok ?P (\<lambda>_. ?P) (writeConfigs E gs dns pv ip)" for gs dns pv ip
    unfolding writeConfigs_def by (auto intro!: same_rules value_read servers KubectlApply_same)
  have config: "goes_on ?ok ?P (Device_reconDeviceConfig E)"
    unfolding Device_reconDeviceConfig_def Let_def by (auto intro!: same_rules written)
  have complete: "keeps (emits ?ok) (complete E)" by (intro keeps_intros) simp
  show ?thesis
    unfolding Device_steps_def
    by (rule during_andStep [OF fetch], rule during_andStep [OF keys], rule during_andStep [OF sync],
        rule during_andStep [OF rules], rule during_andStep [OF config], rule during_keeps [OF complete]) simp_all
qed

lemma Device_pass_owned:
  assumes "Device_Reconcile E s = (r, t)"
  shows "emits (owned_docs (rs_obj s)) s t"
  using assms unfolding Device_Reconcile_def
proof (rule frame_run_cases [where Q = "owned_docs (rs_obj s)"])
  assume "Device_steps E s = (r, t)"
  from during_emits [OF Device_steps_owned _ this] show ?thesis by simp
next
  show "keeps (emits (owned_docs (rs_obj s))) (Device_finalize E)"
    unfolding Device_finalize_def by (intro keeps_intros) simp
qed auto

section \<open>Properties\<close>

lemma wakes_owner:
  assumes "runtime_events enq" and "k \<in> set (rn_Owns r)" and "of_kind (rn_For r) obj" and "om_Owners m = [AsOwner (r_meta obj) [True]]"
  shows "om_Name (r_meta obj) \<in> enq r k m"
  using assms by (auto intro!: owned_wakes owned_AsOwner simp: of_kind_def)

lemma labelled_account:
  assumes "prepared (Device_methods ip) names s" and "dv_AccountName (r_spec (rs_obj s)) \<noteq> ''''"
  shows "gm_get (om_Labels (r_meta (rs_obj s))) ''kloudlite.io/account.name'' = Some (dv_AccountName (r_spec (rs_obj s)))"
proof -
  have "gm_str (om_Labels (r_meta (rs_obj s))) ''kloudlite.io/account.name'' = dv_AccountName (r_spec (rs_obj s))"
    using assms(1) by (simp add: prepared_def labelled_def Let_def Device_methods_def Device_labels_def MapContains_def gm_entries_def)
  then show ?thesis using assms(2) by (auto simp: gm_str_def split: option.splits)
qed

text \<open>C12. What a pass makes wakes the controller that made it.  With the controllers registered as they are, an
  event on a worker node that a pass created wakes its node pool, one on a node pool that a pass
  applied its edge, and one on the service or on a secret that a pass over a device wrote the device,
  as long as the owners it was made with are kept; and an event on a device on which the steps of the
  controller run wakes its account.\<close>

theorem Created_objects_wake_creators:
  assumes "runtime_events enq"
  shows "(\<forall>E s w m. of_kind KNodePool (rs_obj s) \<and> makes s (snd (NodePool_Reconcile E s)) (ECall (NPCreate w))
        \<and> om_Owners m = om_Owners (r_meta w) \<longrightarrow> om_Name (r_meta (rs_obj s)) \<in> enq NodePool_setup KWorkerNode m)
    \<and> (\<forall>E s docs p m. of_kind KEdge (rs_obj s) \<and> makes s (snd (Edge_Reconcile E s)) (ECall (EGApplyPools docs)) \<and> p \<in> set docs
        \<and> om_Owners m = om_Owners (r_meta p) \<longrightarrow> om_Name (r_meta (rs_obj s)) \<in> enq Edge_setup KNodePool m)
    \<and> (\<forall>E s doc m. of_kind KDevice (rs_obj s) \<and> makes s (snd (Device_Reconcile E s)) (ECall (DVApplyService doc))
        \<and> om_Owners m = sd_Owners doc \<longrightarrow> om_Name (r_meta (rs_obj s)) \<in> enq Device_setup KService m)
    \<and> (\<forall>E s doc m. of_kind KDevice (rs_obj s) \<and> makes s (snd (Device_Reconcile E s)) (ECall (DVCreateSecret doc))
        \<and> om_Owners m = sc_Owners doc \<longrightarrow> om_Name (r_meta (rs_obj s)) \<in> enq Device_setup KSecret m)
    \<and> (\<forall>ip names s accounts get. prepared (Device_methods ip) names s \<and> dv_AccountName (r_spec (rs_obj s)) \<noteq> ''''
        \<longrightarrow> dv_AccountName (r_spec (rs_obj s)) \<in> enq (Account_setup accounts get) KDevice (r_meta (rs_obj s)))"
proof (intro conjI allI impI; elim conjE)
  fix E s w and m :: objmeta
  assume "of_kind KNodePool (rs_obj s)" "makes s (snd (NodePool_Reconcile E s)) (ECall (NPCreate w))" "om_Owners m = om_Owners (r_meta w)"
  then show "om_Name (r_meta (rs_obj s)) \<in> enq NodePool_setup KWorkerNode m"
    using emits_makes [OF NodePool_pass_owned [OF prod.collapse [symmetric]]]
    by (auto intro!: wakes_owner [OF assms] simp: NodePool_setup_def owned_nodes_def)
next
  fix E s docs p and m :: objmeta
  assume "of_kind KEdge (rs_obj s)" "makes s (snd (Edge_Reconcile E s)) (ECall (EGApplyPools docs))" "p \<in> set docs"
    "om_Owners m = om_Owners (r_meta p)"
  then show "om_Name (r_meta (rs_obj s)) \<in> enq Edge_setup KNodePool m"
    using emits_makes [OF Edge_pass_own [OF prod.collapse [symmetric]]]
    by (fastforce intro!: wakes_owner [OF assms] simp: Edge_setup_def own_pools_def edge_pools_def)
next
  fix E s doc and m :: objmeta
  assume "of_kind KDevice (rs_obj s)" "makes s (snd (Device_Reconcile E s)) (ECall (DVApplyService doc))" "om_Owners m = sd_Owners doc"
  then show "om_Name (r_meta (rs_obj s)) \<in> enq Device_setup KService m"
    using emits_makes [OF Device_pass_owned [OF prod.collapse [symmetric]]]
    by (auto intro!: wakes_owner [OF assms] simp: Device_setup_def owned_docs_def)
next
  fix E s doc and m :: objmeta
  assume "of_kind KDevice (rs_obj s)" "makes s (snd (Device_Reconcile E s)) (ECall (DVCreateSecret doc))" "om_Owners m = sc_Owners doc"
  then show "om_Name (r_meta (rs_obj s)) \<in> enq Device_setup KSecret m"
    using emits_makes [OF Device_pass_owned [OF prod.collapse [symmetric]]]
    by (auto intro!: wakes_owner [OF assms] simp: Device_setup_def owned_docs_def)
next
  fix ip names and s :: "(device_spec, 'a, 'b) rstate" and accounts get
  assume "prepared (Device_methods ip) names s" "dv_AccountName (r_spec (rs_obj s)) \<noteq> ''''"
  then show "dv_AccountName (r_spec (rs_obj s)) \<in> enq (Account_setup accounts get) KDevice (r_meta (rs_obj s))"
    using assms labelled_account [of ip names s] by (auto simp: runtime_events_def Account_setup_def Account_watch_device_def)
qed

section \<open>Witness\<close>

definition sample_enq :: "registration \<Rightarrow> kube_kind \<Rightarrow> objmeta \<Rightarrow> string set" where
  "sample_enq r k m = {n. k = rn_For r \<and> n = om_Name m}
     \<union> {n. k \<in> set (rn_Owns r) \<and> owned_by (rn_For r) m n}
     \<union> {n. \<exists>f. (k, f) \<in> set (rn_Watches r) \<and> n \<in> set (f m)}"

lemma Created_objects_wake_creators_witness:
  "om_Name (r_meta settled_edge) \<in> sample_enq Edge_setup KNodePool (r_meta (hd (edge_pools settled_edge)))"
proof -
  have made: "makes settled_state (snd (Edge_Reconcile settled_eg_env settled_state)) (ECall (EGApplyPools (edge_pools settled_edge)))"
    using settled_applies by (simp add: makes_def settled_state_def)
  have events: "runtime_events sample_enq" by (simp add: runtime_events_def sample_enq_def)
  have edge: "of_kind KEdge (rs_obj settled_state)" "hd (edge_pools settled_edge) \<in> set (edge_pools settled_edge)"
    by (simp add: settled_state_def of_kind_def settled_edge_def Let_def sample_edge_def sample_state_def sample_meta_def
        api_group_def redo_def, code_simp)
  have "om_Name (r_meta (rs_obj settled_state)) \<in> sample_enq Edge_setup KNodePool (r_meta (hd (edge_pools settled_edge)))"
    by (rule Created_objects_wake_creators [OF events, THEN conjunct2, THEN conjunct1, rule_format]) (rule conjI [OF edge(1) conjI [OF made conjI [OF edge(2) refl]]])
  then show ?thesis by (simp add: settled_state_def)
qed

end
