(* ===== verification/StatusConditions.thy ===== *)
theory StatusConditions
  imports Conditions
begin

text \<open>
  Building condition lists, \<open>lib/functions/conditions.go\<close>, which holds two copies of the same
  operations: \<open>statusConditions\<close>, whose receiver keeps the list and the time of the last
  transition (\<open>sc_\<close> here), and \<open>conditions2\<close>, whose receiver keeps the time and is passed the list
  (\<open>c2_\<close>).  They are compared below.  The functions of the Kubernetes libraries on condition
  lists are parameters.  What the cluster answers is an argument: the operations only read.
\<close>

section \<open>The libraries\<close>

text \<open>\<open>FindStatusCondition\<close>, \<open>SetStatusCondition\<close>, \<open>IsStatusConditionTrue\<close> and \<open>IsStatusConditionFalse\<close>.\<close>

record cond_lib =
  cl_find :: "condition list \<Rightarrow> string \<Rightarrow> condition option"
  cl_set :: "condition list \<Rightarrow> condition \<Rightarrow> condition list"
  cl_true :: "condition list \<Rightarrow> string \<Rightarrow> bool"
  cl_false :: "condition list \<Rightarrow> string \<Rightarrow> bool"

text \<open>
  Their documentation: a condition is found by its type; setting one that is there updates its
  status, reason and message in place, and appends it otherwise; a condition is true (false) if
  it is there with that status.
\<close>

definition view :: "condition \<Rightarrow> cond_status \<times> string \<times> string" where
  "view c = (cStatus c, cReason c, cMessage c)"

definition lookup :: "condition list \<Rightarrow> string \<Rightarrow> (cond_status \<times> string \<times> string) option" where
  "lookup cs t = map_option view (List.find (\<lambda>c. cType c = t) cs)"

definition cond_lib_ok :: "cond_lib \<Rightarrow> bool" where
  "cond_lib_ok L \<longleftrightarrow> finds_first (cl_find L)
     \<and> (\<forall>cs c. map cType (cl_set L cs c) = (if cType c \<in> cType ` set cs then map cType cs else map cType cs @ [cType c])
          \<and> lookup (cl_set L cs c) = (lookup cs)(cType c \<mapsto> view c))
     \<and> (\<forall>cs t. cl_true L cs t = (\<exists>r m. lookup cs t = Some (ConditionTrue, r, m)))
     \<and> (\<forall>cs t. cl_false L cs t = (\<exists>r m. lookup cs t = Some (ConditionFalse, r, m)))"

text \<open>The constants of \<open>ConditionReady\<close>, and \<open>StatusFromBool\<close>.\<close>

definition ReadyType :: string where "ReadyType = ''Ready''"
definition ReadyErrorReason :: string where "ReadyErrorReason = ''SomeChecksFailed''"
definition ReadySuccessReason :: string where "ReadySuccessReason = ''AllChecksCompleted''"

definition StatusFromBool :: "bool \<Rightarrow> cond_status" where
  "StatusFromBool b = (if b then ConditionTrue else ConditionFalse)"

section \<open>What is read from the cluster\<close>

record container_status =
  ct_Name :: string
  ct_Ready :: bool
  ct_Waiting :: "(string \<times> string) option"
  ct_Running :: "string option"

record pod_status =
  pd_Conditions :: "condition list"
  pd_Containers :: "container_status list"

record stateful_set =
  ss_ReadyReplicas :: int
  ss_Replicas :: int

text \<open>A Helm resource: an error of its encoding or its decoding, or its conditions.\<close>

type_synonym helm_answer = "error + (error + condition list)"

definition not_created :: "string \<Rightarrow> error \<Rightarrow> condition" where
  "not_created reason e = \<lparr>cType = ''NotCreated'', cStatus = ConditionTrue, cReason = reason, cMessage = errmsg e,
     cLastTransitionTime = 0\<rparr>"

definition ready_cond :: "cond_status \<Rightarrow> string \<Rightarrow> string \<Rightarrow> condition" where
  "ready_cond st reason msg = \<lparr>cType = ReadyType, cStatus = st, cReason = reason, cMessage = msg, cLastTransitionTime = 0\<rparr>"

definition pod_condition :: "nat \<Rightarrow> condition \<Rightarrow> condition" where
  "pod_condition idx c = c\<lparr>cType := ''Pod-idx-'' @ itoa (int idx) @ ''-'' @ cType c,
     cReason := ''Pod:Idx:'' @ itoa (int idx) @ '':NotSpecified''\<rparr>"

definition container_condition :: "container_status \<Rightarrow> condition" where
  "container_condition cs =
     (let p = \<lparr>cType = ''Name-'' @ ct_Name cs, cStatus = StatusFromBool (ct_Ready cs), cReason = '''', cMessage = '''',
               cLastTransitionTime = 0\<rparr>;
          p = (case ct_Waiting cs of None \<Rightarrow> p | Some (r, m) \<Rightarrow> p\<lparr>cReason := r, cMessage := m\<rparr>)
      in case ct_Running cs of
           None \<Rightarrow> p
         | Some t \<Rightarrow> p\<lparr>cReason := ''Running'', cMessage := ''Container running since '' @ t\<rparr>)"

definition deploy_condition :: "condition \<Rightarrow> condition" where
  "deploy_condition c = c\<lparr>cLastTransitionTime := 0\<rparr>"

section \<open>The first copy: a receiver with the list\<close>

record statusConditions =
  sc_lt :: int
  sc_conditions :: "condition list"

fun sc_Build :: "cond_lib \<Rightarrow> string \<Rightarrow> condition list \<Rightarrow> statusConditions \<Rightarrow> statusConditions" where
  "sc_Build L grp [] s = s"
| "sc_Build L grp (cond # conditions) s =
     (let cond = (if cReason cond = '''' then cond\<lparr>cReason := ''NotSpecified''\<rparr> else cond);
          s = (if cLastTransitionTime cond \<noteq> 0 \<and> cLastTransitionTime cond - sc_lt s > 0
               then s\<lparr>sc_lt := cLastTransitionTime cond\<rparr> else s);
          cond = (if cLastTransitionTime cond = 0 then cond\<lparr>cLastTransitionTime := sc_lt s\<rparr> else cond);
          cond = (if grp \<noteq> '''' then cond\<lparr>cReason := grp @ '':'' @ cReason cond, cType := grp @ cType cond\<rparr> else cond)
      in sc_Build L grp conditions (s\<lparr>sc_conditions := cl_set L (sc_conditions s) cond\<rparr>))"

definition sc_GetAll :: "statusConditions \<Rightarrow> condition list" where
  "sc_GetAll s = sc_conditions s"

definition sc_Get :: "cond_lib \<Rightarrow> statusConditions \<Rightarrow> string \<Rightarrow> condition option" where
  "sc_Get L s t = cl_find L (sc_conditions s) t"

definition sc_Equal :: "cond_lib \<Rightarrow> statusConditions \<Rightarrow> condition list \<Rightarrow> bool" where
  "sc_Equal L s other = (length (sc_conditions s) = length other \<and> list_all (\<lambda>c. case cl_find L other (cType c) of
     None \<Rightarrow> False
   | Some st \<Rightarrow> \<not> (cReason st \<noteq> cReason c \<or> cMessage st \<noteq> cMessage c \<or> cStatus st \<noteq> cStatus c)) (sc_conditions s))"

definition sc_SetReady :: "cond_lib \<Rightarrow> cond_status \<Rightarrow> string \<Rightarrow> string \<Rightarrow> statusConditions \<Rightarrow> statusConditions" where
  "sc_SetReady L t reason msg = sc_Build L '''' [ready_cond t reason msg]"

definition sc_MarkNotReady :: "cond_lib \<Rightarrow> error \<Rightarrow> string list \<Rightarrow> statusConditions \<Rightarrow> statusConditions" where
  "sc_MarkNotReady L err reason = sc_SetReady L ConditionFalse (case reason of [] \<Rightarrow> ReadyErrorReason | r # _ \<Rightarrow> r) (errmsg err)"

definition sc_MarkReady :: "cond_lib \<Rightarrow> string \<Rightarrow> string list \<Rightarrow> statusConditions \<Rightarrow> statusConditions" where
  "sc_MarkReady L msg reason = sc_SetReady L ConditionFalse (case reason of [] \<Rightarrow> ReadySuccessReason | r # _ \<Rightarrow> r) msg"

definition sc_IsTrue :: "cond_lib \<Rightarrow> statusConditions \<Rightarrow> string \<Rightarrow> bool" where
  "sc_IsTrue L s t = cl_true L (sc_conditions s) t"

definition sc_IsFalse :: "cond_lib \<Rightarrow> statusConditions \<Rightarrow> string \<Rightarrow> bool" where
  "sc_IsFalse L s t = cl_false L (sc_conditions s) t"

definition sc_Reset :: "statusConditions \<Rightarrow> statusConditions" where
  "sc_Reset s = s\<lparr>sc_conditions := []\<rparr>"

definition sc_From :: "condition list \<Rightarrow> statusConditions \<Rightarrow> statusConditions" where
  "sc_From conditions s = s\<lparr>sc_conditions := conditions\<rparr>"

definition sc_BuildFromHelmMsvc :: "cond_lib \<Rightarrow> helm_answer \<Rightarrow> statusConditions \<Rightarrow> error option \<times> statusConditions" where
  "sc_BuildFromHelmMsvc L hm s = (case hm of
     Inl e \<Rightarrow> (Some e, if IsNotFound e then sc_Build L ''Helm'' [not_created ''HelmResourceNotFound'' e] s else s)
   | Inr (Inl e) \<Rightarrow> (Some e, s)
   | Inr (Inr cs) \<Rightarrow> (if \<not> cl_true L cs ''Deployed'' then Some (Failure ''helm not yet deployed'') else None,
       sc_Build L ''Helm'' cs s))"

text \<open>The loop over the pods returns in its first round.\<close>

definition sc_BuildFromPods :: "cond_lib \<Rightarrow> pod_status list \<Rightarrow> statusConditions \<Rightarrow> error option \<times> statusConditions" where
  "sc_BuildFromPods L pl s = (case pl of
     [] \<Rightarrow> (None, s)
   | pod # _ \<Rightarrow> (None, sc_Build L ''Container'' (map container_condition (pd_Containers pod))
       (sc_Build L '''' (map (pod_condition 0) (pd_Conditions pod)) s)))"

definition sc_BuildFromStatefulset :: "cond_lib \<Rightarrow> error + stateful_set \<Rightarrow> error + pod_status list \<Rightarrow> statusConditions
    \<Rightarrow> error option \<times> statusConditions" where
  "sc_BuildFromStatefulset L sts pods s = (case sts of
     Inl e \<Rightarrow> (Some e, if IsNotFound e then sc_Build L ''StatefulSet'' [not_created ''StsResourceNotFound'' e] s else s)
   | Inr x \<Rightarrow>
       (let s = sc_Build L '''' [ready_cond (if ss_ReadyReplicas x = ss_Replicas x then ConditionTrue else ConditionFalse)
                  ''AllReplicasReady'' ''StatefulSet Ready''] s
        in case pods of Inl e \<Rightarrow> (Some e, s) | Inr pl \<Rightarrow> sc_BuildFromPods L pl s))"

definition sc_BuildFromDeployment :: "cond_lib \<Rightarrow> error + condition list \<Rightarrow> error + pod_status list \<Rightarrow> statusConditions
    \<Rightarrow> error option \<times> statusConditions" where
  "sc_BuildFromDeployment L depl pods s = (case depl of
     Inl e \<Rightarrow> (Some e, if IsNotFound e then sc_Build L ''Deployment'' [not_created ''DeploymentNotFound'' e] s else s)
   | Inr conds \<Rightarrow>
       (let deplConditions = map deploy_condition conds;
            s = sc_Build L ''Deployment'' deplConditions s;
            s = sc_Build L '''' [ready_cond (if cl_true L deplConditions ''Available'' then ConditionTrue else ConditionFalse)
                  ReadySuccessReason ''Deployment is Available''] s
        in case pods of
             Inl e \<Rightarrow> (Some (Failure (''could not list pods for deployment as '' @ errmsg e)), s)
           | Inr pl \<Rightarrow> sc_BuildFromPods L pl s))"

section \<open>The second copy: the list is passed\<close>

type_synonym c2_state = "int \<times> condition list"

fun c2_Build :: "cond_lib \<Rightarrow> string \<Rightarrow> condition list \<Rightarrow> c2_state \<Rightarrow> c2_state" where
  "c2_Build L grp [] s = s"
| "c2_Build L grp (cond # conditions) (lt, cl) =
     (let cond = (if cReason cond = '''' then cond\<lparr>cReason := ''NotSpecified''\<rparr> else cond);
          lt = (if cLastTransitionTime cond \<noteq> 0 \<and> cLastTransitionTime cond - lt > 0 then cLastTransitionTime cond else lt);
          cond = (if cLastTransitionTime cond = 0 then cond\<lparr>cLastTransitionTime := lt\<rparr> else cond);
          cond = (if grp \<noteq> '''' then cond\<lparr>cReason := grp @ '':'' @ cReason cond, cType := grp @ cType cond\<rparr> else cond)
      in c2_Build L grp conditions (lt, cl_set L cl cond))"

definition c2_MarkReady :: "cond_lib \<Rightarrow> string \<Rightarrow> string list \<Rightarrow> c2_state \<Rightarrow> c2_state" where
  "c2_MarkReady L reason msg = c2_Build L '''' [ready_cond ConditionTrue reason (case msg of [] \<Rightarrow> '''' | m # _ \<Rightarrow> m)]"

definition c2_MarkNotReady :: "cond_lib \<Rightarrow> error \<Rightarrow> string list \<Rightarrow> c2_state \<Rightarrow> c2_state" where
  "c2_MarkNotReady L err reason =
     c2_Build L '''' [ready_cond ConditionFalse (case reason of [] \<Rightarrow> ReadyErrorReason | r # _ \<Rightarrow> r) (errmsg err)]"

definition c2_Equal :: "cond_lib \<Rightarrow> condition list \<Rightarrow> condition list \<Rightarrow> bool" where
  "c2_Equal L first second = (length first = length second \<and> list_all (\<lambda>c. case cl_find L second (cType c) of
     None \<Rightarrow> False
   | Some st \<Rightarrow> \<not> (cReason st \<noteq> cReason c \<or> cMessage st \<noteq> cMessage c \<or> cStatus st \<noteq> cStatus c)) first)"

definition c2_BuildFromHelmMsvc :: "cond_lib \<Rightarrow> helm_answer \<Rightarrow> c2_state \<Rightarrow> error option \<times> c2_state" where
  "c2_BuildFromHelmMsvc L hm s = (case hm of
     Inl e \<Rightarrow> (Some e, if IsNotFound e then c2_Build L ''Helm'' [not_created ''HelmResourceNotFound'' e] s else s)
   | Inr (Inl e) \<Rightarrow> (Some e, s)
   | Inr (Inr cs) \<Rightarrow> (if \<not> cl_true L cs ''Deployed'' then Some (Failure ''helm not yet deployed'') else None,
       c2_Build L ''Helm'' cs s))"

definition c2_BuildFromPods :: "cond_lib \<Rightarrow> pod_status list \<Rightarrow> c2_state \<Rightarrow> error option \<times> c2_state" where
  "c2_BuildFromPods L pl s = (case pl of
     [] \<Rightarrow> (None, s)
   | pod # _ \<Rightarrow> (None, c2_Build L ''Container'' (map container_condition (pd_Containers pod))
       (c2_Build L '''' (map (pod_condition 0) (pd_Conditions pod)) s)))"

definition c2_BuildFromStatefulset :: "cond_lib \<Rightarrow> error + stateful_set \<Rightarrow> error + pod_status list \<Rightarrow> c2_state
    \<Rightarrow> error option \<times> c2_state" where
  "c2_BuildFromStatefulset L sts pods s = (case sts of
     Inl e \<Rightarrow> (Some e, if IsNotFound e then c2_Build L ''StatefulSet'' [not_created ''StsResourceNotFound'' e] s else s)
   | Inr x \<Rightarrow>
       (let s = c2_Build L '''' [ready_cond (if ss_ReadyReplicas x = ss_Replicas x then ConditionTrue else ConditionFalse)
                  ''AllReplicasReady'' ''StatefulSet Ready''] s
        in case pods of Inl e \<Rightarrow> (Some e, s) | Inr pl \<Rightarrow> c2_BuildFromPods L pl s))"

definition c2_BuildFromDeployment :: "cond_lib \<Rightarrow> error + condition list \<Rightarrow> error + pod_status list \<Rightarrow> c2_state
    \<Rightarrow> error option \<times> c2_state" where
  "c2_BuildFromDeployment L depl pods s = (case depl of
     Inl e \<Rightarrow> (Some e, if IsNotFound e then c2_Build L ''Deployment'' [not_created ''DeploymentNotFound'' e] s else s)
   | Inr conds \<Rightarrow>
       (let deplConditions = map deploy_condition conds;
            s = c2_Build L ''Deployment'' deplConditions s;
            s = c2_Build L '''' [ready_cond (if cl_true L deplConditions ''Available'' then ConditionTrue else ConditionFalse)
                  ReadySuccessReason ''Deployment is Available''] s
        in case pods of
             Inl e \<Rightarrow> (Some (Failure (''could not list pods for deployment as '' @ errmsg e)), s)
           | Inr pl \<Rightarrow> c2_BuildFromPods L pl s))"

section \<open>The conditions of a pod\<close>

text \<open>
  \<open>FromPod\<close> of \<open>lib/conditions\<close>.  The object that is fetched into holds a Go struct as its status;
  after the fetch its status is whatever the client has put there, and it is used as that struct.
\<close>

datatype object_status = StatusStruct pod_status | OtherStatus

definition FromPod :: "string \<Rightarrow> error + object_status \<Rightarrow> (error + condition list) res" where
  "FromPod typePrefix got = (case got of
     Inl e \<Rightarrow> Ret (Inl e)
   | Inr OtherStatus \<Rightarrow> Panic ''interface conversion''
   | Inr (StatusStruct st) \<Rightarrow> Ret (Inr (
       map (\<lambda>c. c\<lparr>cType := typePrefix @ ''-'' @ cType c\<rparr>) (pd_Conditions st)
       @ map (\<lambda>cs. (container_condition cs)\<lparr>cType := typePrefix @ ''-container-'' @ ct_Name cs\<rparr>) (pd_Containers st))))"

section \<open>The copies compared\<close>


definition as_c2 :: "statusConditions \<Rightarrow> c2_state" where
  "as_c2 s = (sc_lt s, sc_conditions s)"

lemma Build_agree: "as_c2 (sc_Build L grp cs s) = c2_Build L grp cs (as_c2 s)"
  by (induction cs arbitrary: s) (simp_all add: as_c2_def Let_def)

lemma BuildFromPods_agree: "map_prod id as_c2 (sc_BuildFromPods L pl s) = c2_BuildFromPods L pl (as_c2 s)"
  by (cases pl) (simp_all add: sc_BuildFromPods_def c2_BuildFromPods_def Build_agree)


section \<open>What building does to a list\<close>

text \<open>The entry that a condition becomes.\<close>

definition entry :: "string \<Rightarrow> condition \<Rightarrow> string \<times> (cond_status \<times> string \<times> string)" where
  "entry grp c = (grp @ cType c, cStatus c,
     (if grp = '''' then '''' else grp @ '':'') @ (if cReason c = '''' then ''NotSpecified'' else cReason c), cMessage c)"

lemma lookup_set: "cond_lib_ok L \<Longrightarrow> lookup (cl_set L cs c) = (lookup cs)(cType c \<mapsto> view c)"
  by (simp add: cond_lib_ok_def)

lemma types_set: "cond_lib_ok L \<Longrightarrow> map cType (cl_set L cs c)
    = (if cType c \<in> cType ` set cs then map cType cs else map cType cs @ [cType c])"
  by (simp add: cond_lib_ok_def)

lemma c2_Build_Cons:
  "\<exists>lt' c'. c2_Build L grp (c # cs) (lt, cl) = c2_Build L grp cs (lt', cl_set L cl c') \<and> (cType c', view c') = entry grp c"
proof -
  define l where "l = (if cLastTransitionTime c \<noteq> 0 \<and> cLastTransitionTime c - lt > 0 then cLastTransitionTime c else lt)"
  define d where "d = \<lparr>cType = grp @ cType c, cStatus = cStatus c,
    cReason = (if grp = '''' then '''' else grp @ '':'') @ (if cReason c = '''' then ''NotSpecified'' else cReason c),
    cMessage = cMessage c, cLastTransitionTime = (if cLastTransitionTime c = 0 then l else cLastTransitionTime c)\<rparr>"
  have "c2_Build L grp (c # cs) (lt, cl) = c2_Build L grp cs (l, cl_set L cl d)"
    by (cases c) (simp add: Let_def l_def d_def)
  moreover have "(cType d, view d) = entry grp c" by (simp add: d_def entry_def view_def)
  ultimately show ?thesis by blast
qed

text \<open>Building is an update of the map from types to statuses, reasons and messages: each condition,
  in order, overwrites the entry of its type prefixed with the group, all other entries stay, and
  no type occurs twice if none did before.\<close>

theorem Build_updates_entries:
  assumes "cond_lib_ok L"
  shows "lookup (snd (c2_Build L grp cs (lt, cl))) = lookup cl ++ map_of (rev (map (entry grp) cs))
    \<and> (distinct (map cType cl) \<longrightarrow> distinct (map cType (snd (c2_Build L grp cs (lt, cl)))))"
proof (induction cs arbitrary: lt cl)
  case (Cons c cs)
  obtain lt' c' where c: "c2_Build L grp (c # cs) (lt, cl) = c2_Build L grp cs (lt', cl_set L cl c')"
    and e: "(cType c', view c') = entry grp c"
    using c2_Build_Cons by blast
  have "distinct (map cType cl) \<longrightarrow> distinct (map cType (cl_set L cl c'))"
    using types_set [OF assms, of cl c'] by auto
  moreover have "lookup (snd (c2_Build L grp cs (lt', cl_set L cl c')))
      = (lookup cl)(cType c' \<mapsto> view c') ++ map_of (rev (map (entry grp) cs))"
    using Cons unfolding lookup_set [OF assms, symmetric] by blast
  moreover have "(lookup cl)(cType c' \<mapsto> view c') ++ map_of (rev (map (entry grp) cs))
      = lookup cl ++ map_of (rev (map (entry grp) (c # cs)))"
    unfolding list.map rev.simps e [symmetric] by (simp add: map_add_def fun_eq_iff split: option.splits)
  ultimately show ?case using Cons unfolding c by metis
qed simp

section \<open>Equality and readiness\<close>

lemma lookup_Some:
  "cond_lib_ok L \<Longrightarrow> lookup cs t = map_option view (cl_find L cs t)"
  by (simp add: cond_lib_ok_def finds_first_def lookup_def)

lemma lookup_dom: "dom (lookup cs) = cType ` set cs"
proof -
  have "t \<in> dom (lookup cs) \<longleftrightarrow> t \<in> cType ` set cs" for t
    using find_type_None [of t cs] by (cases "List.find (\<lambda>c. cType c = t) cs") (auto simp: lookup_def)
  then show ?thesis by blast
qed

lemma lookup_mem: "distinct (map cType cs) \<Longrightarrow> c \<in> set cs \<Longrightarrow> lookup cs (cType c) = Some (view c)"
  by (simp add: lookup_def find_type_mem)

lemma c2_Equal_lookup:
  assumes "cond_lib_ok L"
  shows "c2_Equal L a b \<longleftrightarrow> length a = length b \<and> (\<forall>c \<in> set a. lookup b (cType c) = Some (view c))"
proof -
  have "(case cl_find L b (cType c) of None \<Rightarrow> False
      | Some st \<Rightarrow> \<not> (cReason st \<noteq> cReason c \<or> cMessage st \<noteq> cMessage c \<or> cStatus st \<noteq> cStatus c))
    \<longleftrightarrow> lookup b (cType c) = Some (view c)" for c
    by (cases "cl_find L b (cType c)") (auto simp: lookup_Some [OF assms] view_def)
  then show ?thesis by (simp add: c2_Equal_def list_all_iff)
qed

text \<open>\<open>Equal\<close> is equality up to order and transition times: on lists in which no type occurs twice
  it holds exactly if both map every type to the same status, reason and message.\<close>

theorem Equal_iff_same_entries:
  assumes "cond_lib_ok L" and "distinct (map cType a)" and "distinct (map cType b)"
  shows "c2_Equal L a b \<longleftrightarrow> lookup a = lookup b"
proof
  assume same: "lookup a = lookup b"
  then have "set (map cType a) = set (map cType b)" using lookup_dom by (metis set_map)
  then have "length a = length b" using assms(2,3) by (metis distinct_card length_map)
  with same show "c2_Equal L a b" using lookup_mem [OF assms(2)] by (simp add: c2_Equal_lookup [OF assms(1)])
next
  assume eq: "c2_Equal L a b"
  then have all: "\<forall>c \<in> set a. lookup b (cType c) = lookup a (cType c)" and len: "length a = length b"
    using lookup_mem [OF assms(2)] by (simp_all add: c2_Equal_lookup [OF assms(1)])
  from all have sub: "dom (lookup a) \<subseteq> dom (lookup b)" unfolding lookup_dom [of a] by (auto simp: lookup_mem [OF assms(2)])
  moreover have "card (cType ` set a) = card (cType ` set b)"
    using len assms(2,3) by (metis distinct_card length_map set_map)
  ultimately have "dom (lookup a) = dom (lookup b)" unfolding lookup_dom by (simp add: card_subset_eq)
  moreover have "lookup b t = lookup a t" if "t \<in> dom (lookup a)" for t using that all unfolding lookup_dom by blast
  ultimately show "lookup a = lookup b" by (metis domIff ext)
qed

text \<open>\<open>MarkReady\<close> of the first copy never makes an object ready: it leaves it not ready, whatever its
  state was, while the one of the second copy makes it ready.\<close>

theorem MarkReady_copies_differ:
  assumes "cond_lib_ok L"
  shows "\<not> sc_IsTrue L (sc_MarkReady L msg reason s) ReadyType \<and> sc_IsFalse L (sc_MarkReady L msg reason s) ReadyType
    \<and> cl_true L (snd (c2_MarkReady L r m c)) ReadyType"
proof -
  have ready: "lookup (snd (c2_Build L '''' [ready_cond st r m] c)) ReadyType
      = Some (st, if r = '''' then ''NotSpecified'' else r, m)" for st r m c
    using Build_updates_entries [OF assms, of "''''" "[ready_cond st r m]" "fst c" "snd c"]
    by (simp add: entry_def ready_cond_def)
  have "sc_conditions (sc_MarkReady L msg reason s)
      = snd (c2_Build L '''' [ready_cond ConditionFalse (case reason of [] \<Rightarrow> ReadySuccessReason | r # _ \<Rightarrow> r) msg] (as_c2 s))"
    by (simp add: sc_MarkReady_def sc_SetReady_def as_c2_def Let_def)
  then show ?thesis
    using assms ready by (simp add: sc_IsTrue_def sc_IsFalse_def c2_MarkReady_def cond_lib_ok_def)
qed

section \<open>Witnesses\<close>

fun set_cond :: "condition list \<Rightarrow> condition \<Rightarrow> condition list" where
  "set_cond [] c = [c]"
| "set_cond (d # ds) c = (if cType d = cType c
     then d\<lparr>cStatus := cStatus c, cReason := cReason c, cMessage := cMessage c\<rparr> # ds else d # set_cond ds c)"

definition has_status :: "cond_status \<Rightarrow> condition list \<Rightarrow> string \<Rightarrow> bool" where
  "has_status st cs t = (case List.find (\<lambda>c. cType c = t) cs of None \<Rightarrow> False | Some c \<Rightarrow> cStatus c = st)"

definition sample_cond_lib :: cond_lib where
  "sample_cond_lib = \<lparr>cl_find = (\<lambda>cs t. List.find (\<lambda>c. cType c = t) cs), cl_set = set_cond,
     cl_true = has_status ConditionTrue, cl_false = has_status ConditionFalse\<rparr>"

lemma set_cond_types:
  "map cType (set_cond cs c) = (if cType c \<in> cType ` set cs then map cType cs else map cType cs @ [cType c])"
  by (induction cs) auto

lemma set_cond_lookup: "lookup (set_cond cs c) = (lookup cs)(cType c \<mapsto> view c)"
  by (induction cs) (auto simp: lookup_def view_def fun_eq_iff)

lemma has_status_lookup: "has_status st cs t = (\<exists>r m. lookup cs t = Some (st, r, m))"
  by (auto simp: has_status_def lookup_def view_def split: option.split)

lemma sample_cond_lib_ok: "cond_lib_ok sample_cond_lib"
  by (simp add: cond_lib_ok_def sample_cond_lib_def finds_first_def set_cond_types set_cond_lookup has_status_lookup)

definition sample_cond :: "string \<Rightarrow> string \<Rightarrow> condition" where
  "sample_cond t m = \<lparr>cType = t, cStatus = ConditionTrue, cReason = '''', cMessage = m, cLastTransitionTime = 0\<rparr>"

lemma Build_updates_entries_witness:
  "lookup (snd (c2_Build sample_cond_lib ''Pod'' [sample_cond ''A'' ''x'', sample_cond ''B'' ''y''] (5, [sample_cond ''PodA'' ''old'']))) ''PodA''
    = Some (ConditionTrue, ''Pod:NotSpecified'', ''x'')"
  using Build_updates_entries [OF sample_cond_lib_ok, of "''Pod''" "[sample_cond ''A'' ''x'', sample_cond ''B'' ''y'']" 5 "[sample_cond ''PodA'' ''old'']"]
  by (simp add: entry_def sample_cond_def map_add_def del: c2_Build.simps)

lemma Equal_iff_same_entries_witness:
  "c2_Equal sample_cond_lib [sample_cond ''A'' ''x'', sample_cond ''B'' ''y''] [sample_cond ''B'' ''y'', sample_cond ''A'' ''x'']"
  using Equal_iff_same_entries [OF sample_cond_lib_ok, of "[sample_cond ''A'' ''x'', sample_cond ''B'' ''y'']" "[sample_cond ''B'' ''y'', sample_cond ''A'' ''x'']"]
  by (simp add: sample_cond_def lookup_def fun_eq_iff)

lemma MarkReady_copies_differ_witness:
  "\<not> sc_IsTrue sample_cond_lib (sc_MarkReady sample_cond_lib ''done'' [] \<lparr>sc_lt = 5, sc_conditions = []\<rparr>) ReadyType
    \<and> cl_true sample_cond_lib (snd (c2_MarkReady sample_cond_lib ''Done'' [] (5, []))) ReadyType"
  using MarkReady_copies_differ [OF sample_cond_lib_ok, of "''done''" "[]" "\<lparr>sc_lt = 5, sc_conditions = []\<rparr>" "''Done''" "[]" "(5, [])"] by simp

end
