(* ===== verification/OperatorV1.thy ===== *)
theory OperatorV1
  imports Request
begin

text \<open>
  The first request layer, \<open>lib/operator/main.go\<close>, which the controllers have left for
  \<open>lib/operator.v2\<close>: a step ends a pass by returning a result, its status has two lists of
  conditions for failures.  The API server and the Kubernetes helpers are parameters, as in
  \<open>Request\<close>; what follows the model shows what became of its operations.
\<close>

section \<open>Objects, calls and state\<close>

record v1_status =
  v1_IsReady :: bool
  v1_DisplayVars :: rawjson
  v1_GeneratedVars :: rawjson
  v1_Conditions :: "condition list"
  v1_StatusConditions :: "condition list"
  v1_OpsConditions :: "condition list"
  v1_Message :: string

record 'sp v1_object =
  v1_meta :: objmeta
  v1_spec :: 'sp
  v1_st :: v1_status

datatype 'sp v1_event =
    V1Get string string
  | V1Update "'sp v1_object"
  | V1StatusUpdate "'sp v1_object"

type_synonym 'sp v1_hist = "'sp v1_event list"

record 'sp v1_env =
  v1_now :: "'sp v1_hist \<Rightarrow> int"
  v1_get :: "'sp v1_hist \<Rightarrow> error + 'sp v1_object"
  v1_update :: "'sp v1_hist \<Rightarrow> error + 'sp v1_object"
  v1_status_update :: "'sp v1_hist \<Rightarrow> error + 'sp v1_object"
  v1_find :: "condition list \<Rightarrow> string \<Rightarrow> condition option"
  v1_add_finalizer :: "string list \<Rightarrow> string \<Rightarrow> string list"
  v1_remove_finalizer :: "string list \<Rightarrow> string \<Rightarrow> string list"

text \<open>The labels and annotations a kind of object asks for.\<close>

record 'sp v1_methods =
  v1_EnsuredLabels :: "'sp v1_object \<Rightarrow> string gomap"
  v1_EnsuredAnnotations :: "'sp v1_object \<Rightarrow> string gomap"

record ('sp, 'lv) v1_state =
  v1_obj :: "'sp v1_object"
  v1_hist :: "'sp v1_hist"
  v1_locals :: "(string \<times> 'lv) list"

type_synonym ('sp, 'lv, 'a) v1_act = "(('sp, 'lv) v1_state, 'a) act"

section \<open>Step results\<close>

record v1_step =
  v1_result :: "ctrl_result option"
  v1_err :: "error option"

definition V1NewStepResult :: "ctrl_result option \<Rightarrow> error option \<Rightarrow> v1_step" where
  "V1NewStepResult result err = \<lparr>v1_result = result, v1_err = err\<rparr>"

definition V1Result :: "v1_step \<Rightarrow> ctrl_result" where
  "V1Result s = (case v1_result s of None \<Rightarrow> ctrl_zero | Some r \<Rightarrow> r)"

definition V1ShouldProceed :: "v1_step \<Rightarrow> bool" where
  "V1ShouldProceed s \<longleftrightarrow> v1_result s = None \<and> v1_err s = None"

section \<open>The operations\<close>

definition V1GetLocal :: "('lv \<Rightarrow> 'a option) \<Rightarrow> string \<Rightarrow> ('sp, 'lv, 'a option) v1_act" where
  "V1GetLocal prj key = gets (\<lambda>s. case map_of (v1_locals s) key of None \<Rightarrow> None | Some x \<Rightarrow> prj x)"

definition V1HasLocal :: "string \<Rightarrow> ('sp, 'lv, bool) v1_act" where
  "V1HasLocal key = gets (\<lambda>s. map_of (v1_locals s) key \<noteq> None)"

definition V1SetLocal :: "string \<Rightarrow> 'lv \<Rightarrow> ('sp, 'lv, unit) v1_act" where
  "V1SetLocal key v = modify (\<lambda>s. s\<lparr>v1_locals := AList.update key v (v1_locals s)\<rparr>)"

text \<open>An object that cannot be fetched makes the request nil.\<close>

definition V1NewRequest :: "'sp v1_env \<Rightarrow> string \<Rightarrow> string \<Rightarrow> 'sp v1_hist \<Rightarrow> ('sp, 'lv) v1_state option" where
  "V1NewRequest E ns name h = (let h' = h @ [V1Get ns name] in case v1_get E h' of
     Inl e \<Rightarrow> None
   | Inr x \<Rightarrow> Some \<lparr>v1_obj = x, v1_hist = h', v1_locals = []\<rparr>)"

definition v1_Update :: "'sp v1_env \<Rightarrow> ('sp, 'lv, error option) v1_act" where
  "v1_Update E = (\<lambda>s. let h = v1_hist s @ [V1Update (v1_obj s)] in case v1_update E h of
     Inl e \<Rightarrow> (Ret (Some e), s\<lparr>v1_hist := h\<rparr>)
   | Inr x \<Rightarrow> (Ret None, s\<lparr>v1_hist := h, v1_obj := x\<rparr>))"

definition v1_StatusUpdate :: "'sp v1_env \<Rightarrow> ('sp, 'lv, error option) v1_act" where
  "v1_StatusUpdate E = (\<lambda>s. let h = v1_hist s @ [V1StatusUpdate (v1_obj s)] in case v1_status_update E h of
     Inl e \<Rightarrow> (Ret (Some e), s\<lparr>v1_hist := h\<rparr>)
   | Inr x \<Rightarrow> (Ret None, s\<lparr>v1_hist := h, v1_obj := x\<rparr>))"

definition v1_modMeta :: "(objmeta \<Rightarrow> objmeta) \<Rightarrow> ('sp, 'lv, unit) v1_act" where
  "v1_modMeta f = modify (\<lambda>s. s\<lparr>v1_obj := (v1_obj s)\<lparr>v1_meta := f (v1_meta (v1_obj s))\<rparr>\<rparr>)"

definition v1_modStatus :: "(v1_status \<Rightarrow> v1_status) \<Rightarrow> ('sp, 'lv, unit) v1_act" where
  "v1_modStatus f = modify (\<lambda>s. s\<lparr>v1_obj := (v1_obj s)\<lparr>v1_st := f (v1_st (v1_obj s))\<rparr>\<rparr>)"

definition V1EnsureFinilizer :: "'sp v1_env \<Rightarrow> string \<Rightarrow> ('sp, 'lv, v1_step) v1_act" where
  "V1EnsureFinilizer E finalizerName = andThen
     (v1_modMeta (\<lambda>m. m\<lparr>om_Finalizers := v1_add_finalizer E (om_Finalizers m) finalizerName\<rparr>)) (\<lambda>_.
     andThen (v1_Update E) (\<lambda>err. ret (V1NewStepResult None err)))"

text \<open>
  A map of the object is written in place; for a nil map the entries go into a fresh one,
  which the object never gets.
\<close>

definition v1_write_map :: "string gomap \<Rightarrow> string gomap \<Rightarrow> string gomap" where
  "v1_write_map el x = (case x of None \<Rightarrow> None | Some kvs \<Rightarrow> put_all (gm_entries el) (Some kvs))"

definition V1EnsureLabels :: "'sp v1_env \<Rightarrow> 'sp v1_methods \<Rightarrow> ('sp, 'lv, v1_step) v1_act" where
  "V1EnsureLabels E M = andThen (gets v1_obj) (\<lambda>obj. let el = v1_EnsuredLabels M obj in
     if \<not> MapContains (om_Labels (v1_meta obj)) el then
       andThen (v1_modMeta (\<lambda>m. m\<lparr>om_Labels := v1_write_map el (om_Labels m)\<rparr>)) (\<lambda>_.
       andThen (v1_Update E) (\<lambda>err. ret (V1NewStepResult (Some ctrl_zero) err)))
     else ret (V1NewStepResult None None))"

definition V1EnsureAnnotations :: "'sp v1_env \<Rightarrow> 'sp v1_methods \<Rightarrow> ('sp, 'lv, v1_step) v1_act" where
  "V1EnsureAnnotations E M = andThen (gets v1_obj) (\<lambda>obj. let el = v1_EnsuredAnnotations M obj in
     if \<not> MapContains (om_Annotations (v1_meta obj)) el then
       andThen (v1_modMeta (\<lambda>m. m\<lparr>om_Annotations := v1_write_map el (om_Annotations m)\<rparr>)) (\<lambda>_.
       andThen (v1_Update E) (\<lambda>err. ret (V1NewStepResult (Some ctrl_zero) err)))
     else ret (V1NewStepResult None None))"

definition v1_failed :: "string \<Rightarrow> string \<Rightarrow> condition" where
  "v1_failed reason msg = \<lparr>cType = ''FailedWithErr'', cStatus = ConditionFalse, cReason = reason,
     cMessage = msg, cLastTransitionTime = 0\<rparr>"

definition V1FailWithStatusError :: "'sp v1_env \<Rightarrow> error option \<Rightarrow> ('sp, 'lv, v1_step) v1_act" where
  "V1FailWithStatusError E err = andThen (gets (\<lambda>s. (v1_now E (v1_hist s), v1_StatusConditions (v1_st (v1_obj s))))) (\<lambda>(x, conds).
     case Patch (v1_find E) x conds [v1_failed ''StatusFailedWithErr'' (case err of None \<Rightarrow> '''' | Some e \<Rightarrow> errmsg e)] of
       (_, _, Some err2) \<Rightarrow> ret (V1NewStepResult None (Some err2))
     | (newConditions, _, None) \<Rightarrow>
         andThen (v1_modStatus (\<lambda>st. st\<lparr>v1_StatusConditions := newConditions, v1_IsReady := False\<rparr>)) (\<lambda>_.
         andThen (v1_StatusUpdate E) (\<lambda>err3. case err3 of
           Some e \<Rightarrow> ret (V1NewStepResult (Some ctrl_zero) (Some e))
         | None \<Rightarrow> ret (V1NewStepResult (Some ctrl_zero) err))))"

text \<open>
  The result of \<open>conditions.Patch\<close> is assigned to the parameter \<open>err\<close> itself, after its message
  was read, which panics for a nil error.
\<close>

definition V1FailWithOpError :: "'sp v1_env \<Rightarrow> error option \<Rightarrow> ('sp, 'lv, v1_step) v1_act" where
  "V1FailWithOpError E err = (case err of
     None \<Rightarrow> crash ''nil pointer dereference''
   | Some e0 \<Rightarrow> andThen (gets (\<lambda>s. (v1_now E (v1_hist s), v1_OpsConditions (v1_st (v1_obj s))))) (\<lambda>(x, conds).
     case Patch (v1_find E) x conds [v1_failed ''OpsFailedWithErr'' (errmsg e0)] of
       (newConditions, _, err) \<Rightarrow> (case err of
         Some e \<Rightarrow> ret (V1NewStepResult None (Some e))
       | None \<Rightarrow>
         andThen (v1_modStatus (\<lambda>st. st\<lparr>v1_OpsConditions := newConditions, v1_IsReady := False\<rparr>)) (\<lambda>_.
         andThen (v1_StatusUpdate E) (\<lambda>err2. case err2 of
           Some e \<Rightarrow> ret (V1NewStepResult (Some \<lparr>cr_Requeue = True, cr_RequeueAfter = 0\<rparr>) (Some e))
         | None \<Rightarrow> ret (V1NewStepResult (Some ctrl_zero) err))))))"

definition V1Done :: "'sp v1_env \<Rightarrow> ctrl_result option list \<Rightarrow> ('sp, 'lv, v1_step) v1_act" where
  "V1Done E result = andThen (v1_modStatus (\<lambda>st. st\<lparr>v1_OpsConditions := [], v1_StatusConditions := []\<rparr>)) (\<lambda>_.
     andThen (v1_StatusUpdate E) (\<lambda>err3. case err3 of
       Some e \<Rightarrow> ret (V1NewStepResult (Some ctrl_zero) (Some e))
     | None \<Rightarrow> (case result of
         r # _ \<Rightarrow> ret (V1NewStepResult r None)
       | [] \<Rightarrow> ret (V1NewStepResult (Some ctrl_zero) None))))"

definition V1Next :: "('sp, 'lv, v1_step) v1_act" where
  "V1Next = ret (V1NewStepResult None None)"

definition KlFinalizer :: string where "KlFinalizer = ''klouldite-finalizer''"

definition V1Finalize :: "'sp v1_env \<Rightarrow> ('sp, 'lv, v1_step) v1_act" where
  "V1Finalize E = andThen (v1_modMeta (\<lambda>m. m\<lparr>om_Finalizers := v1_remove_finalizer E (v1_remove_finalizer E
       (v1_remove_finalizer E (om_Finalizers m) KlFinalizer) CommonFinalizer) ForegroundFinalizer\<rparr>)) (\<lambda>_.
     andThen (v1_Update E) (\<lambda>err. ret (V1NewStepResult (Some ctrl_zero) err)))"

lemmas v1_defs = v1_modMeta_def v1_modStatus_def v1_Update_def v1_StatusUpdate_def

section \<open>What the operations do\<close>

text \<open>A server that stores what it is sent.\<close>

definition v1_echoes :: "'sp v1_env \<Rightarrow> bool" where
  "v1_echoes E \<longleftrightarrow> (\<forall>h x. v1_update E (h @ [V1Update x]) = Inr x) \<and> (\<forall>h x. v1_status_update E (h @ [V1StatusUpdate x]) = Inr x)"

text \<open>Labels asked of an object that has none are never stored: the step ends the pass, again in every pass.\<close>

lemma V1EnsureLabels_never_settles:
  assumes "v1_echoes E" and "om_Labels (v1_meta (v1_obj s)) = None"
    and "\<not> MapContains None (v1_EnsuredLabels M (v1_obj s))"
  shows "\<exists>r t. V1EnsureLabels E M s = (Ret r, t) \<and> \<not> V1ShouldProceed r \<and> v1_obj t = v1_obj s"
proof -
  have same: "v1_modMeta (\<lambda>m. m\<lparr>om_Labels := v1_write_map el (om_Labels m)\<rparr>) s = (Ret (), s)" for el
    using assms(2) by (cases "v1_obj s"; cases "v1_meta (v1_obj s)"; cases s) (simp add: v1_modMeta_def v1_write_map_def)
  show ?thesis
    using assms same by (auto simp: V1EnsureLabels_def Let_def andThen_apply v1_Update_def v1_echoes_def
        V1ShouldProceed_def V1NewStepResult_def)
qed

text \<open>Labels asked of an object that has a map of labels are stored, and the next pass goes on.\<close>

lemma V1EnsureLabels_settles:
  assumes "v1_echoes E" and "om_Labels (v1_meta (v1_obj s)) = Some kvs" and "distinct (map fst kvs)"
    and "\<And>x. v1_EnsuredLabels M x = Some el" and "distinct (map fst el)" and "V1EnsureLabels E M s = (Ret r, t)"
  shows "\<exists>u. V1EnsureLabels E M t = (Ret (V1NewStepResult None None), u) \<and> u = t"
proof (cases "MapContains (Some kvs) (Some el)")
  case True
  then show ?thesis using assms by (auto simp: V1EnsureLabels_def Let_def)
next
  case False
  have "gm_ok (Some kvs)" using assms(3) by (simp add: gm_ok_def)
  then have "MapContains (put_all el (Some kvs)) (Some el)" by (rule MapContains_put_all [OF assms(5)])
  moreover have "om_Labels (v1_meta (v1_obj t)) = put_all el (Some kvs)"
    using assms(1,2,4,6) False
    by (auto simp: V1EnsureLabels_def Let_def andThen_apply v1_defs v1_echoes_def v1_write_map_def)
  ultimately show ?thesis using assms(4) by (simp add: V1EnsureLabels_def Let_def)
qed

text \<open>
  The error of a failed operation is recorded in the status but not returned: when the status is
  written, the pass ends without an error and without a request to run again.
\<close>

lemma V1FailWithOpError_loses_error:
  assumes "v1_echoes E"
  shows "\<exists>t. V1FailWithOpError E (Some e) s = (Ret (V1NewStepResult (Some ctrl_zero) None), t)"
  using assms by (auto simp: V1FailWithOpError_def Patch_def Let_def andThen_apply v1_defs v1_echoes_def split: prod.split)

lemma V1FailWithStatusError_returns_error:
  assumes "v1_echoes E"
  shows "\<exists>t. V1FailWithStatusError E (Some e) s = (Ret (V1NewStepResult (Some ctrl_zero) (Some e)), t)"
  using assms by (auto simp: V1FailWithStatusError_def Patch_def Let_def andThen_apply v1_defs v1_echoes_def split: prod.split)

text \<open>Finalizing sends the object without the three finalizers.\<close>

lemma V1Finalize_releases:
  assumes "\<And>fs f. set (v1_remove_finalizer E fs f) = set fs - {f}"
  shows "\<exists>x. v1_hist (snd (V1Finalize E s)) = v1_hist s @ [V1Update x]
    \<and> set (om_Finalizers (v1_meta x)) = set (om_Finalizers (v1_meta (v1_obj s))) - {KlFinalizer, CommonFinalizer, ForegroundFinalizer}"
  using assms by (auto simp: V1Finalize_def andThen_apply v1_defs Let_def split: sum.split)

end
