(* ===== verification/Errors.thy ===== *)
theory Errors
  imports Prelude
begin

text \<open>
  The error constructors of \<open>lib/errors/types.go\<close> and the messages of \<open>lib/operator.v2/errors.go\<close>.
  An error is its message; what \<open>yerrors\<close> adds, the place where it was made, is left out.  A
  format with one verb is the text before the verb, the verb, and the text after it.
\<close>

text \<open>How a slice is printed.\<close>

fun spaced :: "string list \<Rightarrow> string" where
  "spaced [] = []"
| "spaced [x] = x"
| "spaced (x # xs) = x @ '' '' @ spaced xs"

definition go_slice :: "string list \<Rightarrow> string" where
  "go_slice xs = ''['' @ spaced xs @ '']''"

definition NewEf :: "error \<Rightarrow> string \<Rightarrow> error" where
  "NewEf err msg = Failure (msg @ '' as '' @ errmsg err)"

text \<open>The arguments are handed on as one argument, the slice of them.\<close>

definition Newf :: "string \<Rightarrow> string \<Rightarrow> string \<Rightarrow> string list \<Rightarrow> error" where
  "Newf before verb after a = Failure (if a \<noteq> [] then before @ go_slice a @ after else before @ verb @ after)"

definition NewE :: "error \<Rightarrow> error" where
  "NewE err = Failure (errmsg err)"

definition NewError :: "string \<Rightarrow> error" where
  "NewError msg = Failure msg"

definition StatusUpdate :: "error \<Rightarrow> error" where
  "StatusUpdate err = NewEf err ''resource status update failed''"

definition ConditionUpdate :: "error \<Rightarrow> error" where
  "ConditionUpdate err = Newf ''job condition update failed as '' ''%v'' '''' [errmsg err]"

text \<open>\<open>Format\<close> of the messages about missing keys, all of which have one verb.\<close>

datatype fstring = ErrNotInInputs | ErrNotInGeneratedVars | ErrNotInDisplayVars | ErrNotInReqLocals

fun fstring_tail :: "fstring \<Rightarrow> string" where
  "fstring_tail ErrNotInInputs = '' not found in .Spec.Inputs''"
| "fstring_tail ErrNotInGeneratedVars = '' not found in .Status.GeneratedVars''"
| "fstring_tail ErrNotInDisplayVars = '' not found in .Status.DisplayVars''"
| "fstring_tail ErrNotInReqLocals = '' not found in req.Locals''"

definition fstring_Format :: "fstring \<Rightarrow> string list \<Rightarrow> error" where
  "fstring_Format f args = Newf ''key='' ''%s'' (fstring_tail f) [go_slice args]"

text \<open>A wrapped error is never a \<open>NotFound\<close> any more, and keeps what it wraps at its end.\<close>

lemma wrapped_not_found [simp]: "\<not> IsNotFound (NewEf err msg)" "\<not> IsNotFound (NewE err)"
  by (simp_all add: NewEf_def NewE_def)

lemma NewEf_keeps: "suffix (errmsg err) (errmsg (NewEf err msg))"
  by (simp add: NewEf_def suffix_def)

text \<open>The key of a missing value is printed in two pairs of brackets.\<close>

lemma fstring_Format_brackets:
  "errmsg (fstring_Format f [key]) = ''key=[['' @ key @ '']]'' @ fstring_tail f"
  by (simp add: fstring_Format_def Newf_def go_slice_def)

end
