(* ===== verification/JobHelpers.thy ===== *)
theory JobHelpers
  imports Errors
begin

text \<open>
  The client for Kubernetes jobs of \<open>lib/job-helpers.go\<close>.  The template, the job API and its watch
  channel are parameters: the channel is represented by the events it delivers, a closed channel
  delivering events of no type and without an object.
\<close>

section \<open>Jobs and errors\<close>

record job_condition =
  jc_Type :: string
  jc_Status :: string

record kjob =
  jb_Name :: string
  jb_Namespace :: string
  jb_Succeeded :: int
  jb_Failed :: int
  jb_Conditions :: "job_condition list"

record job_vars =
  jv_Name :: string
  jv_Namespace :: string
  jv_ServiceAccount :: string
  jv_Image :: string
  jv_ImagePullPolicy :: string
  jv_Command :: "string list"
  jv_Args :: "string list"
  jv_Env :: "string gomap"

definition wrap_err :: "string \<Rightarrow> error + 'a \<Rightarrow> error + 'a" where
  "wrap_err msg r = (case r of Inl e \<Rightarrow> Inl (NewEf e msg) | Inr x \<Rightarrow> Inr x)"

section \<open>Calls\<close>

datatype job_call =
    JBCreate string kjob
  | JBDelete string string
  | JBGet string string

record job_env =
  jb_template :: "job_vars \<Rightarrow> error + kjob"
  jb_create :: "job_call list \<Rightarrow> error + kjob"
  jb_delete :: "job_call list \<Rightarrow> error option"
  jb_get :: "job_call list \<Rightarrow> error + kjob"

type_synonym 'a job_act = "(job_call list, 'a) act"

definition jb_do :: "job_call \<Rightarrow> (job_call list \<Rightarrow> 'a) \<Rightarrow> 'a job_act" where
  "jb_do c f = (\<lambda>h. (Ret (f (h @ [c])), h @ [c]))"

definition job_Create :: "job_env \<Rightarrow> string \<Rightarrow> job_vars \<Rightarrow> (error + kjob) job_act" where
  "job_Create E namespace jobVars = (case wrap_err ''could not *batchv1.Job from jobVars template'' (jb_template E jobVars) of
     Inl e \<Rightarrow> ret (Inl e)
   | Inr jobData \<Rightarrow> andThen (jb_do (JBCreate namespace jobData) (jb_create E)) (\<lambda>r. ret (wrap_err ''could not create job'' r)))"

definition job_Delete :: "job_env \<Rightarrow> string \<Rightarrow> string \<Rightarrow> error option job_act" where
  "job_Delete E namespace name = andThen (jb_do (JBDelete namespace name) (jb_delete E)) (\<lambda>err.
     ret (map_option (\<lambda>e. NewEf e ''could not delete job'') err))"

definition job_Get :: "job_env \<Rightarrow> string \<Rightarrow> string \<Rightarrow> (error + kjob) job_act" where
  "job_Get E namespace name = andThen (jb_do (JBGet namespace name) (jb_get E)) (\<lambda>r. ret (wrap_err ''could not get job'' r))"

section \<open>The state of a job\<close>

text \<open>A condition of the type \<open>Failed\<close>, whatever its status.\<close>

definition failed_condition :: "kjob \<Rightarrow> job_condition option" where
  "failed_condition j = List.find (\<lambda>c. jc_Type c = ''Failed'') (jb_Conditions j)"

definition succeeded :: "kjob \<Rightarrow> bool option" where
  "succeeded j = map_option (\<lambda>c. jc_Status c = ''True'') (List.find (\<lambda>c. jc_Type c = ''Complete'') (jb_Conditions j))"

fun completed :: "job_condition list \<Rightarrow> bool option" where
  "completed [] = None"
| "completed (c # cs) = (if jc_Type c = ''Complete'' then Some (jc_Status c = ''True'')
     else if jc_Type c = ''Failed'' then Some (\<not> jc_Status c = ''True'') else completed cs)"

definition on_job :: "(kjob \<Rightarrow> 'a) \<Rightarrow> (error + kjob) job_act \<Rightarrow> (error + 'a) job_act" where
  "on_job f m = andThen m (\<lambda>r. ret (case r of Inl e \<Rightarrow> Inl e | Inr j \<Rightarrow> Inr (f j)))"

definition HasFailed :: "job_env \<Rightarrow> string \<Rightarrow> string \<Rightarrow> (error + job_condition option) job_act" where
  "HasFailed E namespace name = on_job failed_condition (job_Get E namespace name)"

definition HasSucceeded :: "job_env \<Rightarrow> string \<Rightarrow> string \<Rightarrow> (error + bool option) job_act" where
  "HasSucceeded E namespace name = on_job succeeded (job_Get E namespace name)"

definition HasCompleted :: "job_env \<Rightarrow> string \<Rightarrow> string \<Rightarrow> (error + bool option) job_act" where
  "HasCompleted E namespace name = on_job (completed \<circ> jb_Conditions) (job_Get E namespace name)"

section \<open>Watching\<close>

datatype watch_type = WAdded | WDeleted | WModified | WOther string

text \<open>An event carries a job, or something else, for which the type assertion panics.\<close>

type_synonym watch_event = "watch_type \<times> kjob option"

text \<open>The loop over the events received so far; \<open>None\<close>: it waits for more.\<close>

fun Watch_loop :: "watch_event list \<Rightarrow> (bool \<times> error option) res option" where
  "Watch_loop [] = None"
| "Watch_loop ((t, None) # es) = Some (Panic ''interface conversion'')"
| "Watch_loop ((t, Some j) # es) = (case t of
     WAdded \<Rightarrow> Watch_loop es
   | WDeleted \<Rightarrow> Watch_loop es
   | WModified \<Rightarrow> (if jb_Succeeded j > 0 then Some (Ret (True, None))
       else if jb_Failed j > 0 then Some (Ret (False, None)) else Watch_loop es)
   | WOther ty \<Rightarrow> Some (Ret (False, Some (Newf ''Unknown event type: '' ''%v'' '''' [ty]))))"

definition job_Watch :: "error option \<Rightarrow> watch_event list \<Rightarrow> (bool \<times> error option) res option" where
  "job_Watch err es = (case err of
     Some e \<Rightarrow> Some (Ret (False, Some (NewEf e ''could not create job watcher'')))
   | None \<Rightarrow> Watch_loop es)"

section \<open>What a watch reports\<close>

definition decides :: "kjob \<Rightarrow> bool" where
  "decides j \<longleftrightarrow> jb_Succeeded j > 0 \<or> jb_Failed j > 0"

fun passed_over :: "watch_event \<Rightarrow> bool" where
  "passed_over (t, None) = False"
| "passed_over (t, Some j) = (t = WAdded \<or> t = WDeleted \<or> t = WModified \<and> \<not> decides j)"

lemma Watch_loop_passes: "list_all passed_over pre \<Longrightarrow> Watch_loop (pre @ es) = Watch_loop es"
proof (induction pre)
  case (Cons e pre)
  then show ?case by (cases e rule: passed_over.cases) (auto simp: decides_def split: watch_type.splits)
qed simp

text \<open>
  A watch ends with an answer exactly at the first modification that shows a pod that succeeded
  or failed, and success counts before failure.
\<close>

lemma Watch_answers_iff:
  "Watch_loop es = Some (Ret (b, None)) \<longleftrightarrow> (\<exists>pre j post. es = pre @ (WModified, Some j) # post
     \<and> list_all passed_over pre \<and> decides j \<and> b = (jb_Succeeded j > 0))"
proof
  show "Watch_loop es = Some (Ret (b, None)) \<Longrightarrow> \<exists>pre j post. es = pre @ (WModified, Some j) # post
     \<and> list_all passed_over pre \<and> decides j \<and> b = (jb_Succeeded j > 0)"
  proof (induction es)
    case (Cons e es)
    then obtain t j where e: "e = (t, Some j)" by (cases e rule: passed_over.cases) auto
    show ?case
    proof (cases "passed_over e")
      case True
      then have "Watch_loop es = Some (Ret (b, None))" using Cons.prems Watch_loop_passes [of "[e]" es] by simp
      from Cons.IH [OF this] obtain pre j post where "es = pre @ (WModified, Some j) # post"
        "list_all passed_over pre" "decides j" "b = (jb_Succeeded j > 0)" by blast
      then show ?thesis using True by (intro exI [of _ "e # pre"] exI [of _ j] exI [of _ post]) simp
    next
      case False
      then have "t = WModified" "decides j" "b = (jb_Succeeded j > 0)"
        using Cons.prems e by (auto simp: decides_def split: watch_type.splits if_splits)
      then show ?thesis using e by (intro exI [of _ "[]"] exI [of _ j] exI [of _ es]) simp
    qed
  qed simp
qed (auto simp: Watch_loop_passes decides_def)

text \<open>A job that is deleted while it runs is waited for as long as no other event comes.\<close>

lemma Watch_waits_for_deleted:
  assumes "list_all passed_over pre"
  shows "Watch_loop (pre @ [(WDeleted, Some j)]) = None"
  using Watch_loop_passes [OF assms] by simp

text \<open>An error event carries a status, not a job: the watch panics instead of reporting it.\<close>

lemma Watch_error_event_panics:
  assumes "list_all passed_over pre"
  shows "Watch_loop (pre @ (WOther ''ERROR'', None) # es) = Some (Panic ''interface conversion'')"
  using Watch_loop_passes [OF assms] by simp

text \<open>Completion is read off the first of the two kinds of conditions.\<close>

lemma completed_find:
  assumes "List.find (\<lambda>c. jc_Type c = ''Failed'') cs = None \<or> List.find (\<lambda>c. jc_Type c = ''Complete'') cs = None"
  shows "completed cs = (case List.find (\<lambda>c. jc_Type c = ''Complete'') cs of
     Some c \<Rightarrow> Some (jc_Status c = ''True'')
   | None \<Rightarrow> map_option (\<lambda>c. jc_Status c \<noteq> ''True'') (List.find (\<lambda>c. jc_Type c = ''Failed'') cs))"
  using assms by (induction cs) (auto split: option.splits if_splits)

lemma completed_eq:
  assumes "failed_condition j = None \<or> succeeded j = None"
  shows "completed (jb_Conditions j) = (case succeeded j of
     Some b \<Rightarrow> Some b | None \<Rightarrow> map_option (\<lambda>c. jc_Status c \<noteq> ''True'') (failed_condition j))"
  using completed_find [of "jb_Conditions j"] assms unfolding failed_condition_def succeeded_def
  by (auto split: option.splits)

end
