(* ===== verification/Helpers.thy ===== *)
theory Helpers
  imports Json Meta Errors
begin

text \<open>
  The generic helpers of \<open>lib/functions/main.go\<close> that the controllers do not all use: choices, maps of
  any values, base64 and hashed JSON, names made of random identifiers, and type metadata.  A
  value that is marshalled is represented by its JSON value; the hash function and the source
  of random identifiers are parameters.
\<close>

section \<open>Choices and maps\<close>

definition IfThenElse :: "bool \<Rightarrow> 'a \<Rightarrow> 'a \<Rightarrow> 'a" where
  "IfThenElse c v y = (if c then v else y)"

definition IfThenElseFn :: "bool \<Rightarrow> (unit \<Rightarrow> 'a) \<Rightarrow> (unit \<Rightarrow> 'a) \<Rightarrow> 'a" where
  "IfThenElseFn c v1 v2 = (if c then v1 () else v2 ())"

text \<open>A map of any values, a type being given by its projection; a missing value is the zero value.\<close>

definition MapGet :: "('v \<Rightarrow> 'a option) \<Rightarrow> 'a \<Rightarrow> 'v gomap \<Rightarrow> string \<Rightarrow> 'a \<times> bool" where
  "MapGet prj zero m key = (case gm_get m key of
     None \<Rightarrow> (zero, False)
   | Some v \<Rightarrow> (case prj v of None \<Rightarrow> (zero, False) | Some x \<Rightarrow> (x, True)))"

section \<open>Base64\<close>

definition b64_std :: string where
  "b64_std = ''ABCDEFGHIJKLMNOPQRSTUVWXYZabcdefghijklmnopqrstuvwxyz0123456789+/''"

definition b64_url :: string where
  "b64_url = ''ABCDEFGHIJKLMNOPQRSTUVWXYZabcdefghijklmnopqrstuvwxyz0123456789-_''"

text \<open>\<open>EncodeToString\<close> of an encoding with padding.\<close>

fun b64_encode :: "string \<Rightarrow> string \<Rightarrow> string" where
  "b64_encode al [] = []"
| "b64_encode al [x] = (let a = of_char x :: nat in
     [al ! (a div 4), al ! (a mod 4 * 16), CHR ''='', CHR ''=''])"
| "b64_encode al [x, y] = (let a = of_char x :: nat; b = of_char y in
     [al ! (a div 4), al ! (a mod 4 * 16 + b div 16), al ! (b mod 16 * 4), CHR ''=''])"
| "b64_encode al (x # y # z # rest) = (let a = of_char x :: nat; b = of_char y; c = of_char z in
     [al ! (a div 4), al ! (a mod 4 * 16 + b div 16), al ! (b mod 16 * 4 + c div 64), al ! (c mod 64)]
     @ b64_encode al rest)"

definition b64_val :: "string \<Rightarrow> char \<Rightarrow> nat option" where
  "b64_val al c = map_of (zip al [0..<64]) c"

text \<open>The groups of four characters; bits that do not fill a byte are ignored.\<close>

fun b64_groups :: "string \<Rightarrow> string \<Rightarrow> string option" where
  "b64_groups al [] = Some []"
| "b64_groups al (p # q # r # t # rest) = (case (b64_val al p, b64_val al q) of
     (Some a, Some b) \<Rightarrow>
       (if r = CHR ''='' then (if t = CHR ''='' \<and> rest = [] then Some [char_of (a * 4 + b div 16)] else None)
        else (case b64_val al r of
          None \<Rightarrow> None
        | Some c \<Rightarrow>
          (if t = CHR ''='' then
             (if rest = [] then Some [char_of (a * 4 + b div 16), char_of (b mod 16 * 16 + c div 4)] else None)
           else (case b64_val al t of
             None \<Rightarrow> None
           | Some d \<Rightarrow> map_option (\<lambda>bs. [char_of (a * 4 + b div 16), char_of (b mod 16 * 16 + c div 4),
               char_of (c mod 4 * 64 + d)] @ bs) (b64_groups al rest)))))
   | _ \<Rightarrow> None)"
| "b64_groups al _ = None"

text \<open>\<open>DecodeString\<close>: line ends are skipped wherever they stand.\<close>

definition b64_decode :: "string \<Rightarrow> string \<Rightarrow> string option" where
  "b64_decode al s = b64_groups al (filter (\<lambda>c. c \<noteq> CHR 0x0A \<and> c \<noteq> CHR 0x0D) s)"

section \<open>JSON features\<close>

definition ToB64Url :: "json \<Rightarrow> string" where
  "ToB64Url v = b64_encode b64_url (json_print v)"

definition ToB64String :: "json \<Rightarrow> string" where
  "ToB64String v = b64_encode b64_std (json_print v)"

definition ToBase64StringFromJson :: "json \<Rightarrow> string" where
  "ToBase64StringFromJson v = b64_encode b64_std (json_print v)"

datatype json_error = NotB64 | NotJson

definition FromB64Url :: "string \<Rightarrow> json_error + json" where
  "FromB64Url s = (case b64_decode b64_url s of
     None \<Rightarrow> Inl NotB64
   | Some b \<Rightarrow> (case json_parse b of None \<Rightarrow> Inl NotJson | Some v \<Rightarrow> Inr v))"

text \<open>A value read into another type by way of its JSON text: \<open>read\<close> is the decoder of that type.\<close>

definition FromTo :: "(string \<Rightarrow> error + 'b) \<Rightarrow> json \<Rightarrow> error + 'b" where
  "FromTo read v = read (json_print v)"

definition FromRawMessage :: "jtext \<Rightarrow> string + json gomap" where
  "FromRawMessage msg = unmarshal_map msg"

section \<open>Hashes\<close>

definition to_hex :: "string \<Rightarrow> string" where
  "to_hex bs = concat (map (\<lambda>c. [hex_digit (of_char c div 16), hex_digit (of_char c mod 16)]) bs)"

definition Hash :: "(string \<Rightarrow> string) \<Rightarrow> json \<Rightarrow> string" where
  "Hash md5 v = to_hex (md5 (json_print v))"

text \<open>\<open>Sum(b)\<close> appends the hash of what was written, here nothing, to \<open>b\<close>.\<close>

definition Md5 :: "(string \<Rightarrow> string) \<Rightarrow> string \<Rightarrow> string" where
  "Md5 md5 b = to_hex (b @ md5 [])"

section \<open>Names\<close>

definition alnum :: "char \<Rightarrow> bool" where
  "alnum c \<longleftrightarrow> (let n = of_char c :: nat in 48 \<le> n \<and> n \<le> 57 \<or> 65 \<le> n \<and> n \<le> 90 \<or> 97 \<le> n \<and> n \<le> 122)"

text \<open>Each run of characters matched by \<open>(\W|_)+\<close> becomes a dash.\<close>

function collapse :: "string \<Rightarrow> string" where
  "collapse [] = []"
| "collapse (c # cs) = (if alnum c then c # collapse cs else CHR ''-'' # collapse (dropWhile (\<lambda>c. \<not> alnum c) cs))"
  by pat_completeness auto

termination
  by (relation "measure length") (auto simp: length_dropWhile_le less_Suc_eq_le)

definition CleanerNanoid :: "string \<Rightarrow> string" where
  "CleanerNanoid i = (let res = collapse i; res = (if prefix ''-'' res then ''k'' @ res else res)
     in if suffix ''-'' res then res @ ''k'' else res)"

section \<open>Objects\<close>

datatype 'm any = AnyString string | AnyMeta 'm

definition NewUnstructured :: "string \<Rightarrow> string \<Rightarrow> 'm list \<Rightarrow> 'm any gomap" where
  "NewUnstructured apiVersion kind m = (let obj = Some [(''apiVersion'', AnyString apiVersion), (''kind'', AnyString kind)]
     in case m of [] \<Rightarrow> obj | x # _ \<Rightarrow> gm_put ''metadata'' (AnyMeta x) obj)"

text \<open>A secret or a config map whose type metadata the client has dropped.\<close>

definition ParseSecret :: "objmeta \<Rightarrow> objmeta" where
  "ParseSecret s = s\<lparr>om_Kind := ''Secret'', om_APIVersion := ''v1''\<rparr>"

definition ParseConfigMap :: "objmeta \<Rightarrow> objmeta" where
  "ParseConfigMap s = s\<lparr>om_Kind := ''ConfigMap'', om_APIVersion := ''v1''\<rparr>"

text \<open>
  What \<open>KubectlApply\<close> of \<open>lib/functions/kubectl.go\<close> writes, given what the cluster has under the name: the
  object itself when there is none, and otherwise the one there is, with three members replaced.
\<close>

datatype kubectl_write = KCreate "(string \<times> json) list" | KUpdate "(string \<times> json) list"

definition kubectl_write :: "error + (string \<times> json) list \<Rightarrow> (string \<times> json) list \<Rightarrow> error + kubectl_write" where
  "kubectl_write got j = (case got of
     Inl e \<Rightarrow> if \<not> IsNotFound e then Inl (NewEf e ''could not get k8s resource'') else Inr (KCreate j)
   | Inr t \<Rightarrow> Inr (KUpdate (fold (\<lambda>k t. case map_of j k of None \<Rightarrow> t | Some v \<Rightarrow> AList.update k v t)
       [''spec'', ''data'', ''stringData''] t)))"

lemma kubectl_write_keeps:
  assumes "kubectl_write (Inr t) j = Inr (KUpdate t')"
  shows "map_of t' k = (if k \<in> {''spec'', ''data'', ''stringData''} \<and> map_of j k \<noteq> None then map_of j k else map_of t k)"
  using assms by (auto simp: kubectl_write_def update_conv' split: option.splits)

text \<open>\<open>KubectlApplyExec\<close>: the documents, as one stream, are handed to kubectl.  The error stream of a failed
  command is used as a format, as the other wrappers use it.\<close>

definition KubectlApplyExec :: "(string list \<Rightarrow> string \<Rightarrow> string \<times> string \<times> error option) \<Rightarrow> string list \<Rightarrow> string \<times> error option" where
  "KubectlApplyExec run docs =
     (case run [''kubectl'', ''apply'', ''-f'', ''-''] (joined (CHR 0x0A # ''---'' @ [CHR 0x0A]) docs) of
        (out, errs, Some e) \<Rightarrow> (out, Some (NewEf e errs))
      | (out, errs, None) \<Rightarrow> (out, None))"

text \<open>An object written as JSON and decoded into a map, and one decoded into a type \<open>T\<close>.\<close>

definition toUnstructured :: "json \<Rightarrow> error + json gomap" where
  "toUnstructured obj = (case json_parse (json_print obj) of
     Some (JObj kvs) \<Rightarrow> Inr (Some (obj_map kvs))
   | Some JNull \<Rightarrow> Inr None
   | _ \<Rightarrow> Inl json_error)"

definition GetRaw :: "error + (string \<times> json) list \<Rightarrow> (string \<Rightarrow> error + 't) \<Rightarrow> error + 't" where
  "GetRaw got unmarshal = (case got of Inl e \<Rightarrow> Inl e | Inr obj \<Rightarrow> unmarshal (json_print (JObj obj)))"

lemma toUnstructured_whole: "whole (JObj kvs) \<Longrightarrow> toUnstructured (JObj kvs) = Inr (Some (obj_map kvs))"
  unfolding toUnstructured_def by (subst json_round_trip) simp_all

section \<open>Base64 is read back\<close>

text \<open>An alphabet of the encoding.\<close>

definition alphabet :: "string \<Rightarrow> bool" where
  "alphabet al \<longleftrightarrow> length al = 64 \<and> distinct al \<and> CHR ''='' \<notin> set al \<and> CHR 0x0A \<notin> set al \<and> CHR 0x0D \<notin> set al"

lemma alphabets: "alphabet b64_std" "alphabet b64_url"
  by (simp_all add: alphabet_def b64_std_def b64_url_def)

lemma b64_val_sym: "alphabet al \<Longrightarrow> n < 64 \<Longrightarrow> b64_val al (al ! n) = Some n"
  using map_of_zip_nth [of al "[0..<64]" n] by (simp add: b64_val_def alphabet_def)

lemma b64_sym: "alphabet al \<Longrightarrow> n < 64 \<Longrightarrow> al ! n \<in> set al"
  by (simp add: alphabet_def)

lemma b64_sym_pad: "alphabet al \<Longrightarrow> n < 64 \<Longrightarrow> al ! n \<noteq> CHR ''=''"
  using b64_sym [of al n] unfolding alphabet_def by metis

lemma radix: "(q :: nat) < n \<Longrightarrow> (k * n + q) div n = k" "(q :: nat) < n \<Longrightarrow> (k * n + q) mod n = q"
  by simp_all

lemma parts: "(of_char x :: nat) div 4 < 64" "(of_char x :: nat) div 16 < 16" "(of_char x :: nat) div 64 < 4"
  using of_char_less [of x] by (simp_all add: less_mult_imp_div_less)

lemma sextets:
  "(of_char x :: nat) div 4 < 64" "(of_char x :: nat) mod 4 * 16 + of_char y div 16 < 64" "(of_char x :: nat) mod 4 * 16 < 64"
  "(of_char x :: nat) mod 16 * 4 + of_char y div 64 < 64" "(of_char x :: nat) mod 16 * 4 < 64" "(of_char x :: nat) mod 64 < 64"
proof -
  have m: "(of_char x :: nat) mod 4 < 4" "(of_char x :: nat) mod 16 < 16" by simp_all
  show "(of_char x :: nat) div 4 < 64" "(of_char x :: nat) mod 64 < 64" by (simp_all add: parts)
  show "(of_char x :: nat) mod 4 * 16 + of_char y div 16 < 64" "(of_char x :: nat) mod 4 * 16 < 64"
    using m(1) parts(2) [of y] by linarith+
  show "(of_char x :: nat) mod 16 * 4 + of_char y div 64 < 64" "(of_char x :: nat) mod 16 * 4 < 64"
    using m(2) parts(3) [of y] by linarith+
qed

lemma bytes:
  "(of_char x :: nat) div 4 * 4 + of_char x mod 4 * 16 div 16 = of_char x"
  "(of_char x :: nat) div 4 * 4 + (of_char x mod 4 * 16 + of_char y div 16) div 16 = of_char x"
  "((of_char x :: nat) mod 4 * 16 + of_char y div 16) mod 16 * 16 + of_char y mod 16 = of_char y"
  "((of_char x :: nat) mod 4 * 16 + of_char y div 16) mod 16 * 16 + (of_char y mod 16 * 4 + of_char z div 64) div 4 = of_char y"
  "((of_char x :: nat) mod 16 * 4 + of_char y div 64) mod 4 * 64 + of_char y mod 64 = of_char y"
  by (simp_all only: radix parts) simp_all

lemma b64_encode_chars: "alphabet al \<Longrightarrow> set (b64_encode al s) \<subseteq> insert CHR ''='' (set al)"
  by (induction al s rule: b64_encode.induct) (simp_all add: Let_def b64_sym sextets)

lemma b64_groups_encode: "alphabet al \<Longrightarrow> b64_groups al (b64_encode al s) = Some s"
  by (induction al s rule: b64_encode.induct)
    (simp_all add: Let_def b64_val_sym b64_sym_pad sextets bytes del: mult_Suc_right mod_mult_self3 div_mult_self3)

lemma b64_decode_encode:
  assumes "alphabet al"
  shows "b64_decode al (b64_encode al s) = Some s"
proof -
  have "filter (\<lambda>c. c \<noteq> CHR 0x0A \<and> c \<noteq> CHR 0x0D) (b64_encode al s) = b64_encode al s"
    using b64_encode_chars [OF assms, of s] assms unfolding alphabet_def by (auto simp: filter_id_conv)
  then show ?thesis using b64_groups_encode [OF assms] by (simp add: b64_decode_def)
qed

section \<open>Hexadecimal texts\<close>

lemma hex_pair: "c = d" if "hex_digit (of_char c div 16) = hex_digit (of_char d div 16)"
  "hex_digit (of_char c mod 16) = hex_digit (of_char d mod 16)" for c d :: char
proof -
  have v: "hex_val (hex_digit (of_char e div 16)) = Some (of_char e div 16)"
    "hex_val (hex_digit (of_char e mod 16)) = Some (of_char e mod 16)" for e
    using parts(2) [of e] by (simp_all add: hex_val_digit)
  have "(of_char c :: nat) div 16 = of_char d div 16" "(of_char c :: nat) mod 16 = of_char d mod 16"
    using that v by (metis option.inject)+
  then have "(of_char c :: nat) = of_char d" by (metis div_mult_mod_eq)
  then show ?thesis by simp
qed

lemma to_hex_inject: "to_hex a = to_hex b \<longleftrightarrow> a = b"
proof
  show "to_hex a = to_hex b \<Longrightarrow> a = b"
  proof (induction a arbitrary: b)
    case Nil
    then show ?case by (cases b) (simp_all add: to_hex_def)
  next
    case (Cons c a)
    then obtain d b' where "b = d # b'" by (cases b) (auto simp: to_hex_def)
    with Cons show ?case by (auto simp: to_hex_def intro: hex_pair)
  qed
qed simp

lemma to_hex_length: "length (to_hex a) = 2 * length a"
  by (induction a) (simp_all add: to_hex_def)

section \<open>Names are labels\<close>

lemma collapse_chars: "set (collapse s) \<subseteq> insert CHR ''-'' {c. alnum c}"
  by (induction s rule: collapse.induct) auto

lemma alnum_dash: "\<not> alnum CHR ''-''" "alnum CHR ''k''"
  by (simp_all add: alnum_def)

lemma collapse_hd: "s \<noteq> [] \<Longrightarrow> \<exists>c cs. collapse s = c # cs \<and> (hd s = c \<and> alnum c \<or> c = CHR ''-'' \<and> \<not> alnum (hd s))"
  by (cases s) auto

fun double_dash :: "string \<Rightarrow> bool" where
  "double_dash (a # b # cs) = (a = CHR ''-'' \<and> b = CHR ''-'' \<or> double_dash (b # cs))"
| "double_dash _ = False"

lemma double_dash_Cons: "double_dash (a # cs) \<longleftrightarrow> (a = CHR ''-'' \<and> cs \<noteq> [] \<and> hd cs = CHR ''-'') \<or> double_dash cs"
  by (cases cs) auto

lemma double_dash_snoc: "c \<noteq> CHR ''-'' \<Longrightarrow> double_dash (cs @ [c]) = double_dash cs"
  by (induction cs rule: double_dash.induct) auto

lemma collapse_no_double: "\<not> double_dash (collapse s)"
proof (induction s rule: collapse.induct)
  case (2 c cs)
  let ?r = "dropWhile (\<lambda>c. \<not> alnum c) cs"
  show ?case
  proof (cases "alnum c")
    case True
    then show ?thesis using 2 alnum_dash by (auto simp: double_dash_Cons)
  next
    case False
    have "collapse r = [] \<or> hd (collapse r) \<noteq> CHR ''-''" if "r = ?r" for r
    proof (cases r)
      case (Cons d ds)
      with that have "alnum d" by (metis (mono_tags, lifting) hd_dropWhile list.sel(1) list.simps(3))
      with Cons show ?thesis using alnum_dash by auto
    qed simp
    from this [OF refl]
    show ?thesis using 2 False by (auto simp: double_dash_Cons)
  qed
qed simp

lemma collapse_length: "length (collapse s) \<le> length s"
proof (induction s rule: collapse.induct)
  case (2 c cs)
  then show ?case using length_dropWhile_le [of "\<lambda>c. \<not> alnum c" cs] by auto
qed simp

section \<open>Properties\<close>

text \<open>What is written as URL-safe base64 of JSON is read back as it was, for every document without
  fractions and exponents; line ends that a transport adds do not matter.\<close>

theorem FromB64Url_ToB64Url:
  assumes "whole v" and "filter (\<lambda>c. c \<noteq> CHR 0x0A \<and> c \<noteq> CHR 0x0D) s = ToB64Url v"
  shows "FromB64Url s = Inr v"
proof -
  have "b64_decode b64_url s = b64_decode b64_url (ToB64Url v)"
    unfolding b64_decode_def assms(2) [symmetric] filter_filter by simp
  then show ?thesis
    using assms(1) by (simp add: FromB64Url_def ToB64Url_def b64_decode_encode alphabets json_round_trip)
qed

text \<open>A name made of a random identifier is a label: letters, digits and single dashes, beginning and
  ending with no dash, and at most two characters longer than the identifier.\<close>

theorem CleanerNanoid_is_label:
  "set (CleanerNanoid i) \<subseteq> insert CHR ''-'' {c. alnum c} \<and> \<not> prefix ''-'' (CleanerNanoid i)
   \<and> \<not> suffix ''-'' (CleanerNanoid i) \<and> \<not> double_dash (CleanerNanoid i) \<and> length (CleanerNanoid i) \<le> length i + 2"
proof -
  let ?res = "collapse i"
  let ?r2 = "if prefix ''-'' ?res then ''k'' @ ?res else ?res"
  have c: "CleanerNanoid i = (if suffix ''-'' ?r2 then ?r2 @ ''k'' else ?r2)" by (simp add: CleanerNanoid_def Let_def)
  have r2: "set ?r2 \<subseteq> insert CHR ''-'' {c. alnum c}" "\<not> prefix ''-'' ?r2" "\<not> double_dash ?r2" "length ?r2 \<le> length i + 1"
    using collapse_chars [of i] alnum_dash collapse_no_double [of i] collapse_length [of i]
    by (auto simp: double_dash_Cons)
  show ?thesis
  proof (cases "suffix ''-'' ?r2")
    case True
    then have "?r2 \<noteq> []" by auto
    then have "\<not> prefix ''-'' (?r2 @ ''k'')" using r2(2) by (cases ?r2) auto
    moreover have "\<not> double_dash (?r2 @ ''k'')" using r2(3) double_dash_snoc [of "CHR ''k''" ?r2] by simp
    ultimately show ?thesis using True r2 alnum_dash unfolding c by (auto simp: suffix_def)
  qed (use r2 c in auto)
qed

text \<open>\<open>Md5\<close> is no hash: its result is the whole input in hexadecimal followed by the hash of the empty
  text, so that it grows with the input and shows it.\<close>

theorem Md5_shows_input:
  "Md5 md5 b = to_hex b @ to_hex (md5 []) \<and> (Md5 md5 a = Md5 md5 b \<longleftrightarrow> a = b)
   \<and> length (Md5 md5 b) = 2 * (length b + length (md5 []))"
proof -
  have "to_hex (xs @ ys) = to_hex xs @ to_hex ys" for xs ys by (simp add: to_hex_def)
  moreover have "Md5 md5 a = Md5 md5 b \<longleftrightarrow> a = b" by (simp add: Md5_def to_hex_inject)
  ultimately show ?thesis by (simp add: Md5_def to_hex_length)
qed

lemma FromB64Url_ToB64Url_witness:
  "FromB64Url (ToB64Url (JObj [(''name'', JStr ''n''), (''port'', JInt 3001)]) @ [CHR 0x0A]) = Inr (JObj [(''name'', JStr ''n''), (''port'', JInt 3001)])"
proof -
  have "set (ToB64Url v) \<subseteq> insert CHR ''='' (set b64_url)" for v
    by (simp add: ToB64Url_def b64_encode_chars alphabets)
  then have "filter (\<lambda>c. c \<noteq> CHR 0x0A \<and> c \<noteq> CHR 0x0D) (ToB64Url v) = ToB64Url v" for v
    using alphabets(2) unfolding alphabet_def by (fastforce simp: filter_id_conv)
  then show ?thesis by (intro FromB64Url_ToB64Url) simp_all
qed

end
