(* ===== verification/Agent.thy ===== *)
theory Agent
  imports Std
begin

text \<open>
  The agent of \<open>agent/internal/app/main.go\<close>: it reads messages from Kafka, each an action and an
  object, and hands the object to \<open>kubectl\<close>.  The consumer is represented by the messages it
  returns (\<open>None\<close> when there is none), the conversion to YAML and \<open>kubectl\<close> are parameters.
\<close>

section \<open>Calls, environment and state\<close>

datatype ag_call =
    AGRead
  | AGKubectl "string list" string
  | AGCommit string

record ag_env =
  ag_yaml :: "json gomap \<Rightarrow> error + string"
  ag_kubectl :: "ag_call list \<Rightarrow> error option"

type_synonym 'a ag_act = "(ag_call list, 'a) act"

definition ag_do :: "ag_call \<Rightarrow> (ag_call list \<Rightarrow> 'a) \<Rightarrow> 'a ag_act" where
  "ag_do c f = (\<lambda>h. (Ret (f (h @ [c])), h @ [c]))"

definition MaxRetries :: nat where "MaxRetries = 2"

section \<open>Messages\<close>

record message =
  ms_Action :: string
  ms_Payload :: "json gomap"

text \<open>
  The field \<open>payload\<close>: an object adds its members to the map, null makes the map nil, anything
  else is a type error that leaves the map.
\<close>

fun dec_payload :: "(string \<times> json) list \<Rightarrow> json gomap \<Rightarrow> json gomap \<times> bool" where
  "dec_payload [] acc = (acc, False)"
| "dec_payload ((k, v) # kvs) acc =
     (if lower k = ''payload'' then (case v of
          JObj ms \<Rightarrow> dec_payload kvs (Some (fold (\<lambda>(k, v). AList.update k v) ms (gm_entries acc)))
        | JNull \<Rightarrow> dec_payload kvs None
        | _ \<Rightarrow> (fst (dec_payload kvs acc), True))
      else dec_payload kvs acc)"

text \<open>\<open>json.Unmarshal\<close> into the struct, as far as its error is nil; null leaves the zero body.\<close>

definition dec_message :: "string \<Rightarrow> message option" where
  "dec_message body = (case json_parse body of
     Some (JObj kvs) \<Rightarrow> (case (dec_string ''action'' kvs '''', dec_payload kvs None) of
         ((action, False), (payload, False)) \<Rightarrow> Some \<lparr>ms_Action = action, ms_Payload = payload\<rparr>
       | _ \<Rightarrow> None)
   | Some JNull \<Rightarrow> Some \<lparr>ms_Action = '''', ms_Payload = None\<rparr>
   | _ \<Rightarrow> None)"

section \<open>The loop\<close>

text \<open>What was decoded from JSON can be marshalled again.\<close>

definition processMessage :: "ag_env \<Rightarrow> string \<Rightarrow> json gomap \<Rightarrow> error option ag_act" where
  "processMessage E action payload = (case ag_yaml E payload of
     Inl e \<Rightarrow> ret (Some e)
   | Inr yb \<Rightarrow> ag_do (AGKubectl [action, ''-f'', ''-''] yb) (ag_kubectl E))"

text \<open>The retries that are left; a message that cannot be decoded ends them.\<close>

fun retries :: "ag_env \<Rightarrow> string \<Rightarrow> nat \<Rightarrow> bool \<Rightarrow> bool ag_act" where
  "retries E body 0 hasProcessed = ret hasProcessed"
| "retries E body (Suc n) hasProcessed = (case dec_message body of
     None \<Rightarrow> ret hasProcessed
   | Some j \<Rightarrow> andThen (processMessage E (ms_Action j) (ms_Payload j)) (\<lambda>err. case err of
       Some e \<Rightarrow> retries E body n hasProcessed
     | None \<Rightarrow> retries E body n True))"

text \<open>A round of the loop, for what the consumer returned; whether it was processed is only printed.\<close>

definition agent_round :: "ag_env \<Rightarrow> string option \<Rightarrow> unit ag_act" where
  "agent_round E msg = andThen (ag_do AGRead (\<lambda>_. msg)) (\<lambda>msg. case msg of
     None \<Rightarrow> ret ()
   | Some body \<Rightarrow> andThen (retries E body MaxRetries False) (\<lambda>_. ag_do (AGCommit body) (\<lambda>_. ())))"

definition readMessages :: "ag_env \<Rightarrow> string option list \<Rightarrow> unit ag_act" where
  "readMessages E msgs = forA msgs (agent_round E)"

section \<open>Runs\<close>

text \<open>The commands a message leads to.\<close>

definition message_runs :: "ag_env \<Rightarrow> string \<Rightarrow> ag_call list" where
  "message_runs E body = (case dec_message body of
     None \<Rightarrow> []
   | Some j \<Rightarrow> (case ag_yaml E (ms_Payload j) of
       Inl e \<Rightarrow> []
     | Inr yb \<Rightarrow> replicate MaxRetries (AGKubectl [ms_Action j, ''-f'', ''-''] yb)))"

lemma retries_run:
  "\<exists>b. retries E body n hasProcessed h = (Ret b, h @ (case dec_message body of
     None \<Rightarrow> []
   | Some j \<Rightarrow> (case ag_yaml E (ms_Payload j) of
       Inl e \<Rightarrow> []
     | Inr yb \<Rightarrow> replicate n (AGKubectl [ms_Action j, ''-f'', ''-''] yb))))"
proof (induction n arbitrary: hasProcessed h)
  case (Suc n)
  show ?case
  proof (cases "dec_message body")
    case (Some j)
    show ?thesis
    proof (cases "ag_yaml E (ms_Payload j)")
      case (Inl e)
      then show ?thesis using Suc [of hasProcessed h] Some by (simp add: processMessage_def)
    next
      case (Inr yb)
      let ?h = "h @ [AGKubectl [ms_Action j, ''-f'', ''-''] yb]"
      obtain b' where "retries E body (Suc n) hasProcessed h = retries E body n b' ?h"
        using Some Inr by (cases "ag_kubectl E ?h") (simp_all add: processMessage_def ag_do_def andThen_apply)
      then show ?thesis using Suc [of b' ?h] Some Inr by (auto simp: replicate_append_same)
    qed
  qed simp
qed (auto split: option.split sum.split)

lemma agent_round_run:
  "agent_round E msg h = (Ret (), h @ AGRead # (case msg of None \<Rightarrow> [] | Some body \<Rightarrow> message_runs E body @ [AGCommit body]))"
proof (cases msg)
  case (Some body)
  then show ?thesis using retries_run [of E body MaxRetries False "h @ [AGRead]"]
    by (auto simp: agent_round_def ag_do_def andThen_apply message_runs_def split: option.split sum.split)
qed (simp add: agent_round_def ag_do_def andThen_apply)

section \<open>Properties\<close>

text \<open>C40. Whatever \<open>kubectl\<close> answers, every message that can be decoded and written as YAML is handed to
  \<open>kubectl\<close> exactly twice, successful or not, in the order of the messages, and every message is
  committed afterwards, also one that could not be processed: a retry is not what a failure
  leads to, and a failure does not keep a message.\<close>

theorem Agent_runs_every_message_twice:
  "readMessages E msgs h = (Ret (), h @ concat (map (\<lambda>msg. case msg of
       None \<Rightarrow> [AGRead]
     | Some body \<Rightarrow> AGRead # (case dec_message body of
           None \<Rightarrow> []
         | Some j \<Rightarrow> (case ag_yaml E (ms_Payload j) of
             Inl e \<Rightarrow> []
           | Inr yb \<Rightarrow> [AGKubectl [ms_Action j, ''-f'', ''-''] yb, AGKubectl [ms_Action j, ''-f'', ''-''] yb]))
         @ [AGCommit body]) msgs))"
proof (induction msgs arbitrary: h)
  case (Cons msg msgs)
  have "readMessages E (msg # msgs) h = readMessages E msgs (snd (agent_round E msg h))"
    by (simp add: readMessages_def agent_round_run)
  also have "snd (agent_round E msg h) = h @ (case msg of
       None \<Rightarrow> [AGRead]
     | Some body \<Rightarrow> AGRead # (case dec_message body of
           None \<Rightarrow> []
         | Some j \<Rightarrow> (case ag_yaml E (ms_Payload j) of
             Inl e \<Rightarrow> []
           | Inr yb \<Rightarrow> [AGKubectl [ms_Action j, ''-f'', ''-''] yb, AGKubectl [ms_Action j, ''-f'', ''-''] yb]))
         @ [AGCommit body])"
    by (simp add: agent_round_run message_runs_def MaxRetries_def numeral_2_eq_2 split: option.split sum.split)
  finally show ?case using Cons.IH by simp
qed (simp add: readMessages_def)

text \<open>Members of repeated payloads accumulate, and an action that is no string ends the retries.\<close>

lemma dec_message_example:
  "dec_message ''{\"action\":\"apply\",\"payload\":{\"a\":\"b\"}}'' = Some \<lparr>ms_Action = ''apply'', ms_Payload = Some [(''a'', JStr ''b'')]\<rparr>"
  "dec_message ''{\"action\":{}}'' = None" "dec_message ''null'' = Some \<lparr>ms_Action = '''', ms_Payload = None\<rparr>"
  by code_simp+

end
