(* ===== verification/Linkerd.thy ===== *)
theory Linkerd
  imports Prelude
begin

text \<open>
  The command line clients of \<open>lib/cluster/main.go\<close> and \<open>lib/linkerd/main.go\<close>: \<open>kubectl\<close>,
  \<open>linkerd\<close> and \<open>step-cli\<close> run as processes, with certificates, keys and a kubeconfig handed over in
  temporary files.  The file system is part of the state; the processes, the random names and
  the failures of the file system are the environment's.
\<close>

section \<open>Calls, environment and state\<close>

type_synonym files = "string \<Rightarrow> string option"

text \<open>A process is recorded with its arguments, \<open>KUBECONFIG\<close>, its standard input and the files it finds.\<close>

datatype os_call =
    OSNanoid
  | OSRun "string list" "string option" "string option" files
  | OSWrite string string
  | OSRemove string
  | OSMkdir string
  | OSRemoveAll string
  | OSRead string

type_synonym os_hist = "os_call list"

record os_state =
  os_files :: files
  os_dirs :: "string list"
  os_hist :: os_hist

text \<open>
  A process answers with its output or an error, and with the files it leaves.  A write that
  fails leaves what the environment says at the path; a removal or a read may fail.
\<close>

record os_env =
  os_nanoid :: "os_hist \<Rightarrow> error + string"
  os_run :: "os_hist \<Rightarrow> (error + string) \<times> files"
  os_write :: "os_hist \<Rightarrow> (error \<times> string option) option"
  os_mkdir :: "os_hist \<Rightarrow> error option"
  os_remove :: "os_hist \<Rightarrow> error option"
  os_read :: "os_hist \<Rightarrow> error option"

type_synonym 'a os_act = "(os_state, 'a) act"

definition os_log :: "os_call \<Rightarrow> os_state \<Rightarrow> os_state" where
  "os_log e s = s\<lparr>os_hist := os_hist s @ [e]\<rparr>"

definition nanoid :: "os_env \<Rightarrow> (error + string) os_act" where
  "nanoid E = (\<lambda>s. let t = os_log OSNanoid s in (Ret (os_nanoid E (os_hist t)), t))"

definition run_cmd :: "os_env \<Rightarrow> string list \<Rightarrow> string option \<Rightarrow> string option \<Rightarrow> (error + string) os_act" where
  "run_cmd E argv kubeconfig stdin = (\<lambda>s. let t = os_log (OSRun argv kubeconfig stdin (os_files s)) s in
     case os_run E (os_hist t) of (r, fs) \<Rightarrow> (Ret r, t\<lparr>os_files := fs\<rparr>))"

definition write_file :: "os_env \<Rightarrow> string \<Rightarrow> string \<Rightarrow> error option os_act" where
  "write_file E p c = (\<lambda>s. let t = os_log (OSWrite p c) s in
     case os_write E (os_hist t) of
       None \<Rightarrow> (Ret None, t\<lparr>os_files := (os_files t)(p := Some c)\<rparr>)
     | Some (e, left) \<Rightarrow> (Ret (Some e), t\<lparr>os_files := (os_files t)(p := left)\<rparr>))"

definition remove_file :: "os_env \<Rightarrow> string \<Rightarrow> error option os_act" where
  "remove_file E p = (\<lambda>s. let t = os_log (OSRemove p) s in
     case os_remove E (os_hist t) of
       Some e \<Rightarrow> (Ret (Some e), t)
     | None \<Rightarrow> (if os_files s p = None then (Ret (Some (Failure (''remove '' @ p @ '': no such file or directory''))), t)
                else (Ret None, t\<lparr>os_files := (os_files t)(p := None)\<rparr>)))"

definition read_file :: "os_env \<Rightarrow> string \<Rightarrow> (error + string) os_act" where
  "read_file E p = (\<lambda>s. let t = os_log (OSRead p) s in
     (Ret (case os_read E (os_hist t) of Some e \<Rightarrow> Inl e
      | None \<Rightarrow> (case os_files t p of
           None \<Rightarrow> Inl (Failure (''open '' @ p @ '': no such file or directory'')) | Some c \<Rightarrow> Inr c)), t))"

definition below :: "string \<Rightarrow> string \<Rightarrow> bool" where
  "below d p \<longleftrightarrow> p = d \<or> prefix (d @ ''/'') p"

text \<open>A directory is made when nothing is at its path; that this failed is not looked at.\<close>

definition make_dir :: "os_env \<Rightarrow> string \<Rightarrow> unit os_act" where
  "make_dir E d = (\<lambda>s. if d \<in> set (os_dirs s) \<or> os_files s d \<noteq> None then (Ret (), s)
     else let t = os_log (OSMkdir d) s in
       (Ret (), if os_mkdir E (os_hist t) = None then t\<lparr>os_dirs := d # os_dirs t\<rparr> else t))"

definition remove_all :: "os_env \<Rightarrow> string \<Rightarrow> error option os_act" where
  "remove_all E d = (\<lambda>s. let t = os_log (OSRemoveAll d) s in
     case os_remove E (os_hist t) of
       Some e \<Rightarrow> (Ret (Some e), t)
     | None \<Rightarrow> (Ret None, t\<lparr>os_files := (\<lambda>p. if below d p then None else os_files t p),
                           os_dirs := filter (\<lambda>x. \<not> below d x) (os_dirs t)\<rparr>))"

lemmas os_defs = os_log_def nanoid_def run_cmd_def write_file_def remove_file_def read_file_def make_dir_def
  remove_all_def

section \<open>The cluster client\<close>

record cluster =
  cl_name :: string
  cl_kubeconfig :: string
  cl_tempFilePath :: string

definition NewCluster :: "string \<Rightarrow> string \<Rightarrow> cluster" where
  "NewCluster kubeconfig name = \<lparr>cl_name = name, cl_kubeconfig = kubeconfig, cl_tempFilePath = ''''\<rparr>"

definition GetName :: "cluster \<Rightarrow> string" where
  "GetName c = cl_name c"

text \<open>\<open>Init\<close> writes the kubeconfig; the client keeps the path even when that fails.\<close>

definition cluster_Init :: "os_env \<Rightarrow> cluster \<Rightarrow> (error option \<times> cluster) os_act" where
  "cluster_Init E c = andThen (nanoid E) (\<lambda>r. case r of
     Inl e \<Rightarrow> ret (Some e, c)
   | Inr name \<Rightarrow> let c' = c\<lparr>cl_tempFilePath := ''/tmp/clus_'' @ name\<rparr> in
       andThen (write_file E (cl_tempFilePath c') (cl_kubeconfig c')) (\<lambda>err. ret (err, c')))"

definition cluster_Destroy :: "os_env \<Rightarrow> cluster \<Rightarrow> error option os_act" where
  "cluster_Destroy E c = remove_file E (cl_tempFilePath c)"

definition drop_output :: "(error + 'a) os_act \<Rightarrow> error option os_act" where
  "drop_output m = andThen m (\<lambda>r. ret (case r of Inl e \<Rightarrow> Some e | Inr _ \<Rightarrow> None))"

definition cluster_KubectlApply :: "os_env \<Rightarrow> cluster \<Rightarrow> string \<Rightarrow> error option os_act" where
  "cluster_KubectlApply E c input = drop_output (run_cmd E
     [''kubectl'', ''--kubeconfig'', cl_tempFilePath c, ''apply'', ''-f'', ''-''] None (Some input))"

definition cluster_KubectlDelete :: "os_env \<Rightarrow> cluster \<Rightarrow> string \<Rightarrow> error option os_act" where
  "cluster_KubectlDelete E c input = drop_output (run_cmd E
     [''kubectl'', ''--kubeconfig'', cl_tempFilePath c, ''delete'', ''-f'', ''-''] None (Some input))"

definition cluster_Exec :: "os_env \<Rightarrow> cluster \<Rightarrow> string list \<Rightarrow> (error + string) os_act" where
  "cluster_Exec E c argv = run_cmd E argv (Some (cl_tempFilePath c)) None"

section \<open>The linkerd client\<close>

definition PreCheck :: "os_env \<Rightarrow> cluster \<Rightarrow> error option os_act" where
  "PreCheck E l = drop_output (cluster_Exec E l [''linkerd'', ''check'', ''--pre''])"

definition linkerd_Check :: "os_env \<Rightarrow> cluster \<Rightarrow> error option os_act" where
  "linkerd_Check E l = drop_output (cluster_Exec E l
     [''kubectl'', ''get'', ''cm/linkerd-config'', ''-n'', ''linkerd'', ''-o'', ''json''])"

definition CheckMC :: "os_env \<Rightarrow> cluster \<Rightarrow> error option os_act" where
  "CheckMC E l = drop_output (cluster_Exec E l
     [''kubectl'', ''get'', ''ns'', ''linkerd-multicluster'', ''-o'', ''json''])"

text \<open>The output of a command, applied to or deleted from a cluster.\<close>

definition pipe_to :: "(error + string) os_act \<Rightarrow> (string \<Rightarrow> error option os_act) \<Rightarrow> error option os_act" where
  "pipe_to m k = andThen m (\<lambda>r. case r of Inl e \<Rightarrow> ret (Some e) | Inr out \<Rightarrow> k out)"

definition tmp_path :: "string \<Rightarrow> string \<Rightarrow> string" where
  "tmp_path i ext = ''/tmp/'' @ i @ ext"

lemma tmp_path_eq: "length e = length f \<Longrightarrow> tmp_path i e = tmp_path j f \<longleftrightarrow> i = j \<and> e = f"
  by (auto simp: tmp_path_def)

text \<open>An optional credential goes into a temporary file, which is removed at the end of the function.\<close>

definition with_temp :: "os_env \<Rightarrow> string option \<Rightarrow> string \<Rightarrow> string \<Rightarrow> string list
    \<Rightarrow> (string list \<Rightarrow> error option os_act) \<Rightarrow> error option os_act" where
  "with_temp E content ext flag opts k = (case content of
     None \<Rightarrow> k opts
   | Some c \<Rightarrow> andThen (nanoid E) (\<lambda>r. case r of
       Inl e \<Rightarrow> ret (Some e)
     | Inr i \<Rightarrow> let p = tmp_path i ext in
         andThen (write_file E p c) (\<lambda>_. deferring (k (opts @ [flag @ p])) (remove_file E p))))"

definition apply_linkerd :: "os_env \<Rightarrow> cluster \<Rightarrow> string \<Rightarrow> string option \<Rightarrow> string option \<Rightarrow> string option
    \<Rightarrow> error option os_act" where
  "apply_linkerd E l verb trustCerts identityCert identityKey =
     with_temp E trustCerts ''.crt'' ''--identity-trust-anchors-file='' [verb] (\<lambda>opts.
     with_temp E identityCert ''.crt'' ''--identity-issuer-certificate-file='' opts (\<lambda>opts.
     with_temp E identityKey ''.key'' ''--identity-issuer-key-file='' opts (\<lambda>opts.
     pipe_to (cluster_Exec E l (''linkerd'' # opts)) (cluster_KubectlApply E l))))"

definition linkerd_Install :: "os_env \<Rightarrow> cluster \<Rightarrow> string option \<Rightarrow> string option \<Rightarrow> string option \<Rightarrow> error option os_act" where
  "linkerd_Install E l = apply_linkerd E l ''install''"

definition linkerd_Upgrade :: "os_env \<Rightarrow> cluster \<Rightarrow> string option \<Rightarrow> string option \<Rightarrow> string option \<Rightarrow> error option os_act" where
  "linkerd_Upgrade E l = apply_linkerd E l ''upgrade''"

definition InstallMC :: "os_env \<Rightarrow> cluster \<Rightarrow> error option os_act" where
  "InstallMC E l = pipe_to (cluster_Exec E l [''linkerd'', ''mc'', ''install'']) (cluster_KubectlApply E l)"

definition linkerd_Uninstall :: "os_env \<Rightarrow> cluster \<Rightarrow> error option os_act" where
  "linkerd_Uninstall E l = pipe_to (cluster_Exec E l [''linkerd'', ''uninstall'']) (cluster_KubectlDelete E l)"

definition UninstallMC :: "os_env \<Rightarrow> cluster \<Rightarrow> error option os_act" where
  "UninstallMC E l = pipe_to (cluster_Exec E l [''linkerd'', ''mc'', ''uninstall'']) (cluster_KubectlDelete E l)"

definition UnInject :: "os_env \<Rightarrow> cluster \<Rightarrow> error option os_act" where
  "UnInject E l = pipe_to (cluster_Exec E l [''kubectl'', ''get'', ''namespaces'', ''-o'', ''yaml'']) (\<lambda>resourceYml.
     pipe_to (run_cmd E [''linkerd'', ''uninject'', ''-''] None (Some resourceYml)) (cluster_KubectlApply E l))"

definition Inject :: "os_env \<Rightarrow> cluster \<Rightarrow> string \<Rightarrow> error option os_act" where
  "Inject E l namespace = pipe_to (cluster_Exec E l [''kubectl'', ''get'', ''ns'', namespace, ''-o'', ''yaml'']) (\<lambda>resourceYml.
     pipe_to (run_cmd E [''linkerd'', ''uninject'', ''-''] None (Some resourceYml)) (cluster_KubectlApply E l))"

definition CheckIsLinked :: "os_env \<Rightarrow> cluster \<Rightarrow> string \<Rightarrow> bool os_act" where
  "CheckIsLinked E l clusterName = andThen (cluster_Exec E l
     [''kubectl'', ''get'', ''links.multicluster.linkerd.io/'' @ clusterName, ''-n'', ''linkerd-multicluster''])
     (\<lambda>r. ret (case r of Inl _ \<Rightarrow> False | Inr _ \<Rightarrow> True))"

definition Link :: "os_env \<Rightarrow> cluster \<Rightarrow> cluster \<Rightarrow> error option os_act" where
  "Link E l cluster = pipe_to (cluster_Exec E cluster [''linkerd'', ''multicluster'', ''link'', ''--cluster-name'', GetName cluster])
     (cluster_KubectlApply E l)"

section \<open>Certificates\<close>

text \<open>Two files, read one after the other.\<close>

definition read_pair :: "os_env \<Rightarrow> string \<Rightarrow> string \<Rightarrow> (error + string \<times> string) os_act" where
  "read_pair E p q = andThen (read_file E p) (\<lambda>r. case r of
     Inl e \<Rightarrow> ret (Inl e)
   | Inr cert \<Rightarrow> andThen (read_file E q) (\<lambda>r. ret (case r of Inl e \<Rightarrow> Inl e | Inr key \<Rightarrow> Inr (cert, key))))"

definition root_dir :: string where "root_dir = ''/tmp/root-cert''"

definition CreateRootCertificate :: "os_env \<Rightarrow> (error + string \<times> string) os_act" where
  "CreateRootCertificate E = andThen (make_dir E root_dir) (\<lambda>_. deferring
     (andThen (run_cmd E [''step-cli'', ''certificate'', ''create'', ''root.linkerd.cluster.local'',
          root_dir @ ''/root.crt'', root_dir @ ''/root.key'', ''--profile'', ''root-ca'', ''--no-password'', ''--insecure'']
          None None) (\<lambda>r. case r of
        Inl e \<Rightarrow> ret (Inl e)
      | Inr _ \<Rightarrow> read_pair E (root_dir @ ''/root.crt'') (root_dir @ ''/root.key'')))
     (remove_all E root_dir))"

definition issuer_argv :: "string \<Rightarrow> string list" where
  "issuer_argv i = [''step-cli'', ''certificate'', ''create'', ''identity.linkerd.cluster.local'',
     tmp_path i ''-issuer.crt'', tmp_path i ''-issuer.key'', ''--profile=intermediate-ca'', ''--not-after=8760h'',
     ''--no-password'', ''--insecure'', ''--ca='' @ tmp_path i ''-root.crt'', ''--ca-key='' @ tmp_path i ''-root.key'']"

definition GenerateIssuerCert :: "os_env \<Rightarrow> string \<Rightarrow> string \<Rightarrow> (error + string \<times> string) os_act" where
  "GenerateIssuerCert E rootCA rootKey = andThen (nanoid E) (\<lambda>r. case r of
     Inl e \<Rightarrow> ret (Inl e)
   | Inr i \<Rightarrow> let crt = tmp_path i ''-root.crt''; key = tmp_path i ''-root.key'' in
       andThen (write_file E crt rootCA) (\<lambda>err. case err of
         Some e \<Rightarrow> ret (Inl e)
       | None \<Rightarrow> deferring (andThen (write_file E key rootKey) (\<lambda>err. case err of
           Some e \<Rightarrow> ret (Inl e)
         | None \<Rightarrow> deferring (andThen (run_cmd E (issuer_argv i) None None) (\<lambda>r. case r of
               Inl e \<Rightarrow> ret (Inl e)
             | Inr _ \<Rightarrow> read_pair E crt key))
             (remove_file E key)))
           (remove_file E crt)))"

section \<open>Runs\<close>

definition os_emits :: "(os_call \<Rightarrow> bool) \<Rightarrow> os_state \<Rightarrow> os_state \<Rightarrow> bool" where
  "os_emits Q s t \<longleftrightarrow> (\<exists>es. os_hist t = os_hist s @ es \<and> (\<forall>e \<in> set es. Q e))"

interpretation osf: frame "os_emits Q"
proof unfold_locales
  fix s t u
  show "os_emits Q s s" by (simp add: os_emits_def)
  assume "os_emits Q s t" and "os_emits Q t u"
  then show "os_emits Q s u" unfolding os_emits_def by (metis Un_iff append.assoc set_append)
qed

fun is_run :: "os_call \<Rightarrow> bool" where
  "is_run (OSRun argv kube stdin fs) = True"
| "is_run _ = False"

lemma keeps_run_cmd: "keeps (os_emits is_run) (run_cmd E argv kube stdin)"
  by (auto simp: keeps_def os_emits_def os_defs Let_def split: prod.split)

lemma keeps_drop_output: "keeps (os_emits Q) m \<Longrightarrow> keeps (os_emits Q) (drop_output m)"
  unfolding drop_output_def by (rule osf.keeps_andThen) (auto intro: osf.keeps_ret osf.keeps_Pair)

lemma keeps_pipe_to:
  assumes "keeps (os_emits Q) m" and "\<And>x. keeps (os_emits Q) (k x)"
  shows "keeps (os_emits Q) (pipe_to m k)"
  unfolding pipe_to_def by (rule osf.keeps_andThen [OF assms(1)]) (auto split: sum.split intro: osf.keeps_ret osf.keeps_Pair assms(2))

lemma keeps_pipeline: "keeps (os_emits is_run) (pipe_to (cluster_Exec E l argv) (cluster_KubectlApply E l))"
  unfolding cluster_Exec_def cluster_KubectlApply_def by (intro keeps_pipe_to keeps_drop_output keeps_run_cmd)

text \<open>An action that removes every file it wrote.\<close>

definition clean :: "'a os_act \<Rightarrow> bool" where
  "clean m \<longleftrightarrow> (\<forall>s. \<exists>es. os_hist (snd (m s)) = os_hist s @ es
     \<and> (\<forall>p c. OSWrite p c \<in> set es \<longrightarrow> os_files (snd (m s)) p = None \<and> OSRemove p \<in> set es))"

lemma cleanI: "keeps (os_emits is_run) m \<Longrightarrow> clean m"
proof (unfold clean_def, rule allI)
  fix s
  assume "keeps (os_emits is_run) m"
  from keepsD [OF this] obtain es where es: "os_hist (snd (m s)) = os_hist s @ es" "\<forall>e \<in> set es. is_run e"
    by (auto simp: os_emits_def)
  then have "OSWrite p c \<notin> set es" for p c by (metis is_run.simps(3))
  with es(1) show "\<exists>es. os_hist (snd (m s)) = os_hist s @ es
      \<and> (\<forall>p c. OSWrite p c \<in> set es \<longrightarrow> os_files (snd (m s)) p = None \<and> OSRemove p \<in> set es)" by blast
qed

lemma clean_with_temp:
  assumes rm: "\<And>h. os_remove E h = None" and k: "\<And>opts. clean (k opts)"
  shows "clean (with_temp E content ext flag opts k)"
proof (cases content)
  case None
  then show ?thesis using k by (simp add: with_temp_def)
next
  case (Some c)
  show ?thesis
  proof (unfold clean_def, rule allI)
    fix s
    let ?t = "os_log OSNanoid s"
    show "\<exists>es. os_hist (snd (with_temp E content ext flag opts k s)) = os_hist s @ es
      \<and> (\<forall>p c. OSWrite p c \<in> set es \<longrightarrow> os_files (snd (with_temp E content ext flag opts k s)) p = None \<and> OSRemove p \<in> set es)"
    proof (cases "os_nanoid E (os_hist ?t)")
      case (Inl e)
      then show ?thesis by (simp add: with_temp_def Some andThen_apply nanoid_def Let_def os_log_def)
    next
      case (Inr i)
      let ?p = "tmp_path i ext"
      obtain err u where w: "write_file E ?p c ?t = (Ret err, u)" and u: "os_hist u = os_hist s @ [OSNanoid, OSWrite ?p c]"
        by (cases "os_write E (os_hist ?t @ [OSWrite ?p c])")
          (auto simp: write_file_def os_log_def Let_def split: prod.split)
      let ?v = "snd (k (opts @ [flag @ ?p]) u)"
      from k obtain es where es: "os_hist ?v = os_hist u @ es"
        "\<And>p c. OSWrite p c \<in> set es \<Longrightarrow> os_files ?v p = None \<and> OSRemove p \<in> set es" unfolding clean_def by meson
      have step: "snd (with_temp E content ext flag opts k s) = snd (remove_file E ?p ?v)"
        using Inr w by (simp add: with_temp_def Some andThen_apply nanoid_def Let_def deferring_def split: prod.split)
      have removed: "os_hist (snd (remove_file E ?p ?v)) = os_hist s @ OSNanoid # OSWrite ?p c # es @ [OSRemove ?p]"
        "os_files (snd (remove_file E ?p ?v)) = (os_files ?v)(?p := None)"
        using rm es(1) u by (auto simp: remove_file_def os_log_def Let_def)
      have "OSWrite q d \<in> set es \<Longrightarrow> os_files ?v q = None \<and> OSRemove q \<in> set es" for q d by (rule es(2))
      then show ?thesis unfolding step removed
        by (intro exI [of _ "OSNanoid # OSWrite ?p c # es @ [OSRemove ?p]"]) auto
    qed
  qed
qed

lemma apply_linkerd_clean: "(\<And>h. os_remove E h = None) \<Longrightarrow> clean (apply_linkerd E l verb tc ic ik)"
  unfolding apply_linkerd_def by (intro clean_with_temp cleanI keeps_pipeline)

lemma hist_deferring: "os_hist (snd (deferring m (remove_file E p) s)) = os_hist (snd (m s)) @ [OSRemove p]"
  by (cases "m s") (auto simp: deferring_def remove_file_def os_log_def Let_def split: option.split)

lemma with_temp_run:
  assumes "\<And>h. os_write E h = None" and "os_nanoid E (os_hist s @ [OSNanoid]) = Inr i" and "tmp_path i ext = p"
  shows "os_hist (snd (with_temp E (Some c) ext flag opts k s)) = os_hist (snd (k (opts @ [flag @ p])
    \<lparr>os_files = (os_files s)(p := Some c), os_dirs = os_dirs s, os_hist = os_hist s @ [OSNanoid, OSWrite p c]\<rparr>)) @ [OSRemove p]"
proof -
  have "with_temp E (Some c) ext flag opts k s = deferring (k (opts @ [flag @ p])) (remove_file E p)
    \<lparr>os_files = (os_files s)(p := Some c), os_dirs = os_dirs s, os_hist = os_hist s @ [OSNanoid, OSWrite p c]\<rparr>"
    using assms(1,2) unfolding assms(3) [symmetric]
    by (cases s) (simp add: with_temp_def andThen_apply nanoid_def write_file_def os_log_def Let_def)
  then show ?thesis by (simp add: hist_deferring)
qed

section \<open>Properties\<close>

text \<open>C38. Installing or upgrading linkerd leaves none of the certificate and key files it writes behind,
  whatever the processes do and wherever the function returns, as long as files can be removed.\<close>

theorem linkerd_removes_credentials:
  assumes "\<And>h. os_remove E h = None" and "m \<in> {linkerd_Install E l tc ic ik, linkerd_Upgrade E l tc ic ik}"
    and "os_hist (snd (m s)) = os_hist s @ es" and "OSWrite p c \<in> set es"
  shows "os_files (snd (m s)) p = None \<and> OSRemove p \<in> set es"
proof -
  have "clean m" using assms(2) apply_linkerd_clean [OF assms(1)] by (auto simp: linkerd_Install_def linkerd_Upgrade_def)
  then show ?thesis using assms(3,4) unfolding clean_def by (metis append_same_eq same_append_eq)
qed

text \<open>The process that installs linkerd finds each credential in the file that its option names, as long as
  the files can be written and the two names drawn for certificates differ.\<close>

theorem linkerd_finds_credentials:
  fixes s :: os_state and tc ic ik :: string
  assumes "\<And>h. os_write E h = None" and "\<And>h. os_nanoid E h = Inr (name h)" 
  defines "h1 \<equiv> os_hist s @ [OSNanoid]"
  defines "p1 \<equiv> tmp_path (name h1) ''.crt''"
  defines "h2 \<equiv> h1 @ [OSWrite p1 tc, OSNanoid]"
  defines "p2 \<equiv> tmp_path (name h2) ''.crt''"
  defines "h3 \<equiv> h2 @ [OSWrite p2 ic, OSNanoid]"
  defines "p3 \<equiv> tmp_path (name h3) ''.key''"
  assumes "name h1 \<noteq> name h2"
  shows "\<exists>fs es. os_hist (snd (linkerd_Install E l (Some tc) (Some ic) (Some ik) s)) = h3 @ OSWrite p3 ik
      # OSRun [''linkerd'', ''install'', ''--identity-trust-anchors-file='' @ p1, ''--identity-issuer-certificate-file='' @ p2,
          ''--identity-issuer-key-file='' @ p3] (Some (cl_tempFilePath l)) None fs # es
    \<and> fs p1 = Some tc \<and> fs p2 = Some ic \<and> fs p3 = Some ik"
proof -
  have run: "\<exists>es. os_hist (snd (pipe_to (cluster_Exec E l argv) (cluster_KubectlApply E l) u))
      = os_hist u @ OSRun argv (Some (cl_tempFilePath l)) None (os_files u) # es" for argv u
  proof -
    let ?r = "run_cmd E argv (Some (cl_tempFilePath l)) None u"
    obtain x v where r: "?r = (Ret x, v)" "os_hist v = os_hist u @ [OSRun argv (Some (cl_tempFilePath l)) None (os_files u)]"
      by (cases "os_run E (os_hist u @ [OSRun argv (Some (cl_tempFilePath l)) None (os_files u)])")
        (auto simp: run_cmd_def os_log_def Let_def)
    have "keeps (os_emits is_run) (case x of Inl e \<Rightarrow> ret (Some e) | Inr out \<Rightarrow> cluster_KubectlApply E l out)"
      unfolding cluster_KubectlApply_def by (auto intro: osf.keeps_ret osf.keeps_Pair keeps_drop_output keeps_run_cmd split: sum.split)
    from keepsD [OF this, of v] show ?thesis using r by (auto simp: pipe_to_def cluster_Exec_def os_emits_def)
  qed
  have ext: "p1 \<noteq> p3" "p2 \<noteq> p3" "p1 \<noteq> p2" using assms(9) by (simp_all add: p1_def p2_def p3_def tmp_path_eq)
  let ?u = "\<lparr>os_files = (os_files s)(p1 := Some tc, p2 := Some ic, p3 := Some ik), os_dirs = os_dirs s,
    os_hist = h3 @ [OSWrite p3 ik]\<rparr>"
  let ?argv = "[''linkerd'', ''install'', ''--identity-trust-anchors-file='' @ p1,
    ''--identity-issuer-certificate-file='' @ p2, ''--identity-issuer-key-file='' @ p3]"
  have "os_hist (snd (linkerd_Install E l (Some tc) (Some ic) (Some ik) s))
      = os_hist (snd (pipe_to (cluster_Exec E l ?argv) (cluster_KubectlApply E l) ?u)) @ [OSRemove p3, OSRemove p2, OSRemove p1]"
    unfolding linkerd_Install_def apply_linkerd_def
    by (subst with_temp_run [OF assms(1) assms(2), of _ _ p1], simp add: p1_def h1_def,
        subst with_temp_run [OF assms(1) assms(2), of _ _ p2], simp add: p2_def h2_def h1_def,
        subst with_temp_run [OF assms(1) assms(2), of _ _ p3], simp add: p3_def h3_def h2_def h1_def)
      (simp add: h3_def h2_def h1_def)
  with run [of ?argv ?u] ext show ?thesis by auto
qed

text \<open>The certificate and key that \<open>GenerateIssuerCert\<close> returns are the root certificate and key it was
  given, whatever issuer \<open>step-cli\<close> made: the function reads back its own input files.  What
  \<open>step-cli\<close> wrote, the issuer's key included, is neither read nor removed.\<close>

theorem GenerateIssuerCert_returns_its_input:
  fixes s :: os_state and rootCA rootKey i :: string
  defines "crt \<equiv> tmp_path i ''-root.crt''" and "key \<equiv> tmp_path i ''-root.key''"
  assumes "os_nanoid E (os_hist s @ [OSNanoid]) = Inr i" and "\<And>h. os_write E h = None" and "\<And>h. os_read E h = None"
    and "os_run E (os_hist s @ [OSNanoid, OSWrite crt rootCA, OSWrite key rootKey,
           OSRun (issuer_argv i) None None ((os_files s)(crt := Some rootCA, key := Some rootKey))]) = (Inr out, fs)"
    and "fs crt = Some rootCA" and "fs key = Some rootKey"
  shows "fst (GenerateIssuerCert E rootCA rootKey s) = Ret (Inr (rootCA, rootKey))
    \<and> (\<forall>p. p \<notin> {crt, key} \<longrightarrow> os_files (snd (GenerateIssuerCert E rootCA rootKey s)) p = fs p)"
proof -
  have rm: "os_files (snd (remove_file E q u)) p = os_files u p" if "p \<noteq> q" for p q u
    using that by (auto simp: remove_file_def os_log_def Let_def split: option.split)
  let ?u = "\<lparr>os_files = fs, os_dirs = os_dirs s, os_hist = os_hist s @ [OSNanoid, OSWrite crt rootCA, OSWrite key rootKey,
     OSRun (issuer_argv i) None None ((os_files s)(crt := Some rootCA, key := Some rootKey)), OSRead crt, OSRead key]\<rparr>"
  have "GenerateIssuerCert E rootCA rootKey s = (Ret (Inr (rootCA, rootKey)), snd (remove_file E crt (snd (remove_file E key ?u))))"
    using assms(3-8) unfolding crt_def key_def
    by (cases s) (simp add: GenerateIssuerCert_def Let_def andThen_apply nanoid_def write_file_def run_cmd_def os_log_def
        deferring_def read_pair_def read_file_def tmp_path_eq)
  then show ?thesis by (simp add: rm)
qed

text \<open>A root certificate is what \<open>step-cli\<close> left in the directory, and nothing of the directory stays.\<close>

lemma read_pair_result:
  assumes "read_pair E p q u = (Ret (Inr (a, b)), t)"
  shows "os_files u p = Some a \<and> os_files u q = Some b"
  using assms by (auto simp: read_pair_def andThen_apply read_file_def os_log_def Let_def split: option.splits)

lemma make_dir_returns: "\<exists>u. make_dir E d s = (Ret (), u)"
  by (simp add: make_dir_def Let_def)

lemma CreateRootCertificate_returns:
  assumes "CreateRootCertificate E s = (Ret (Inr (cert, key)), t)"
  shows "\<exists>h out fs. os_run E h = (Inr out, fs) \<and> fs (root_dir @ ''/root.crt'') = Some cert
    \<and> fs (root_dir @ ''/root.key'') = Some key"
proof -
  let ?argv = "[''step-cli'', ''certificate'', ''create'', ''root.linkerd.cluster.local'',
    root_dir @ ''/root.crt'', root_dir @ ''/root.key'', ''--profile'', ''root-ca'', ''--no-password'', ''--insecure'']"
  let ?m = "andThen (run_cmd E ?argv None None) (\<lambda>r. case r of Inl e \<Rightarrow> ret (Inl e)
    | Inr _ \<Rightarrow> read_pair E (root_dir @ ''/root.crt'') (root_dir @ ''/root.key''))"
  obtain u where u: "make_dir E root_dir s = (Ret (), u)"
    using make_dir_returns by blast
  then have "\<exists>v. ?m u = (Ret (Inr (cert, key)), v)"
    using assms unfolding CreateRootCertificate_def by (auto simp: deferring_def split: prod.splits)
  moreover obtain r fs where "os_run E (os_hist u @ [OSRun ?argv None None (os_files u)]) = (r, fs)" by fastforce
  ultimately have "\<exists>out. r = Inr out" and "fs (root_dir @ ''/root.crt'') = Some cert \<and> fs (root_dir @ ''/root.key'') = Some key"
      and "os_run E (os_hist u @ [OSRun ?argv None None (os_files u)]) = (r, fs)"
    by (cases r; auto simp: andThen_apply run_cmd_def os_log_def Let_def dest!: read_pair_result)+
  then show ?thesis by blast
qed

lemma CreateRootCertificate_leaves_nothing:
  assumes "\<And>h. os_remove E h = None" and "below root_dir p"
  shows "os_files (snd (CreateRootCertificate E s)) p = None"
proof -
  have rm: "os_files (snd (deferring m (remove_all E root_dir) u)) p = None" for m :: "'a os_act" and u
    using assms by (auto simp: deferring_def remove_all_def os_log_def Let_def split: prod.split)
  obtain u where "make_dir E root_dir s = (Ret (), u)" using make_dir_returns by blast
  then show ?thesis unfolding CreateRootCertificate_def by (simp add: rm)
qed

text \<open>\<open>Inject\<close> pipes the namespace through \<open>linkerd uninject\<close>.\<close>

lemma Inject_uninjects:
  assumes "os_hist (snd (Inject E l ns s)) = os_hist s @ es" and "OSRun argv kube stdin fs \<in> set es"
  shows "argv \<in> {[''kubectl'', ''get'', ''ns'', ns, ''-o'', ''yaml''], [''linkerd'', ''uninject'', ''-''],
    [''kubectl'', ''--kubeconfig'', cl_tempFilePath l, ''apply'', ''-f'', ''-'']}"
proof -
  let ?Q = "\<lambda>e. \<forall>argv kube stdin fs. e = OSRun argv kube stdin fs \<longrightarrow> argv \<in> {[''kubectl'', ''get'', ''ns'', ns, ''-o'', ''yaml''],
      [''linkerd'', ''uninject'', ''-''], [''kubectl'', ''--kubeconfig'', cl_tempFilePath l, ''apply'', ''-f'', ''-'']}"
  have run: "keeps (os_emits ?Q) (run_cmd E argv kube stdin)" if "?Q (OSRun argv kube stdin fs)" for argv kube stdin fs
    using that by (auto simp: keeps_def os_emits_def os_defs Let_def split: prod.split)
  have "keeps (os_emits ?Q) (Inject E l ns)"
    unfolding Inject_def cluster_Exec_def cluster_KubectlApply_def
    by (intro keeps_pipe_to keeps_drop_output run) simp_all
  from keepsD [OF this, of s] show ?thesis using assms by (auto simp: os_emits_def)
qed

section \<open>Witnesses\<close>

text \<open>Processes that succeed and write one file.\<close>

definition sample_os :: "string \<Rightarrow> os_env" where
  "sample_os p = \<lparr>os_nanoid = (\<lambda>h. Inr (replicate (length h) CHR ''x'')),
     os_run = (\<lambda>h. (Inr ''out'', case last h of OSRun argv kube stdin fs \<Rightarrow> fs(p := Some ''made'') | _ \<Rightarrow> (\<lambda>_. None))),
     os_write = (\<lambda>_. None), os_mkdir = (\<lambda>_. None), os_remove = (\<lambda>_. None), os_read = (\<lambda>_. None)\<rparr>"

definition sample_os_state :: os_state where
  "sample_os_state = \<lparr>os_files = (\<lambda>_. None), os_dirs = [], os_hist = []\<rparr>"

lemma linkerd_removes_credentials_witness:
  "os_files (snd (linkerd_Install (sample_os ''/tmp/x'') (NewCluster ''k'' ''c'') None None (Some ''key'') sample_os_state)) ''/tmp/x.key''
     = None"
proof -
  let ?m = "linkerd_Install (sample_os ''/tmp/x'') (NewCluster ''k'' ''c'') None None (Some ''key'')"
  have w: "OSWrite ''/tmp/x.key'' ''key'' \<in> set (os_hist (snd (?m sample_os_state)))"
    by (simp add: linkerd_Install_def apply_linkerd_def with_temp_def sample_os_def sample_os_state_def andThen_apply
        nanoid_def write_file_def os_log_def Let_def deferring_def pipe_to_def cluster_Exec_def run_cmd_def
        cluster_KubectlApply_def drop_output_def remove_file_def tmp_path_def)
  have "os_remove (sample_os ''/tmp/x'') h = None" for h by (simp add: sample_os_def)
  moreover have "os_hist (snd (?m sample_os_state)) = os_hist sample_os_state @ os_hist (snd (?m sample_os_state))"
    by (simp add: sample_os_state_def)
  ultimately show ?thesis
    using linkerd_removes_credentials [of "sample_os ''/tmp/x''" ?m "NewCluster ''k'' ''c''" None None "Some ''key''"] w by blast
qed

lemma GenerateIssuerCert_returns_its_input_witness:
  "fst (GenerateIssuerCert (sample_os ''/tmp/x-issuer.key'') ''ca'' ''key'' sample_os_state) = Ret (Inr (''ca'', ''key''))
   \<and> os_files (snd (GenerateIssuerCert (sample_os ''/tmp/x-issuer.key'') ''ca'' ''key'' sample_os_state)) ''/tmp/x-issuer.key''
     = Some ''made''"
proof -
  let ?fs = "(\<lambda>_. None)(tmp_path ''x'' ''-root.crt'' := Some ''ca'', tmp_path ''x'' ''-root.key'' := Some ''key'',
    ''/tmp/x-issuer.key'' := Some ''made'')"
  have p: "tmp_path ''x'' ''-root.crt'' = ''/tmp/x-root.crt''" "tmp_path ''x'' ''-root.key'' = ''/tmp/x-root.key''"
    by (simp_all add: tmp_path_def)
  show ?thesis
    using GenerateIssuerCert_returns_its_input [of "sample_os ''/tmp/x-issuer.key''" sample_os_state "''x''" "''ca''" "''key''"
        "''out''" ?fs]
    unfolding p by (simp add: sample_os_def sample_os_state_def)
qed

end
