(* ===== verification/Datastores.thy ===== *)
theory Datastores
  imports Errors
begin

text \<open>
  The clients for users of a Redis and of a MongoDB service: \<open>lib/redis/main.go\<close> and
  \<open>lib/mongo/main.go\<close>.  The services are parameters: what they answer to a command is a function of
  the commands so far.
\<close>

section \<open>Redis\<close>

datatype rd_call = RDPing | RDDo "string list"

record rd_env =
  rd_ping :: "rd_call list \<Rightarrow> error option"
  rd_do :: "rd_call list \<Rightarrow> error option"

type_synonym 'a rd_act = "(rd_call list, 'a) act"

definition rd_ask :: "rd_call \<Rightarrow> (rd_call list \<Rightarrow> 'a) \<Rightarrow> 'a rd_act" where
  "rd_ask c f = (\<lambda>h. (Ret (f (h @ [c])), h @ [c]))"

definition redis_ping :: "rd_env \<Rightarrow> error option rd_act" where
  "redis_ping E = andThen (rd_ask RDPing (rd_ping E)) (\<lambda>err.
     ret (map_option (\<lambda>e. NewEf e ''could not ping to redis host'') err))"

definition redis_UpsertUser :: "rd_env \<Rightarrow> string \<Rightarrow> string \<Rightarrow> string \<Rightarrow> error option rd_act" where
  "redis_UpsertUser E pre username password = andThen (redis_ping E) (\<lambda>err. case err of
     Some e \<Rightarrow> ret (Some e)
   | None \<Rightarrow> rd_ask (RDDo [''ACL'', ''SETUSER'', username, ''on'', ''~'' @ pre @ '':*'', ''+@all'', ''-@dangerous'',
       ''+info'', ''resetpass'', ''>'' @ password]) (rd_do E))"

definition redis_UserExists :: "rd_env \<Rightarrow> string \<Rightarrow> (bool \<times> error option) rd_act" where
  "redis_UserExists E username = andThen (redis_ping E) (\<lambda>err. case err of
     Some e \<Rightarrow> ret (False, Some e)
   | None \<Rightarrow> andThen (rd_ask (RDDo [''ACL'', ''GETUSER'', username]) (rd_do E)) (\<lambda>err.
       ret (case err of Some e \<Rightarrow> (False, Some e) | None \<Rightarrow> (True, None))))"

text \<open>Every successful upsert sets the password it is given, also of a user that exists.\<close>

lemma redis_UpsertUser_sets:
  assumes "redis_UpsertUser E pre u p h = (Ret None, h')"
  shows "\<exists>cmd. h' = h @ [RDPing, RDDo cmd] \<and> ''>'' @ p \<in> set cmd \<and> ''resetpass'' \<in> set cmd"
  using assms by (auto simp: redis_UpsertUser_def redis_ping_def rd_ask_def andThen_apply split: option.splits)

section \<open>MongoDB\<close>

datatype mg_command = CreateUser string string "(string \<times> string) list" | UsersInfo string

datatype mg_call = MGPing | MGConnect | MGDisconnect | MGRun string mg_command

record mg_env =
  mg_ping :: "mg_call list \<Rightarrow> error option"
  mg_connect :: "mg_call list \<Rightarrow> error option"
  mg_create :: "mg_call list \<Rightarrow> error option"
  mg_users :: "mg_call list \<Rightarrow> error + nat"

type_synonym 'a mg_act = "(mg_call list, 'a) act"

definition mg_ask :: "mg_call \<Rightarrow> (mg_call list \<Rightarrow> 'a) \<Rightarrow> 'a mg_act" where
  "mg_ask c f = (\<lambda>h. (Ret (f (h @ [c])), h @ [c]))"

definition mongo_connect :: "mg_env \<Rightarrow> error option mg_act" where
  "mongo_connect E = andThen (mg_ask MGPing (mg_ping E)) (\<lambda>err.
     if err \<noteq> None then andThen (mg_ask MGConnect (mg_connect E)) (\<lambda>err.
       ret (map_option (\<lambda>e. NewEf e ''could not connect to specified mongodb service'') err))
     else ret None)"

text \<open>The user is looked for in the database of the user's name.\<close>

definition mongo_UserExists :: "mg_env \<Rightarrow> string \<Rightarrow> (bool \<times> error option) mg_act" where
  "mongo_UserExists E userName = andThen (mongo_connect E) (\<lambda>err. case err of
     Some e \<Rightarrow> ret (False, Some e)
   | None \<Rightarrow> andThen (mg_ask (MGRun userName (UsersInfo userName)) (mg_users E)) (\<lambda>r. ret (case r of
         Inl e \<Rightarrow> (False, Some (NewEf e ''could not decode usersInfo''))
       | Inr n \<Rightarrow> (n > 0, None))))"

definition mongo_UpsertUser :: "mg_env \<Rightarrow> string \<Rightarrow> string \<Rightarrow> string \<Rightarrow> error option mg_act" where
  "mongo_UpsertUser E dbName userName password = andThen (mongo_connect E) (\<lambda>err. case err of
     Some e \<Rightarrow> ret (Some e)
   | None \<Rightarrow> deferring (andThen (mongo_UserExists E userName) (\<lambda>(v, _).
       if v then ret None
       else andThen (mg_ask (MGRun dbName (CreateUser userName password [(''dbAdmin'', dbName), (''readWrite'', dbName)]))
           (mg_create E)) (\<lambda>err. ret (map_option (\<lambda>e. NewEf e ''could not create user'') err))))
       (mg_ask MGDisconnect (\<lambda>_. ())))"

text \<open>
  A server with the users \<open>U\<close>, each in a database: whether a user is created depends on the
  database of the user's name only, not on the database it is created in.  A user that was
  created under another name than its database's is created again, and one that exists in the
  database of its name is never created elsewhere.
\<close>

definition lists_users :: "mg_env \<Rightarrow> (string \<times> string) set \<Rightarrow> bool" where
  "lists_users E U \<longleftrightarrow> (\<forall>h db u. mg_users E (h @ [MGRun db (UsersInfo u)]) = Inr (if (db, u) \<in> U then 1 else 0))"

lemma mongo_connect_run: "mg_ping E (h @ [MGPing]) = None \<Longrightarrow> mongo_connect E h = (Ret None, h @ [MGPing])"
  by (simp add: mongo_connect_def mg_ask_def andThen_apply)

lemma mongo_creates_iff:
  assumes "lists_users E U" and "\<And>h. mg_ping E h = None"
  shows "snd (mongo_UpsertUser E db u p h) = h @ [MGPing, MGPing, MGRun u (UsersInfo u)]
    @ (if (u, u) \<in> U then [] else [MGRun db (CreateUser u p [(''dbAdmin'', db), (''readWrite'', db)])]) @ [MGDisconnect]"
proof -
  have "mg_users E (h @ [MGPing, MGPing, MGRun u (UsersInfo u)]) = Inr (if (u, u) \<in> U then 1 else 0)"
    using assms(1) unfolding lists_users_def
    by (metis append.assoc append_Cons append_Nil)
  then show ?thesis
    by (simp add: mongo_UpsertUser_def mongo_UserExists_def mongo_connect_run [OF assms(2)] andThen_apply deferring_def mg_ask_def)
qed

end
