(* ===== verification/Templates.thy ===== *)
theory Templates
  imports Paths Errors RawJson
begin

text \<open>
  The template renderer of \<open>lib/templates/main.go\<close>: where the files are, which files a template is made
  of and under which name it is executed.  Reading files, the template engine with the function
  library and the YAML decoder are parameters.
\<close>

section \<open>The files\<close>

datatype templateFile = ServerlessLambdaSvc | ProxyService | ProxyDevice | AccountTemplate | WireGuard | WireGuardConfig
  | WireGuardDeviceConfig | DNSConfig | CreateNode | NodePools | RegionTemplate | Coredns | WGDeploy | NodeJob

fun template_path :: "templateFile \<Rightarrow> string" where
  "template_path ServerlessLambdaSvc = ''./serverless/lambda-svc.yml.tpl''"
| "template_path ProxyService = ''./proxy-service.tmpl.yml''"
| "template_path ProxyDevice = ''./proxy-device.tmpl.yml''"
| "template_path AccountTemplate = ''./account.tmpl.yml''"
| "template_path WireGuard = ''./wireguard.tmpl.yml''"
| "template_path WireGuardConfig = ''./wireguardconf.tmpl.conf''"
| "template_path WireGuardDeviceConfig = ''./wireguard-device-conf.tmpl.conf''"
| "template_path DNSConfig = ''./dns-config.tmpl.yml''"
| "template_path CreateNode = ''./nodejob.tmpl.yaml''"
| "template_path NodePools = ''./node-pools.tmpl.yml''"
| "template_path RegionTemplate = ''./region.tmpl.yml''"
| "template_path Coredns = ''./coredns.tmpl.yml''"
| "template_path WGDeploy = ''./wg-deployment.tmpl.yml''"
| "template_path NodeJob = ''./nodejob.tmpl.yaml''"

text \<open>
  A set of templates under names, as its sources.  \<open>ParseFiles\<close> reads the files in order and puts each
  under its base name, in place of one that has it.  \<open>tp_parse\<close> is the error of the parser on a
  source, given the names of the functions; \<open>tp_execute\<close> renders the template of a name in a set.
\<close>

record 'v tp_env =
  tp_getenv :: "string \<Rightarrow> string option"
  tp_dir :: "string \<Rightarrow> error + (string \<times> bool) list"
  tp_read :: "string \<Rightarrow> error + string"
  tp_functions :: "string list"
  tp_parse :: "string list \<Rightarrow> string \<Rightarrow> error option"
  tp_execute :: "(string \<times> string) list \<Rightarrow> string \<Rightarrow> 'v \<Rightarrow> error + string"
  tp_yaml :: "string \<Rightarrow> error + json gomap"

text \<open>\<open>templateDir\<close>: a directory below the working directory, or the one named by the environment.\<close>

definition templateDir :: "('v, 'z) tp_env_scheme \<Rightarrow> string" where
  "templateDir T = (case tp_getenv T ''TEMPLATES_DIR'' of Some v \<Rightarrow> v
     | None \<Rightarrow> path_Join [case tp_getenv T ''PWD'' of Some v \<Rightarrow> v | None \<Rightarrow> '''', ''lib/templates''])"

text \<open>The initialisation of the package: the files of the directory of helpers, without directories.\<close>

definition helperFiles :: "('v, 'z) tp_env_scheme \<Rightarrow> string list res" where
  "helperFiles T = (let helpersDir = path_Join [templateDir T, ''_helpers''] in case tp_dir T helpersDir of
     Inl e \<Rightarrow> Panic (errmsg e)
   | Inr entries \<Rightarrow> Ret (map (\<lambda>(name, _). path_Join [helpersDir, name]) (filter (\<lambda>(_, isDir). \<not> isDir) entries)))"

definition tf_Path :: "('v, 'z) tp_env_scheme \<Rightarrow> templateFile \<Rightarrow> string" where
  "tf_Path T f = path_Join [templateDir T, template_path f]"

section \<open>Rendering\<close>

record kt =
  kt_Name :: string
  kt_Set :: "(string \<times> string) list"

fun ParseFiles :: "('v, 'z) tp_env_scheme \<Rightarrow> string list \<Rightarrow> string list \<Rightarrow> (string \<times> string) list \<Rightarrow> error + (string \<times> string) list" where
  "ParseFiles T funcs [] ts = Inr ts"
| "ParseFiles T funcs (p # ps) ts = (case tp_read T p of
     Inl e \<Rightarrow> Inl e
   | Inr source \<Rightarrow> (case tp_parse T funcs source of
       Some e \<Rightarrow> Inl e
     | None \<Rightarrow> ParseFiles T funcs ps (AList.update (path_Base p) source ts)))"

definition useTemplate :: "('v, 'z) tp_env_scheme \<Rightarrow> string list \<Rightarrow> templateFile \<Rightarrow> error + kt" where
  "useTemplate T helpers f = (let tFiles = tf_Path T f # helpers; funcMap = tp_functions T @ [''include''] in
     case ParseFiles T funcMap tFiles [] of
       Inl e \<Rightarrow> Inl e
     | Inr ts \<Rightarrow> Inr \<lparr>kt_Name = path_Base (tf_Path T f), kt_Set = ts\<rparr>)"

definition withValues :: "('v, 'z) tp_env_scheme \<Rightarrow> kt \<Rightarrow> 'v \<Rightarrow> error + string" where
  "withValues T k v = (case tp_execute T (kt_Set k) (kt_Name k) v of
     Inl e \<Rightarrow> Inl (NewEf e ''could not execute template'')
   | Inr out \<Rightarrow> Inr out)"

text \<open>The function \<open>include\<close>: another template of the set, on the data given.\<close>

definition include_template :: "('v, 'z) tp_env_scheme \<Rightarrow> kt \<Rightarrow> string \<Rightarrow> 'v \<Rightarrow> error + string" where
  "include_template T k name data = tp_execute T (kt_Set k) name data"

definition Parse :: "('v, 'z) tp_env_scheme \<Rightarrow> string list \<Rightarrow> templateFile \<Rightarrow> 'v \<Rightarrow> error + string" where
  "Parse T helpers f values = (case useTemplate T helpers f of Inl e \<Rightarrow> Inl e | Inr t \<Rightarrow> withValues T t values)"

definition ParseObject :: "('v, 'z) tp_env_scheme \<Rightarrow> string list \<Rightarrow> templateFile \<Rightarrow> 'v \<Rightarrow> error + json gomap" where
  "ParseObject T helpers f values = (case useTemplate T helpers f of
     Inl e \<Rightarrow> Inl e
   | Inr t \<Rightarrow> (case withValues T t values of Inl e \<Rightarrow> Inl e | Inr b \<Rightarrow> tp_yaml T b))"

section \<open>What is executed\<close>

lemma ParseFiles_lookup:
  assumes "ParseFiles T fs ps ts = Inr us"
  shows "map_of us n = (case List.find (\<lambda>p. path_Base p = n) (rev ps) of
     Some p \<Rightarrow> (case tp_read T p of Inr source \<Rightarrow> Some source | Inl _ \<Rightarrow> None) | None \<Rightarrow> map_of ts n)"
  using assms
proof (induction ps arbitrary: ts)
  case (Cons p ps)
  then obtain source where source: "tp_read T p = Inr source" "ParseFiles T fs ps (AList.update (path_Base p) source ts) = Inr us"
    by (auto split: sum.splits option.splits)
  have find_snoc: "List.find P (xs @ [x]) = (case List.find P xs of None \<Rightarrow> if P x then Some x else None | Some y \<Rightarrow> Some y)"
    for P and x and xs :: "string list" by (induction xs) auto
  from Cons.IH [OF source(2)] source(1) show ?case by (auto simp: find_snoc update_conv' split: option.split)
qed simp

text \<open>A template is rendered from its own file, unless a helper has the same base name; then the last such
  helper is rendered in its place.\<close>

lemma useTemplate_source:
  assumes "useTemplate T helpers f = Inr k"
  shows "map_of (kt_Set k) (kt_Name k) = (case tp_read T (case List.find (\<lambda>p. path_Base p = path_Base (tf_Path T f)) (rev helpers) of
     Some p \<Rightarrow> p | None \<Rightarrow> tf_Path T f) of Inr source \<Rightarrow> Some source | Inl _ \<Rightarrow> None)"
proof -
  have find_snoc: "List.find P (xs @ [x]) = (case List.find P xs of None \<Rightarrow> if P x then Some x else None | Some y \<Rightarrow> Some y)"
    for P and x and xs :: "string list" by (induction xs) auto
  show ?thesis
    using assms ParseFiles_lookup [of T "tp_functions T @ [''include'']" "tf_Path T f # helpers" "[]" _ "path_Base (tf_Path T f)"]
    by (auto simp: useTemplate_def Let_def find_snoc split: sum.splits option.splits)
qed

text \<open>The files of the templates lie in the directory under their names.\<close>

lemma template_files: "tp_getenv T ''TEMPLATES_DIR'' = Some ''/templates'' \<Longrightarrow>
    tf_Path T NodePools = ''/templates/node-pools.tmpl.yml'' \<and> tf_Path T ServerlessLambdaSvc = ''/templates/serverless/lambda-svc.yml.tpl''
      \<and> tf_Path T CreateNode = tf_Path T NodeJob"
  by (simp add: tf_Path_def templateDir_def, code_simp)

end
