(* ===== verification/Logging.thy ===== *)
theory Logging
  imports Errors
begin

text \<open>
  The loggers of \<open>lib/logging/logger.go\<close> and \<open>lib/logger/main.go\<close>.  A logger is the options it was made
  with, the names it was given and the pairs attached to it; what it does is one call of the zap
  library.  The zap library, the colours and the formatting of messages are parameters.
\<close>

datatype log_level = DebugLevel | InfoLevel | WarnLevel | ErrorLevel

text \<open>A call of a logger of zap: level, names, attached pairs, format and arguments.\<close>

datatype zap_call = ZapLog log_level "string list" "(string \<times> string) list" string "string list"

record zap_config =
  zc_Development :: bool
  zc_ColorLevels :: bool
  zc_LineEnding :: string
  zc_NoTime :: bool

record log_options =
  lo_Name :: string
  lo_Dev :: bool

record logger =
  lg_opts :: log_options
  lg_config :: zap_config
  lg_names :: "string list"
  lg_kvs :: "(string \<times> string) list"

type_synonym log_act = "(zap_call list, unit) act"

definition zap_log :: "log_level \<Rightarrow> logger \<Rightarrow> string \<Rightarrow> string list \<Rightarrow> log_act" where
  "zap_log lvl c fmt args = modify (\<lambda>ls. ls @ [ZapLog lvl (lg_names c) (lg_kvs c) fmt args])"

definition Debugf :: "logger \<Rightarrow> string \<Rightarrow> string list \<Rightarrow> log_act" where
  "Debugf c msg args = zap_log DebugLevel c msg args"

definition Infof :: "logger \<Rightarrow> string \<Rightarrow> string list \<Rightarrow> log_act" where
  "Infof c msg args = zap_log InfoLevel c msg args"

definition Warnf :: "logger \<Rightarrow> string \<Rightarrow> string list \<Rightarrow> log_act" where
  "Warnf c msg args = zap_log WarnLevel c msg args"

text \<open>The message is formatted, wrapped around the error, and taken as a format once more.\<close>

definition Errorf :: "(string \<Rightarrow> string list \<Rightarrow> string) \<Rightarrow> logger \<Rightarrow> error \<Rightarrow> string \<Rightarrow> string list \<Rightarrow> log_act" where
  "Errorf sprintf c err msg args = zap_log ErrorLevel c (errmsg (NewEf err (sprintf msg args))) []"

definition LogError :: "logger \<Rightarrow> error \<Rightarrow> log_act" where
  "LogError c err = zap_log ErrorLevel c (errmsg err) []"

text \<open>The receiver is a value: the logger itself keeps its pairs.\<close>

definition WithKV :: "logger \<Rightarrow> string \<Rightarrow> string \<Rightarrow> logger" where
  "WithKV c key v = c\<lparr>lg_kvs := lg_kvs c @ [(key, v)]\<rparr>"

definition decorateName :: "(string \<Rightarrow> string) \<Rightarrow> string \<Rightarrow> string" where
  "decorateName magenta name = ''('' @ magenta name @ '')''"

definition WithName :: "(string \<Rightarrow> string) \<Rightarrow> logger \<Rightarrow> string \<Rightarrow> logger" where
  "WithName magenta c name = (if lo_Dev (lg_opts c) then c\<lparr>lg_names := lg_names c @ [decorateName magenta name]\<rparr>
     else c\<lparr>lg_names := lg_names c @ [decorateName magenta name]\<rparr>)"

definition zap_dev :: zap_config where
  "zap_dev = \<lparr>zc_Development = True, zc_ColorLevels = True, zc_LineEnding = [CHR 0x0A], zc_NoTime = True\<rparr>"

definition zap_production :: zap_config where
  "zap_production = \<lparr>zc_Development = False, zc_ColorLevels = False, zc_LineEnding = [CHR 0x0A], zc_NoTime = False\<rparr>"

text \<open>\<open>New\<close>: only a development logger has its name decorated.\<close>

definition NewLogger :: "(string \<Rightarrow> string) \<Rightarrow> (zap_config \<Rightarrow> error option) \<Rightarrow> log_options option \<Rightarrow> error + logger" where
  "NewLogger magenta build options =
     (let opts = (case options of Some o' \<Rightarrow> o' | None \<Rightarrow> \<lparr>lo_Name = '''', lo_Dev = False\<rparr>);
          cfg = (if lo_Dev opts then zap_dev else zap_production);
          opts = (if lo_Dev opts \<and> lo_Name opts \<noteq> '''' then opts\<lparr>lo_Name := decorateName magenta (lo_Name opts)\<rparr> else opts)
      in case build cfg of
           Some e \<Rightarrow> Inl e
         | None \<Rightarrow> Inr \<lparr>lg_opts = opts, lg_config = cfg, lg_names = (if lo_Name opts \<noteq> '''' then [lo_Name opts] else []), lg_kvs = []\<rparr>)"

definition NewOrDie :: "(string \<Rightarrow> string) \<Rightarrow> (zap_config \<Rightarrow> error option) \<Rightarrow> log_options option \<Rightarrow> logger res" where
  "NewOrDie magenta build options = (case NewLogger magenta build options of Inl e \<Rightarrow> Panic (errmsg e) | Inr c \<Rightarrow> Ret c)"

text \<open>The logger of \<open>lib/logger\<close>, which names the object in a pair.\<close>

definition NewRefLogger :: "(zap_config \<Rightarrow> error option) \<Rightarrow> string \<Rightarrow> string \<Rightarrow> logger res" where
  "NewRefLogger build ns name =
     (let cfg = \<lparr>zc_Development = True, zc_ColorLevels = False, zc_LineEnding = [CHR 0x0A, CHR 0x0A], zc_NoTime = True\<rparr> in
      case build cfg of
        Some e \<Rightarrow> Panic (errmsg e)
      | None \<Rightarrow> Ret \<lparr>lg_opts = \<lparr>lo_Name = '''', lo_Dev = False\<rparr>, lg_config = cfg, lg_names = [], lg_kvs = [(''REF'', ns @ ''/'' @ name)]\<rparr>)"

section \<open>Derived loggers\<close>

text \<open>Loggers made from one another write what they were made with: names in order, pairs in order, and
  nothing of it shows in the logger they were made from.\<close>

lemma derived_logger:
  "snd (Infof (WithName m (WithKV c k v) n) msg args ls)
     = ls @ [ZapLog InfoLevel (lg_names c @ [''('' @ m n @ '')'']) (lg_kvs c @ [(k, v)]) msg args]"
  "WithName m (WithKV c k v) n = WithKV (WithName m c n) k v"
  by (simp_all add: Infof_def zap_log_def WithName_def WithKV_def decorateName_def)

text \<open>An error's text reaches zap as a format: a percent sign in it is read as a verb without argument.\<close>

lemma error_is_format: "snd (LogError c err ls) = ls @ [ZapLog ErrorLevel (lg_names c) (lg_kvs c) (errmsg err) []]"
  by (simp add: LogError_def zap_log_def)

end
