(* ===== verification/Clients.thy ===== *)
theory Clients
  imports Tunnel
begin

text \<open>
  The clients in \<open>lib/wireguard\<close> and \<open>lib/kube-client\<close>.  The key library and the API server are
  parameters; the generated keys fit together as the analysis of the tunnels assumes.
\<close>

section \<open>Keys\<close>

text \<open>A private key of the library, its public key, and their texts.\<close>

record ('k, 'p) key_library =
  kl_generate :: "nat \<Rightarrow> error + 'k"
  kl_public :: "'k \<Rightarrow> 'p"
  kl_private_text :: "'k \<Rightarrow> string"
  kl_public_text :: "'p \<Rightarrow> string"

definition GenerateWgKeys :: "('k, 'p) key_library \<Rightarrow> nat \<Rightarrow> error + string \<times> string" where
  "GenerateWgKeys L i = (case kl_generate L i of
     Inl e \<Rightarrow> Inl e
   | Inr key \<Rightarrow> Inr (kl_public_text L (kl_public L key), kl_private_text L key))"

definition key_pair :: "('k, 'p) key_library \<Rightarrow> string \<Rightarrow> string \<Rightarrow> bool" where
  "key_pair L pub pv \<longleftrightarrow> (\<exists>key. pv = kl_private_text L key \<and> pub = kl_public_text L (kl_public L key))"

lemma GenerateWgKeys_pair: "GenerateWgKeys L i = Inr (pub, pv) \<Longrightarrow> key_pair L pub pv"
  by (auto simp: GenerateWgKeys_def key_pair_def split: sum.splits)

text \<open>The controllers' keys are pairs when they come from this function, whichever keys it draws.\<close>

lemma controllers_keys_paired:
  "(\<And>h. dv_keys E h = GenerateWgKeys L (draw h)) \<Longrightarrow> dv_paired (key_pair L) E"
  "(\<And>h. ac_keys A h = GenerateWgKeys L (draw' h)) \<Longrightarrow> ac_paired (key_pair L) A"
  by (auto simp: dv_paired_def ac_paired_def dest: GenerateWgKeys_pair)

section \<open>The kube client\<close>

text \<open>An error is returned after the status is written; an error of the write takes its place.\<close>

definition kube_FailWithErr :: "('sp, 'ev, 'z) kenv_scheme \<Rightarrow> error option \<Rightarrow> ('sp, 'ev, 'lv, ctrl_result \<times> error option) ract" where
  "kube_FailWithErr E err = andThen (client_StatusUpdate E) (\<lambda>e. case e of
     Some e' \<Rightarrow> ret (ctrl_zero, Some e')
   | None \<Rightarrow> ret (ctrl_zero, err))"

end
