(* ===== verification/Spec2Isabelle.thy ===== *)
theory Spec2Isabelle
  imports NodePoolProps CloudProvider Edge WorkerNode Domain Region DeviceProps AccountProps AccountDomain
    ControllersSafe TenantsSafe NodePorts DeviceNames Wakeups StatusConditions OperatorV1 JobHelpers Helpers Agent Linkerd Datastores
    Templates Logging Clients
begin

text \<open>
  A model of the Kloudlite internal operator: Kubernetes controllers written in Go, which bring
  node pools, worker nodes, edges, cloud providers, regions, domains, devices and accounts to the
  state their specs describe.

  Structure of the program and of the development.

  A controller is called with the name of an object.  It fetches the object, runs a fixed
  preparation (checks, annotated commands, labels, finalizers), then its own steps, each of which
  looks at the cluster, changes something, records a check in the status of the object, and
  either lets the pass go on or ends it.  What the controllers share is
  \<open>lib/operator.v2\<close>, and the theories follow this layering:

  \<^item> \<open>Prelude\<close>: actions that return or panic, Go maps, decimal printing; the locale \<open>frame\<close> (a
    preorder that every action of a group keeps) and the locale \<open>kv_store\<close> (keyed storage).
  \<^item> \<open>RawJson\<close> (\<open>lib/raw-json\<close>), \<open>StepResult\<close> (\<open>lib/operator.v2/step-result\<close>,
    \<open>lib/reconcile-result\<close>), \<open>Meta\<close> (object metadata, \<open>lib/functions\<close>), \<open>Conditions\<close>
    (\<open>lib/conditions\<close>): the data a status consists of.
  \<^item> \<open>Request\<close> (\<open>lib/operator.v2/request.go\<close>): the operations of a request and the shared frame of
    every \<open>Reconcile\<close>; \<open>RequestLaws\<close> and \<open>RequestProps\<close>: the calls they make, the status they
    write, and that preparation ends.  \<open>RequestSafe\<close> is the locale \<open>safe_controller\<close>, what a
    controller has to show so as never to panic, and \<open>NodePoolSafe\<close>, \<open>ControllersSafe\<close> and
    \<open>TenantsSafe\<close> its interpretations: node pools, cloud providers, edges, domains and regions never
    panic, worker nodes, devices and accounts only after the answers that are named there.
    \<open>RequestTriples\<close> is the logic in which whole passes are analysed step by step.
  \<^item> \<open>RCalculate\<close> (\<open>lib/rcalculate\<close>): the autoscaler's decision, with its caches and 64-bit
    arithmetic, refined to an abstract decision; bounds, stability and convergence.
  \<^item> \<open>Std\<close>, \<open>Json\<close> and \<open>Kubectl\<close> (\<open>lib/functions/kubectl.go\<close>, \<open>lib/kresource\<close>): what is used of the
    standard library (JSON in both directions, CSV, integers) and the totals computed from
    kubectl's output; \<open>Errors\<close> (\<open>lib/errors\<close>, \<open>lib/operator.v2/errors.go\<close>) and \<open>Helpers\<close>
    (\<open>lib/functions/main.go\<close>: base64, names, maps, what \<open>KubectlApply\<close> writes).
  \<^item> \<open>ApiTypes\<close>: the specs of \<open>apis/infra/v1\<close> and \<open>apis/management/v1\<close>.
  \<^item> \<open>NodePool\<close>, \<open>NodePoolProps\<close>, \<open>CloudProvider\<close>, \<open>Edge\<close>, \<open>WorkerNode\<close>
    (\<open>controllers/infra\<close>), \<open>Nameserver\<close> (\<open>lib/nameserver\<close>), \<open>Domain\<close>, \<open>Region\<close>
    (\<open>controllers/common\<close>): the controllers of nodes and of domain names.
  \<^item> \<open>ProxyConfig\<close>: the document \<open>device-proxy-config\<close>, which the account controller writes and the
    device controller reads, as the interface of the two; \<open>Device\<close>, \<open>DeviceProps\<close>
    (\<open>controllers/common/device_controller.go\<close>), \<open>Account\<close>, \<open>AccountProps\<close>
    (\<open>controllers/common/account\<close>): the controllers of the wireguard network of an account;
    \<open>AccountDomain\<close>: the two steps of the account controller that its pass does not run.
  \<^item> \<open>Infra\<close> and \<open>Tunnel\<close>: the controllers together.  \<open>Infra\<close> is a step relation over the edges, node
    pools and worker nodes of a cluster, whose steps are whole passes of the edge and node pool
    controllers answered from the objects that are there; \<open>Tunnel\<close> a relation over the secrets of an
    account, whose steps are whole passes of the device and account controllers; \<open>Endpoints\<close> joins the
    passes of the device and region controllers, \<open>NodePorts\<close> those of the device and account
    controllers in the node ports shown, \<open>DeviceNames\<close> the passes over two devices of an account.
  \<^item> \<open>Startup\<close> (\<open>main.go\<close>, \<open>env/env.go\<close>, the methods \<open>SetupWithManager\<close>): the start of the operator and the
    registration of its controllers; \<open>Wakeups\<close>: which controllers the objects wake that passes make.
  \<^item> Beside the controllers: \<open>StatusConditions\<close> (\<open>lib/functions/conditions.go\<close>, two copies of a
    builder of conditions, proved to agree), \<open>OperatorV1\<close> (\<open>lib/operator\<close>, the request layer before
    the present one), \<open>JobHelpers\<close> (\<open>lib/job-helpers.go\<close>), \<open>Agent\<close> (\<open>agent\<close>, the loop that hands
    messages to kubectl), \<open>Linkerd\<close> (\<open>lib/linkerd\<close>, \<open>lib/cluster\<close>, on a state with the file
    system), \<open>Datastores\<close> (\<open>lib/redis\<close>, \<open>lib/mongo\<close>), \<open>Templates\<close> (\<open>lib/templates\<close>, with the paths of \<open>Paths\<close>),
    \<open>Logging\<close> (\<open>lib/logging\<close>, \<open>lib/logger\<close>) and \<open>Clients\<close> (\<open>lib/wireguard\<close>, \<open>lib/kube-client\<close>).

  How the state is represented.  A request is an \<open>rstate\<close>: the object as it was fetched and
  changed, the locals of the pass, and the history of the calls made.  The cluster, commands, HTTP
  servers, templates, key generation, the clock and random numbers are fields of an environment
  record; an answer of the cluster is a function of the history so far, so nothing is assumed about
  other clients.  What a step does to the world is what it appends to the history.  A nil
  dereference, an index out of range and a failed type assertion are the outcome \<open>Panic\<close>.

  How the parts interact.  An edge applies its node pools (\<open>Edge\<close>); a pool creates and deletes
  worker nodes as the autoscaler decides (\<open>NodePool\<close>, \<open>RCalculate\<close>); a worker node runs the
  jobs that create its machine and label its Kubernetes node (\<open>WorkerNode\<close>); a region sends the
  addresses of its nodes to the nameserver under the domain that the devices' configurations
  name (\<open>Region\<close>, \<open>Device\<close>); an account allocates proxy ports to its devices' ports and stores
  them (\<open>Account\<close>), and a device points its service at the ports stored (\<open>Device\<close>).

  What the lemmas show.  Of the request layer: the body of a controller runs only on a prepared,
  live object, preparation ends, what is recorded of failures and dropped from a status, and
  which controllers cannot panic.  Of the
  controllers: which calls a pass can and cannot make, what it settles on, and which failures end
  in a panic or are never reported.  Several properties state behaviour that the code is not meant
  to have; their texts say so.

  Bounds and fuel.  The JSON parser (\<open>Std\<close>) takes the length of its input plus one as fuel and
  consumes a character in each call; \<open>Json\<close> proves it enough for all that the encoder writes.  The
  search for an account's domain name (\<open>AccountDomain\<close>) may run for ever in the code and takes
  fuel, with which it finds the first free name as soon as there is enough.  The search for a port (\<open>pick_port\<close>) ends after 3002 draws
  by the counter in the code.  The loops of the autoscaler are structural.

  Not modelled: the template engine, YAML, hashing, zap and controller-runtime, which are libraries and
  parameters; generated deep copies, which copy values that are passed by value here; log lines of
  the controllers; and tests and files that are commented out.
\<close>

end
